(* ===== verification/Prelude.thy ===== *)
theory Prelude
  imports Main "HOL-Library.Word"
begin

text \<open>
  Types, hint collections and generic lemmas shared by every component.

  A Rust \<open>Uuid\<close> is a 128-bit word (its ordering is the ordering PostgreSQL and Rust use on the
  sixteen bytes). A Rust \<open>&str\<close> that is only compared (canonical names, hashes, tokens in hex) is a
  HOL \<open>string\<close>; free text whose characters the code counts, trims or inspects is the list of its
  Unicode scalar values, \<open>ustring\<close>. Instants are integers (microseconds).
\<close>

type_synonym uuid = "128 word"
type_synonym ustring = "nat list"
type_synonym instant = int
type_synonym byte = "8 word"

text \<open>Identifier newtypes of \<open>crates/domain\<close>: one field of type \<open>Uuid\<close>, no behaviour of their own.\<close>

type_synonym actor_id = uuid
type_synonym organization_id = uuid
type_synonym team_id = uuid
type_synonym invite_id = uuid
type_synonym channel_id = uuid

text \<open>
  Hint collections: \<open>tx_simps\<close> evaluates statements on a healthy connection, \<open>run_simps\<close> inverts a
  successful run, \<open>steady_intros\<close> and
  \<open>atomic_intros\<close> hold the compositional rules of the transaction laws, \<open>keeps_intros\<close> those of
  statement-level invariants.
\<close>

named_theorems tx_simps
named_theorems run_simps
named_theorems steady_intros
named_theorems atomic_intros
named_theorems keeps_intros

section \<open>Text\<close>

definition lit :: "string \<Rightarrow> ustring" where
  "lit s = map of_char s"

text \<open>PostgreSQL's \<open>lower(x COLLATE "C")\<close>: only the ASCII capitals change.\<close>

definition ascii_lower_char :: "nat \<Rightarrow> nat" where
  "ascii_lower_char c = (if 65 \<le> c \<and> c \<le> 90 then c + 32 else c)"

definition ascii_lower :: "ustring \<Rightarrow> ustring" where
  "ascii_lower t = map ascii_lower_char t"

lemma ascii_lower_char_idem [simp]:
  "ascii_lower_char (ascii_lower_char c) = ascii_lower_char c"
  by (simp add: ascii_lower_char_def)

lemma ascii_lower_idem [simp]: "ascii_lower (ascii_lower t) = ascii_lower t"
  by (simp add: ascii_lower_def o_def)

lemma ascii_lower_length [simp]: "length (ascii_lower t) = length t"
  by (simp add: ascii_lower_def)

text \<open>Rust's \<open>char::is_whitespace\<close> is the Unicode property White_Space.\<close>

definition is_whitespace :: "nat \<Rightarrow> bool" where
  "is_whitespace c \<longleftrightarrow> (9 \<le> c \<and> c \<le> 13) \<or> c = 32 \<or> c = 133 \<or> c = 160 \<or> c = 5760
     \<or> (8192 \<le> c \<and> c \<le> 8202) \<or> c = 8232 \<or> c = 8233 \<or> c = 8239 \<or> c = 8287 \<or> c = 12288"

text \<open>\<open>str::trim\<close> and \<open>str::len\<close> (the UTF-8 length).\<close>

definition trim :: "ustring \<Rightarrow> ustring" where
  "trim t = rev (dropWhile is_whitespace (rev (dropWhile is_whitespace t)))"

definition utf8_width :: "nat \<Rightarrow> nat" where
  "utf8_width c = (if c < 128 then 1 else if c < 2048 then 2 else if c < 65536 then 3 else 4)"

definition utf8_len :: "ustring \<Rightarrow> nat" where
  "utf8_len t = sum_list (map utf8_width t)"

text \<open>\<open>str::as_bytes\<close>: the UTF-8 encoding of a scalar value, and of a text.\<close>

definition utf8_char :: "nat \<Rightarrow> byte list" where
  "utf8_char c =
     (if c < 128 then [of_nat c]
      else if c < 2048 then [of_nat (192 + c div 64), of_nat (128 + c mod 64)]
      else if c < 65536 then
        [of_nat (224 + c div 4096), of_nat (128 + c div 64 mod 64), of_nat (128 + c mod 64)]
      else
        [of_nat (240 + c div 262144), of_nat (128 + c div 4096 mod 64),
         of_nat (128 + c div 64 mod 64), of_nat (128 + c mod 64)])"

definition utf8_bytes :: "ustring \<Rightarrow> byte list" where
  "utf8_bytes t = concat (map utf8_char t)"

lemma length_utf8_bytes: "length (utf8_bytes t) = utf8_len t"
  by (induction t) (simp_all add: utf8_bytes_def utf8_len_def utf8_char_def utf8_width_def)

text \<open>PostgreSQL \<open>text\<close> cannot hold U+0000: binding such a parameter is an error.\<close>

definition bindable :: "ustring \<Rightarrow> bool" where
  "bindable t \<longleftrightarrow> 0 \<notin> set t"

definition bindable_str :: "string \<Rightarrow> bool" where
  "bindable_str s \<longleftrightarrow> CHR 0x00 \<notin> set s"

section \<open>Rows\<close>

text \<open>\<open>fetch_optional\<close>: the first row of the result, if there is one.\<close>

definition fetch_optional :: "'a list \<Rightarrow> 'a option" where
  "fetch_optional rows = (case rows of [] \<Rightarrow> None | r # _ \<Rightarrow> Some r)"

lemma fetch_optional_None [simp]: "fetch_optional rows = None \<longleftrightarrow> rows = []"
  by (simp add: fetch_optional_def split: list.split)

lemma fetch_optional_SomeD: "fetch_optional rows = Some r \<Longrightarrow> r \<in> set rows"
  by (simp add: fetch_optional_def split: list.splits)

lemma fetch_optional_simps [simp]:
  "fetch_optional [] = None"
  "fetch_optional (r # rs) = Some r"
  by (simp_all add: fetch_optional_def)

text \<open>An UPDATE rewrites the rows a condition selects; it keeps what the rewriting keeps.\<close>

definition update_where :: "('a \<Rightarrow> bool) \<Rightarrow> ('a \<Rightarrow> 'a) \<Rightarrow> 'a list \<Rightarrow> 'a list" where
  "update_where p f rows = map (\<lambda>r. if p r then f r else r) rows"

lemma update_where_map_key:
  "(\<And>r. key (f r) = key r) \<Longrightarrow> map key (update_where p f rows) = map key rows"
  by (simp add: update_where_def)

lemma update_where_image_key:
  "(\<And>r. key (f r) = key r) \<Longrightarrow> key ` set (update_where p f rows) = key ` set rows"
  by (metis (no_types, lifting) update_where_map_key list.set_map)

lemma set_update_where:
  "set (update_where p f rows) = f ` {r \<in> set rows. p r} \<union> {r \<in> set rows. \<not> p r}"
  by (auto simp: update_where_def)

lemma update_where_simps [simp]:
  "update_where p f [] = []"
  "update_where p f (r # rs) = (if p r then f r else r) # update_where p f rs"
  by (simp_all add: update_where_def)

lemma update_where_append [simp]:
  "update_where p f (xs @ ys) = update_where p f xs @ update_where p f ys"
  by (simp add: update_where_def)

lemma update_where_memberD: "x \<in> set (update_where p f rows) \<Longrightarrow> \<exists>y \<in> set rows. x = (if p y then f y else y)"
  by (auto simp: update_where_def)

lemma update_where_none: "\<forall>r \<in> set rows. \<not> p r \<Longrightarrow> update_where p f rows = rows"
  by (induction rows) auto

lemma update_where_related:
  "(\<And>r. r \<in> set rows \<Longrightarrow> p r \<Longrightarrow> R r (f r)) \<Longrightarrow> (\<And>r. r \<in> set rows \<Longrightarrow> \<not> p r \<Longrightarrow> R r r)
    \<Longrightarrow> \<forall>r \<in> set rows. \<exists>r' \<in> set (update_where p f rows). R r r'"
  by (induction rows) auto

lemma length_update_where [simp]: "length (update_where p f rows) = length rows"
  by (simp add: update_where_def)

lemma distinct_map_filter_key: "distinct (map key rows) \<Longrightarrow> distinct (map key (filter p rows))"
  by (simp add: distinct_map_filter)

lemma distinct_key_unique:
  "distinct (map key rows) \<Longrightarrow> r \<in> set rows \<Longrightarrow> r' \<in> set rows \<Longrightarrow> key r = key r' \<Longrightarrow> r = r'"
  by (simp add: distinct_map inj_on_def)

lemma filter_key_singleton:
  "distinct (map key rows) \<Longrightarrow> r \<in> set rows \<Longrightarrow> filter (\<lambda>x. key x = key r) rows = [r]"
proof (induction rows)
  case (Cons a rows)
  show ?case
  proof (cases "a = r")
    case True
    with Cons.prems have "filter (\<lambda>x. key x = key r) rows = []"
      by (auto simp: filter_empty_conv) (metis image_eqI)
    with True show ?thesis by simp
  next
    case False
    with Cons.prems have "key a \<noteq> key r" and "r \<in> set rows" by auto
    with Cons show ?thesis by simp
  qed
qed simp

end
