(* ===== verification/Domain.thy ===== *)
theory Domain
  imports Prelude
begin

text \<open>
  \<open>crates/domain/src/lib.rs\<close>: the enumerations with their canonical names, the capability table, the
  last-owner rule, message identifiers and channel sequence numbers.
\<close>

section \<open>Enumerations\<close>

text \<open>
  The macro \<open>enumeration!\<close> generates a type, \<open>ALL\<close>, \<open>parse\<close> and \<open>as_str\<close> from one list. Its contract is a
  locale; each of the five enumerations is an interpretation.
\<close>

datatype actor_type = Human | Bot | Integration | System
datatype organization_role = Owner | Admin | Member
datatype member_status = Active | Suspended | Left
datatype team_role = Manager | TeamMember
datatype invite_kind = OrganizationInvite | TeamInvite

fun actor_type_str :: "actor_type \<Rightarrow> string" where
  "actor_type_str Human = ''human''"
| "actor_type_str Bot = ''bot''"
| "actor_type_str Integration = ''integration''"
| "actor_type_str System = ''system''"

definition actor_type_parse :: "string \<Rightarrow> actor_type option" where
  "actor_type_parse s =
     (if s = ''human'' then Some Human else if s = ''bot'' then Some Bot
      else if s = ''integration'' then Some Integration
      else if s = ''system'' then Some System else None)"

fun role_str :: "organization_role \<Rightarrow> string" where
  "role_str Owner = ''owner''"
| "role_str Admin = ''admin''"
| "role_str Member = ''member''"

definition role_parse :: "string \<Rightarrow> organization_role option" where
  "role_parse s =
     (if s = ''owner'' then Some Owner else if s = ''admin'' then Some Admin
      else if s = ''member'' then Some Member else None)"

fun status_str :: "member_status \<Rightarrow> string" where
  "status_str Active = ''active''"
| "status_str Suspended = ''suspended''"
| "status_str Left = ''left''"

definition status_parse :: "string \<Rightarrow> member_status option" where
  "status_parse s =
     (if s = ''active'' then Some Active else if s = ''suspended'' then Some Suspended
      else if s = ''left'' then Some Left else None)"

fun team_role_str :: "team_role \<Rightarrow> string" where
  "team_role_str Manager = ''manager''"
| "team_role_str TeamMember = ''member''"

definition team_role_parse :: "string \<Rightarrow> team_role option" where
  "team_role_parse s =
     (if s = ''manager'' then Some Manager else if s = ''member'' then Some TeamMember else None)"

fun invite_kind_str :: "invite_kind \<Rightarrow> string" where
  "invite_kind_str OrganizationInvite = ''organization''"
| "invite_kind_str TeamInvite = ''team''"

definition invite_kind_parse :: "string \<Rightarrow> invite_kind option" where
  "invite_kind_parse s =
     (if s = ''organization'' then Some OrganizationInvite
      else if s = ''team'' then Some TeamInvite else None)"

definition actor_type_all :: "actor_type list" where
  "actor_type_all = [Human, Bot, Integration, System]"
definition role_all :: "organization_role list" where
  "role_all = [Owner, Admin, Member]"
definition status_all :: "member_status list" where
  "status_all = [Active, Suspended, Left]"
definition team_role_all :: "team_role list" where
  "team_role_all = [Manager, TeamMember]"
definition invite_kind_all :: "invite_kind list" where
  "invite_kind_all = [OrganizationInvite, TeamInvite]"

locale enumeration =
  fixes parse :: "string \<Rightarrow> 'a option"
    and as_str :: "'a \<Rightarrow> string"
    and all :: "'a list"
  assumes parse_as_str: "parse (as_str v) = Some v"
    and parse_only: "parse s = Some v \<Longrightarrow> s = as_str v"
    and all_complete: "v \<in> set all"
    and all_distinct: "distinct all"
begin

lemma as_str_inject: "as_str v = as_str w \<longleftrightarrow> v = w"
  using parse_as_str by (metis option.inject)

lemma parse_iff: "parse s = Some v \<longleftrightarrow> s = as_str v"
  using parse_as_str parse_only by blast

lemma parse_None_iff: "parse s = None \<longleftrightarrow> s \<notin> as_str ` set all"
  using parse_iff all_complete by (metis imageE imageI not_Some_eq)

lemma names_distinct: "distinct (map as_str all)"
  using all_distinct as_str_inject by (simp add: distinct_map inj_on_def)

end

interpretation actor_type: enumeration actor_type_parse actor_type_str actor_type_all
proof unfold_locales
  show "actor_type_parse (actor_type_str v) = Some v" for v
    by (cases v) (simp_all add: actor_type_parse_def)
  show "v \<in> set actor_type_all" for v by (cases v) (simp_all add: actor_type_all_def)
qed (auto simp: actor_type_parse_def actor_type_all_def split: if_splits)

interpretation role: enumeration role_parse role_str role_all
proof unfold_locales
  show "role_parse (role_str v) = Some v" for v
    by (cases v) (simp_all add: role_parse_def)
  show "v \<in> set role_all" for v by (cases v) (simp_all add: role_all_def)
qed (auto simp: role_parse_def role_all_def split: if_splits)

interpretation status: enumeration status_parse status_str status_all
proof unfold_locales
  show "status_parse (status_str v) = Some v" for v
    by (cases v) (simp_all add: status_parse_def)
  show "v \<in> set status_all" for v by (cases v) (simp_all add: status_all_def)
qed (auto simp: status_parse_def status_all_def split: if_splits)

interpretation team_role: enumeration team_role_parse team_role_str team_role_all
proof unfold_locales
  show "team_role_parse (team_role_str v) = Some v" for v
    by (cases v) (simp_all add: team_role_parse_def)
  show "v \<in> set team_role_all" for v by (cases v) (simp_all add: team_role_all_def)
qed (auto simp: team_role_parse_def team_role_all_def split: if_splits)

interpretation invite_kind: enumeration invite_kind_parse invite_kind_str invite_kind_all
proof unfold_locales
  show "invite_kind_parse (invite_kind_str v) = Some v" for v
    by (cases v) (simp_all add: invite_kind_parse_def)
  show "v \<in> set invite_kind_all" for v by (cases v) (simp_all add: invite_kind_all_def)
qed (auto simp: invite_kind_parse_def invite_kind_all_def split: if_splits)

lemmas parse_str_simps [simp] =
  actor_type.parse_as_str role.parse_as_str status.parse_as_str
  team_role.parse_as_str invite_kind.parse_as_str

section \<open>Capabilities\<close>

datatype capability = InviteMember

fun holds :: "organization_role \<Rightarrow> capability \<Rightarrow> bool" where
  "holds r InviteMember \<longleftrightarrow> r = Owner \<or> r = Admin"

section \<open>The last-owner rule\<close>

datatype owner_change = Demote actor_id | Suspend actor_id | Leave actor_id

datatype last_owner = LastOwner

fun changed_actor :: "owner_change \<Rightarrow> actor_id" where
  "changed_actor (Demote a) = a"
| "changed_actor (Suspend a) = a"
| "changed_actor (Leave a) = a"

definition check_owner_change :: "actor_id list \<Rightarrow> owner_change \<Rightarrow> last_owner + unit" where
  "check_owner_change active_owners change =
     (let actor = changed_actor change
      in if list_ex (\<lambda>owner. owner \<noteq> actor) active_owners then Inr () else Inl LastOwner)"

lemma check_owner_change_Inr:
  "check_owner_change owners change = Inr u \<longleftrightarrow> (\<exists>x \<in> set owners. x \<noteq> changed_actor change)"
  by (simp add: check_owner_change_def list_ex_iff)

lemma check_owner_change_Inl:
  "check_owner_change owners change = Inl e \<longleftrightarrow> set owners \<subseteq> {changed_actor change}"
  by (cases e) (auto simp: check_owner_change_def list_ex_iff)

section \<open>Message identifiers and sequence numbers\<close>

text \<open>
  Version and variant of a UUID are read by the crate \<open>uuid\<close>: the two comparisons the code makes are the
  parameters.
\<close>

record uuid_api =
  version_is_sortrand :: "uuid \<Rightarrow> bool"
  variant_is_rfc4122 :: "uuid \<Rightarrow> bool"

datatype message_id = MessageId (as_uuid: uuid)

datatype not_v7 = NotV7

definition from_client :: "uuid_api \<Rightarrow> uuid \<Rightarrow> not_v7 + message_id" where
  "from_client api value =
     (if version_is_sortrand api value \<and> variant_is_rfc4122 api value
      then Inr (MessageId value) else Inl NotV7)"

lemma from_client_Inr: "from_client api v = Inr i \<Longrightarrow> as_uuid i = v"
  by (auto simp: from_client_def split: if_splits)

datatype channel_scope = OrganizationScope | TeamScope team_id

fun scope_str :: "channel_scope \<Rightarrow> string" where
  "scope_str OrganizationScope = ''organization''"
| "scope_str (TeamScope _) = ''team''"

text \<open>\<open>ChannelSeq\<close> wraps an \<open>i64\<close>; the constructor refuses everything below one.\<close>

datatype channel_seq = ChannelSeq (seq_get: int)

datatype invalid_channel_seq = InvalidChannelSeq

definition i64_max :: int where
  "i64_max = 9223372036854775807"

definition seq_beginning :: channel_seq where
  "seq_beginning = ChannelSeq 0"

definition channel_seq_new :: "int \<Rightarrow> invalid_channel_seq + channel_seq" where
  "channel_seq_new value = (if value \<ge> 1 then Inr (ChannelSeq value) else Inl InvalidChannelSeq)"

lemma channel_seq_new_Inr:
  "channel_seq_new v = Inr q \<longleftrightarrow> 1 \<le> v \<and> q = ChannelSeq v"
  by (auto simp: channel_seq_new_def)

end
