(* ===== verification/Errors.thy ===== *)
theory Errors
  imports Domain
begin

text \<open>
  The error values of the operations (\<open>crates/db/src/operations/errors.rs\<close>) and the part of
  \<open>sqlx::Error\<close> they can carry: a lost connection, a crashed worker, a protocol or decode error the code
  raises itself, and what PostgreSQL answers when it refuses a statement.
\<close>

datatype sqlx_error =
    Io
  | WorkerCrashed
  | Protocol string
  | Decode string
  | ConstraintViolation string
  | RowSecurity
  | TriggerRefused
  | NumericOutOfRange
  | InvalidText

text \<open>\<open>errors::constraint\<close>: is this a database error that names the constraint?\<close>

fun constraint :: "sqlx_error \<Rightarrow> string \<Rightarrow> bool" where
  "constraint (ConstraintViolation n) name \<longleftrightarrow> n = name"
| "constraint _ _ \<longleftrightarrow> False"

datatype create_person_error = EmailTaken | Database sqlx_error

datatype create_organization_error =
  InvalidSlug | SlugTaken | ActorNotFound | ActorDeparted | Database sqlx_error

datatype change_member_role_error = NotFound | LastOwner | Database sqlx_error

datatype suspend_member_error = NotFound | NotActive | LastOwner | Database sqlx_error

datatype reactivate_member_error = NotFound | NotSuspended | ActorDeparted | Database sqlx_error

datatype create_team_error = NotFound | Database sqlx_error

datatype add_team_member_error =
  NotFound | NotAnActiveMember | AlreadyMember | ActorDeparted | Database sqlx_error

datatype change_team_member_role_error = NotFound | Database sqlx_error

datatype remove_team_member_error = NotFound | Database sqlx_error

datatype leave_service_error = NotFound | LastOwner organization_id | Database sqlx_error

datatype create_channel_error = NotFound | NameTaken | Database sqlx_error

datatype add_channel_member_error =
  NotFound | OrganizationScoped | AlreadyMember | ActorNotFound | ActorDeparted | Database sqlx_error

datatype post_message_error = NotFound | IdConflict | InvalidBody | Database sqlx_error

datatype messages_before_error = NotFound | Database sqlx_error

datatype messages_after_error = NotFound | Database sqlx_error

datatype sign_in_error = InvalidCredentials | TokenUnavailable | Database sqlx_error

datatype session_error = NoSession | Database sqlx_error

datatype access_error = Database sqlx_error

datatype create_invite_error = NotAMember | Forbidden | TokenUnavailable | Database sqlx_error

datatype revoke_invite_error = NotAMember | Forbidden | NotFound | Database sqlx_error

datatype accept_invite_error = InviteUnusable | EmailTaken | Database sqlx_error

text \<open>The two \<open>From<domain::LastOwner>\<close> conversions the \<open>?\<close> operator uses.\<close>

definition change_member_role_of_last_owner :: "last_owner \<Rightarrow> change_member_role_error" where
  "change_member_role_of_last_owner e = change_member_role_error.LastOwner"

definition suspend_member_of_last_owner :: "last_owner \<Rightarrow> suspend_member_error" where
  "suspend_member_of_last_owner e = suspend_member_error.LastOwner"

end
