(* ===== verification/Schema.thy ===== *)
theory Schema
  imports Errors
begin

text \<open>
  The tables of \<open>migrations/\<close>: one record per row type, a database as the record of its tables, and
  \<open>schema_ok\<close>, the constraints (\<open>PRIMARY KEY\<close>, \<open>UNIQUE\<close>, \<open>CHECK\<close>, \<open>FOREIGN KEY\<close>) the migrations declare.
  A table is the list of its rows in storage order. \<open>created_at\<close> is kept only where the code reads it
  (messages); \<open>xmin\<close>, the system column the invite policy reads, is a column of \<open>invite_row\<close>.
\<close>

section \<open>Rows\<close>

record actor_row =
  a_id :: actor_id
  a_type :: string
  a_display_name :: "ustring option"
  a_deleted_at :: "instant option"

record user_row =
  u_actor_id :: actor_id
  u_actor_type :: string
  u_email :: ustring
  u_password_hash :: string

record organization_row =
  o_id :: organization_id
  o_name :: ustring
  o_slug :: ustring

record member_row =
  om_org :: organization_id
  om_actor :: actor_id
  om_role :: string
  om_status :: string
  om_display_name :: "ustring option"

record team_row =
  t_id :: team_id
  t_org :: organization_id
  t_name :: ustring

record team_member_row =
  tm_team :: team_id
  tm_actor :: actor_id
  tm_org :: organization_id
  tm_role :: string

record invite_row =
  i_id :: invite_id
  i_org :: organization_id
  i_kind :: string
  i_target_team :: "team_id option"
  i_token_hash :: string
  i_expires_at :: instant
  i_max_uses :: int
  i_used_count :: int
  i_revoked_at :: "instant option"
  i_created_by :: actor_id
  i_xmin :: nat

record session_row =
  s_id :: uuid
  s_actor :: actor_id
  s_token_hash :: string
  s_expires_at :: instant
  s_revoked_at :: "instant option"

record channel_row =
  ch_id :: channel_id
  ch_org :: organization_id
  ch_team :: "team_id option"
  ch_scope :: string
  ch_name :: ustring
  ch_next_seq :: int

record channel_member_row =
  cm_channel :: channel_id
  cm_scope :: string
  cm_org :: organization_id
  cm_actor :: actor_id

record message_row =
  m_id :: uuid
  m_org :: organization_id
  m_channel :: channel_id
  m_seq :: int
  m_sender :: actor_id
  m_body :: ustring
  m_created_at :: instant

text \<open>Audit metadata is a JSON object whose values are canonical names, ids and counts.\<close>

datatype meta = MStr string | MId uuid | MInt int

record audit_row =
  ae_id :: uuid
  ae_org :: organization_id
  ae_actor :: actor_id
  ae_action :: string
  ae_target_type :: string
  ae_target_id :: uuid
  ae_metadata :: "(string \<times> meta) list"

record db =
  actors :: "actor_row list"
  users :: "user_row list"
  organizations :: "organization_row list"
  organization_members :: "member_row list"
  teams :: "team_row list"
  team_members :: "team_member_row list"
  invites :: "invite_row list"
  sessions :: "session_row list"
  channels :: "channel_row list"
  channel_members :: "channel_member_row list"
  messages :: "message_row list"
  audit_events :: "audit_row list"

definition empty_db :: db where
  "empty_db = \<lparr>actors = [], users = [], organizations = [], organization_members = [], teams = [],
     team_members = [], invites = [], sessions = [], channels = [], channel_members = [],
     messages = [], audit_events = []\<rparr>"

section \<open>Check constraints with a pattern\<close>

definition slug_char :: "nat \<Rightarrow> bool" where
  "slug_char c \<longleftrightarrow> (97 \<le> c \<and> c \<le> 122) \<or> (48 \<le> c \<and> c \<le> 57)"

text \<open>\<open>organizations_slug_format\<close>: \<open>^[a-z0-9]([a-z0-9-]{0,30}[a-z0-9])?$\<close>\<close>

definition slug_ok :: "ustring \<Rightarrow> bool" where
  "slug_ok t \<longleftrightarrow> t \<noteq> [] \<and> length t \<le> 32 \<and> slug_char (hd t) \<and> slug_char (last t)
     \<and> list_all (\<lambda>c. slug_char c \<or> c = 45) t"

fun split_on :: "char \<Rightarrow> string \<Rightarrow> string list" where
  "split_on x [] = [[]]"
| "split_on x (c # cs) =
     (if c = x then [] # split_on x cs
      else (case split_on x cs of [] \<Rightarrow> [[c]] | p # ps \<Rightarrow> (c # p) # ps))"

definition is_lower :: "char \<Rightarrow> bool" where
  "is_lower c \<longleftrightarrow> (let n = of_char c :: nat in 97 \<le> n \<and> n \<le> 122)"

text \<open>The action format of \<open>audit_events\<close>: \<open>^[a-z]+(\.[a-z_]+){1,2}$\<close>\<close>

definition action_ok :: "string \<Rightarrow> bool" where
  "action_ok s =
     (case split_on (CHR ''.'') s of
        [] \<Rightarrow> False
      | p # ps \<Rightarrow> p \<noteq> [] \<and> list_all is_lower p \<and> (length ps = 1 \<or> length ps = 2)
          \<and> list_all (\<lambda>q. q \<noteq> [] \<and> list_all (\<lambda>c. is_lower c \<or> c = CHR ''_'') q) ps)"

section \<open>The declared constraints\<close>

definition uniq :: "('r \<Rightarrow> 'k) \<Rightarrow> 'r list \<Rightarrow> bool" where
  "uniq key rows \<longleftrightarrow> distinct (map key rows)"

definition key_set :: "('r \<Rightarrow> 'k) \<Rightarrow> 'r list \<Rightarrow> 'k set" where
  "key_set key rows = key ` set rows"

text \<open>The value lists of the \<open>CHECK (... IN ...)\<close> constraints, spelled as the migrations spell them.\<close>

definition actor_type_check :: "string list" where
  "actor_type_check = [''human'', ''bot'', ''integration'', ''system'']"

definition member_role_check :: "string list" where
  "member_role_check = [''owner'', ''admin'', ''member'']"

definition member_status_check :: "string list" where
  "member_status_check = [''active'', ''suspended'', ''left'']"

definition team_role_check :: "string list" where
  "team_role_check = [''manager'', ''member'']"

text \<open>They are the canonical names of the enumerations: neither side knows a name the other does not.\<close>

lemma checks_are_names [simp]:
  "set actor_type_check = actor_type_str ` set actor_type_all"
  "set member_role_check = role_str ` set role_all"
  "set member_status_check = status_str ` set status_all"
  "set team_role_check = team_role_str ` set team_role_all"
  by (simp_all add: actor_type_check_def actor_type_all_def member_role_check_def role_all_def
      member_status_check_def status_all_def team_role_check_def team_role_all_def)

definition actors_ok :: "actor_row list \<Rightarrow> bool" where
  "actors_ok as \<longleftrightarrow> uniq a_id as \<and> (\<forall>a \<in> set as. a_type a \<in> set actor_type_check)"

definition users_ok :: "user_row list \<Rightarrow> actor_row list \<Rightarrow> bool" where
  "users_ok us as \<longleftrightarrow> uniq u_actor_id us \<and> uniq (\<lambda>u. ascii_lower (u_email u)) us
     \<and> (\<forall>u \<in> set us. u_actor_type u = ''human''
          \<and> (u_actor_id u, u_actor_type u) \<in> key_set (\<lambda>a. (a_id a, a_type a)) as)"

definition organizations_ok :: "organization_row list \<Rightarrow> bool" where
  "organizations_ok os \<longleftrightarrow> uniq o_id os \<and> uniq o_slug os \<and> (\<forall>r \<in> set os. slug_ok (o_slug r))"

definition members_ok :: "member_row list \<Rightarrow> organization_row list \<Rightarrow> actor_row list \<Rightarrow> bool" where
  "members_ok ms os as \<longleftrightarrow> uniq (\<lambda>m. (om_org m, om_actor m)) ms
     \<and> (\<forall>m \<in> set ms. om_org m \<in> key_set o_id os \<and> om_actor m \<in> key_set a_id as
          \<and> om_role m \<in> set member_role_check
          \<and> om_status m \<in> set member_status_check)"

definition teams_ok :: "team_row list \<Rightarrow> organization_row list \<Rightarrow> bool" where
  "teams_ok ts os \<longleftrightarrow> uniq t_id ts \<and> (\<forall>t \<in> set ts. t_org t \<in> key_set o_id os)"

definition team_members_ok ::
    "team_member_row list \<Rightarrow> team_row list \<Rightarrow> member_row list \<Rightarrow> bool" where
  "team_members_ok tms ts ms \<longleftrightarrow> uniq (\<lambda>m. (tm_team m, tm_actor m)) tms
     \<and> (\<forall>m \<in> set tms. (tm_team m, tm_org m) \<in> key_set (\<lambda>t. (t_id t, t_org t)) ts
          \<and> (tm_org m, tm_actor m) \<in> key_set (\<lambda>x. (om_org x, om_actor x)) ms
          \<and> tm_role m \<in> set team_role_check)"

definition invite_row_ok ::
    "team_row list \<Rightarrow> organization_row list \<Rightarrow> actor_row list \<Rightarrow> invite_row \<Rightarrow> bool" where
  "invite_row_ok ts os as i \<longleftrightarrow> i_org i \<in> key_set o_id os \<and> i_created_by i \<in> key_set a_id as
     \<and> 0 < i_max_uses i \<and> 0 \<le> i_used_count i \<and> i_used_count i \<le> i_max_uses i
     \<and> ((i_kind i = ''organization'' \<and> i_target_team i = None)
        \<or> (i_kind i = ''team'' \<and> i_target_team i \<noteq> None))
     \<and> (case i_target_team i of None \<Rightarrow> True
        | Some t \<Rightarrow> (t, i_org i) \<in> key_set (\<lambda>r. (t_id r, t_org r)) ts)"

definition invites_ok ::
    "invite_row list \<Rightarrow> team_row list \<Rightarrow> organization_row list \<Rightarrow> actor_row list \<Rightarrow> bool" where
  "invites_ok is ts os as \<longleftrightarrow> uniq i_id is \<and> uniq i_token_hash is
     \<and> (\<forall>i \<in> set is. invite_row_ok ts os as i)"

definition sessions_ok :: "session_row list \<Rightarrow> user_row list \<Rightarrow> bool" where
  "sessions_ok ss us \<longleftrightarrow> uniq s_id ss \<and> uniq s_token_hash ss
     \<and> (\<forall>s \<in> set ss. s_actor s \<in> key_set u_actor_id us)"

definition channel_row_ok :: "team_row list \<Rightarrow> organization_row list \<Rightarrow> channel_row \<Rightarrow> bool" where
  "channel_row_ok ts os c \<longleftrightarrow> ch_org c \<in> key_set o_id os
     \<and> 1 \<le> length (ch_name c) \<and> length (ch_name c) \<le> 80 \<and> 0 \<le> ch_next_seq c
     \<and> ((ch_scope c = ''organization'' \<and> ch_team c = None)
        \<or> (ch_scope c = ''team'' \<and> ch_team c \<noteq> None))
     \<and> (case ch_team c of None \<Rightarrow> True
        | Some t \<Rightarrow> (t, ch_org c) \<in> key_set (\<lambda>r. (t_id r, t_org r)) ts)"

definition channels_ok :: "channel_row list \<Rightarrow> team_row list \<Rightarrow> organization_row list \<Rightarrow> bool" where
  "channels_ok cs ts os \<longleftrightarrow> uniq ch_id cs
     \<and> uniq (\<lambda>c. (ch_team c, ascii_lower (ch_name c))) (filter (\<lambda>c. ch_scope c = ''team'') cs)
     \<and> uniq (\<lambda>c. (ch_org c, ascii_lower (ch_name c))) (filter (\<lambda>c. ch_scope c = ''organization'') cs)
     \<and> (\<forall>c \<in> set cs. channel_row_ok ts os c)"

definition channel_members_ok ::
    "channel_member_row list \<Rightarrow> channel_row list \<Rightarrow> actor_row list \<Rightarrow> bool" where
  "channel_members_ok cms cs as \<longleftrightarrow> uniq (\<lambda>m. (cm_channel m, cm_actor m)) cms
     \<and> (\<forall>m \<in> set cms. cm_scope m = ''team'' \<and> cm_actor m \<in> key_set a_id as
          \<and> (cm_channel m, cm_scope m, cm_org m) \<in> key_set (\<lambda>c. (ch_id c, ch_scope c, ch_org c)) cs)"

definition messages_ok :: "message_row list \<Rightarrow> channel_row list \<Rightarrow> actor_row list \<Rightarrow> bool" where
  "messages_ok ms cs as \<longleftrightarrow> uniq m_id ms \<and> uniq (\<lambda>m. (m_channel m, m_seq m)) ms
     \<and> (\<forall>m \<in> set ms. 1 \<le> m_seq m \<and> 1 \<le> length (m_body m) \<and> length (m_body m) \<le> 4000
          \<and> (m_channel m, m_org m) \<in> key_set (\<lambda>c. (ch_id c, ch_org c)) cs
          \<and> m_sender m \<in> key_set a_id as)"

definition audit_target_types :: "string list" where
  "audit_target_types = [''organization'', ''team'', ''actor'', ''channel'']"

definition audit_ok :: "audit_row list \<Rightarrow> organization_row list \<Rightarrow> actor_row list \<Rightarrow> bool" where
  "audit_ok es os as \<longleftrightarrow> uniq ae_id es
     \<and> (\<forall>e \<in> set es. ae_org e \<in> key_set o_id os \<and> ae_actor e \<in> key_set a_id as
          \<and> action_ok (ae_action e) \<and> ae_target_type e \<in> set audit_target_types)"

definition schema_ok :: "db \<Rightarrow> bool" where
  "schema_ok d \<longleftrightarrow> actors_ok (actors d) \<and> users_ok (users d) (actors d)
     \<and> organizations_ok (organizations d)
     \<and> members_ok (organization_members d) (organizations d) (actors d)
     \<and> teams_ok (teams d) (organizations d)
     \<and> team_members_ok (team_members d) (teams d) (organization_members d)
     \<and> invites_ok (invites d) (teams d) (organizations d) (actors d)
     \<and> sessions_ok (sessions d) (users d)
     \<and> channels_ok (channels d) (teams d) (organizations d)
     \<and> channel_members_ok (channel_members d) (channels d) (actors d)
     \<and> messages_ok (messages d) (channels d) (actors d)
     \<and> audit_ok (audit_events d) (organizations d) (actors d)"

lemma uniq_Nil [simp]: "uniq key []"
  by (simp add: uniq_def)

lemma key_set_Nil [simp]: "key_set key [] = {}"
  by (simp add: key_set_def)

lemma key_set_append [simp]: "key_set key (xs @ ys) = key_set key xs \<union> key_set key ys"
  by (auto simp: key_set_def)

lemma key_set_single [simp]: "key_set key [r] = {key r}"
  by (simp add: key_set_def)

lemma key_set_member [intro]: "r \<in> set rows \<Longrightarrow> key r \<in> key_set key rows"
  by (simp add: key_set_def)

lemma key_set_filter_subset: "key_set key (filter p rows) \<subseteq> key_set key rows"
  by (auto simp: key_set_def)

lemma key_set_update_where:
  "(\<And>r. key (f r) = key r) \<Longrightarrow> key_set key (update_where p f rows) = key_set key rows"
  by (simp add: key_set_def update_where_image_key)

lemma uniq_snoc: "uniq key (rows @ [r]) \<longleftrightarrow> uniq key rows \<and> key r \<notin> key_set key rows"
  by (auto simp: uniq_def key_set_def)

lemma uniq_filter: "uniq key rows \<Longrightarrow> uniq key (filter p rows)"
  by (simp add: uniq_def distinct_map_filter_key)

lemma uniq_update_where:
  "(\<And>r. key (f r) = key r) \<Longrightarrow> uniq key (update_where p f rows) \<longleftrightarrow> uniq key rows"
  by (simp add: uniq_def update_where_map_key)

lemma key_set_filter_split:
  "k \<in> key_set key rows \<Longrightarrow> k \<notin> key_set key (filter p rows) \<Longrightarrow> k \<in> key_set key (filter (\<lambda>r. \<not> p r) rows)"
  by (auto simp: key_set_def)

lemma uniq_filter_update_where:
  "(\<And>r. key (f r) = key r) \<Longrightarrow> (\<And>r. q (f r) = q r) \<Longrightarrow> uniq key (filter q (update_where p f rows)) = uniq key (filter q rows)"
proof -
  assume a: "\<And>r. key (f r) = key r" "\<And>r. q (f r) = q r"
  have "map key (filter q (update_where p f rows)) = map key (filter q rows)"
    by (induction rows) (auto simp: a)
  then show ?thesis by (simp add: uniq_def)
qed

lemma schema_ok_empty: "schema_ok empty_db"
  by (simp add: schema_ok_def empty_db_def actors_ok_def users_ok_def organizations_ok_def
      members_ok_def teams_ok_def team_members_ok_def invites_ok_def sessions_ok_def channels_ok_def
      channel_members_ok_def messages_ok_def audit_ok_def)

text \<open>Adding rows to a referenced table keeps the tables that reference it in order.\<close>

lemma users_ok_mono:
  "users_ok us as \<Longrightarrow> key_set (\<lambda>a. (a_id a, a_type a)) as \<subseteq> key_set (\<lambda>a. (a_id a, a_type a)) as'
    \<Longrightarrow> users_ok us as'"
  unfolding users_ok_def by blast

lemma members_ok_mono:
  "members_ok ms os as \<Longrightarrow> key_set o_id os \<subseteq> key_set o_id os' \<Longrightarrow> key_set a_id as \<subseteq> key_set a_id as'
    \<Longrightarrow> members_ok ms os' as'"
  unfolding members_ok_def by blast

lemma teams_ok_mono:
  "teams_ok ts os \<Longrightarrow> key_set o_id os \<subseteq> key_set o_id os' \<Longrightarrow> teams_ok ts os'"
  unfolding teams_ok_def by blast

lemma team_members_ok_mono:
  "team_members_ok tms ts ms
    \<Longrightarrow> key_set (\<lambda>t. (t_id t, t_org t)) ts \<subseteq> key_set (\<lambda>t. (t_id t, t_org t)) ts'
    \<Longrightarrow> key_set (\<lambda>x. (om_org x, om_actor x)) ms \<subseteq> key_set (\<lambda>x. (om_org x, om_actor x)) ms'
    \<Longrightarrow> team_members_ok tms ts' ms'"
  unfolding team_members_ok_def by blast

lemma invite_row_ok_mono:
  "invite_row_ok ts os as i
    \<Longrightarrow> key_set (\<lambda>t. (t_id t, t_org t)) ts \<subseteq> key_set (\<lambda>t. (t_id t, t_org t)) ts'
    \<Longrightarrow> key_set o_id os \<subseteq> key_set o_id os' \<Longrightarrow> key_set a_id as \<subseteq> key_set a_id as'
    \<Longrightarrow> invite_row_ok ts' os' as' i"
  unfolding invite_row_ok_def by (cases "i_target_team i") auto

lemma invites_ok_mono:
  "invites_ok is ts os as
    \<Longrightarrow> key_set (\<lambda>t. (t_id t, t_org t)) ts \<subseteq> key_set (\<lambda>t. (t_id t, t_org t)) ts'
    \<Longrightarrow> key_set o_id os \<subseteq> key_set o_id os' \<Longrightarrow> key_set a_id as \<subseteq> key_set a_id as'
    \<Longrightarrow> invites_ok is ts' os' as'"
  unfolding invites_ok_def using invite_row_ok_mono by blast

lemma sessions_ok_mono:
  "sessions_ok ss us \<Longrightarrow> key_set u_actor_id us \<subseteq> key_set u_actor_id us' \<Longrightarrow> sessions_ok ss us'"
  unfolding sessions_ok_def by blast

lemma channel_row_ok_mono:
  "channel_row_ok ts os c
    \<Longrightarrow> key_set (\<lambda>t. (t_id t, t_org t)) ts \<subseteq> key_set (\<lambda>t. (t_id t, t_org t)) ts'
    \<Longrightarrow> key_set o_id os \<subseteq> key_set o_id os' \<Longrightarrow> channel_row_ok ts' os' c"
  unfolding channel_row_ok_def by (cases "ch_team c") auto

lemma channels_ok_mono:
  "channels_ok cs ts os
    \<Longrightarrow> key_set (\<lambda>t. (t_id t, t_org t)) ts \<subseteq> key_set (\<lambda>t. (t_id t, t_org t)) ts'
    \<Longrightarrow> key_set o_id os \<subseteq> key_set o_id os' \<Longrightarrow> channels_ok cs ts' os'"
  unfolding channels_ok_def using channel_row_ok_mono by blast

lemma channel_members_ok_mono:
  "channel_members_ok cms cs as
    \<Longrightarrow> key_set (\<lambda>c. (ch_id c, ch_scope c, ch_org c)) cs
          \<subseteq> key_set (\<lambda>c. (ch_id c, ch_scope c, ch_org c)) cs'
    \<Longrightarrow> key_set a_id as \<subseteq> key_set a_id as' \<Longrightarrow> channel_members_ok cms cs' as'"
  unfolding channel_members_ok_def by blast

lemma messages_ok_mono:
  "messages_ok ms cs as
    \<Longrightarrow> key_set (\<lambda>c. (ch_id c, ch_org c)) cs \<subseteq> key_set (\<lambda>c. (ch_id c, ch_org c)) cs'
    \<Longrightarrow> key_set a_id as \<subseteq> key_set a_id as' \<Longrightarrow> messages_ok ms cs' as'"
  unfolding messages_ok_def by blast

lemma audit_ok_mono:
  "audit_ok es os as \<Longrightarrow> key_set o_id os \<subseteq> key_set o_id os' \<Longrightarrow> key_set a_id as \<subseteq> key_set a_id as'
    \<Longrightarrow> audit_ok es os' as'"
  unfolding audit_ok_def by blast

lemmas schema_monos = users_ok_mono members_ok_mono teams_ok_mono team_members_ok_mono
  invites_ok_mono sessions_ok_mono channels_ok_mono channel_members_ok_mono messages_ok_mono
  audit_ok_mono

lemma role_str_in: "role_str r \<in> set member_role_check"
  using role.all_complete by simp

lemma status_str_in: "status_str r \<in> set member_status_check"
  using status.all_complete by simp

lemma team_role_str_in: "team_role_str r \<in> set team_role_check"
  using team_role.all_complete by simp

end
