(* ===== verification/RowSecurity.thy ===== *)
theory RowSecurity
  imports Schema
begin

text \<open>
  Row level security (\<open>migrations/202609170004\<close>, \<open>...0005\<close> and \<open>202609180001\<close>): which rows the role
  \<open>fukulow_app\<close> may read, write or add, given the four settings of the transaction. A policy is evaluated
  against the database as it stands before the statement; \<open>nullif(current_setting(...), '')\<close> is an option.
  Permissive policies for the same command are joined by disjunction.
\<close>

section \<open>The transaction's settings\<close>

record session =
  actor_setting :: "actor_id option"
  session_token_setting :: "string option"
  sign_in_email_setting :: "ustring option"
  invite_token_setting :: "string option"
  xid :: nat
  tx_now :: instant

definition fresh_session :: "nat \<Rightarrow> instant \<Rightarrow> session" where
  "fresh_session x t = \<lparr>actor_setting = None, session_token_setting = None,
     sign_in_email_setting = None, invite_token_setting = None, xid = x, tx_now = t\<rparr>"

section \<open>The two security-definer functions\<close>

definition active_organizations :: "session \<Rightarrow> db \<Rightarrow> organization_id list" where
  "active_organizations s d =
     map om_org (filter (\<lambda>m. actor_setting s = Some (om_actor m) \<and> om_status m = ''active'')
       (organization_members d))"

definition organization_has_members :: "db \<Rightarrow> organization_id \<Rightarrow> bool" where
  "organization_has_members d org \<longleftrightarrow> list_ex (\<lambda>m. om_org m = org) (organization_members d)"

definition is_self :: "session \<Rightarrow> actor_id \<Rightarrow> bool" where
  "is_self s a \<longleftrightarrow> actor_setting s = Some a"

definition in_active :: "session \<Rightarrow> db \<Rightarrow> organization_id \<Rightarrow> bool" where
  "in_active s d org \<longleftrightarrow> org \<in> set (active_organizations s d)"

section \<open>Visibility\<close>

definition sees_organization :: "session \<Rightarrow> db \<Rightarrow> organization_row \<Rightarrow> bool" where
  "sees_organization s d r \<longleftrightarrow> in_active s d (o_id r)"

definition sees_member :: "session \<Rightarrow> db \<Rightarrow> member_row \<Rightarrow> bool" where
  "sees_member s d m \<longleftrightarrow> in_active s d (om_org m) \<or> is_self s (om_actor m)"

definition sees_team :: "session \<Rightarrow> db \<Rightarrow> team_row \<Rightarrow> bool" where
  "sees_team s d t \<longleftrightarrow> in_active s d (t_org t)"

definition sees_channel :: "session \<Rightarrow> db \<Rightarrow> channel_row \<Rightarrow> bool" where
  "sees_channel s d c \<longleftrightarrow> in_active s d (ch_org c)"

definition sees_message :: "session \<Rightarrow> db \<Rightarrow> message_row \<Rightarrow> bool" where
  "sees_message s d m \<longleftrightarrow> in_active s d (m_org m)"

definition sees_team_member :: "session \<Rightarrow> db \<Rightarrow> team_member_row \<Rightarrow> bool" where
  "sees_team_member s d m \<longleftrightarrow> in_active s d (tm_org m) \<or> is_self s (tm_actor m)"

definition sees_invite :: "session \<Rightarrow> db \<Rightarrow> invite_row \<Rightarrow> bool" where
  "sees_invite s d i \<longleftrightarrow> in_active s d (i_org i) \<or> invite_token_setting s = Some (i_token_hash i)"

definition sees_channel_member :: "session \<Rightarrow> db \<Rightarrow> channel_member_row \<Rightarrow> bool" where
  "sees_channel_member s d m \<longleftrightarrow>
     cm_channel m \<in> ch_id ` set (filter (sees_channel s d) (channels d)) \<or> is_self s (cm_actor m)"

definition sees_actor :: "session \<Rightarrow> db \<Rightarrow> actor_row \<Rightarrow> bool" where
  "sees_actor s d a \<longleftrightarrow> is_self s (a_id a)
     \<or> a_id a \<in> om_actor ` set (filter (sees_member s d) (organization_members d))"

definition sees_user :: "session \<Rightarrow> db \<Rightarrow> user_row \<Rightarrow> bool" where
  "sees_user s d u \<longleftrightarrow> is_self s (u_actor_id u)
     \<or> (case sign_in_email_setting s of None \<Rightarrow> False
        | Some e \<Rightarrow> ascii_lower (u_email u) = ascii_lower e)"

definition sees_session :: "session \<Rightarrow> db \<Rightarrow> session_row \<Rightarrow> bool" where
  "sees_session s d r \<longleftrightarrow> is_self s (s_actor r) \<or> session_token_setting s = Some (s_token_hash r)"

section \<open>What may be added or rewritten\<close>

definition may_insert_organization :: "session \<Rightarrow> bool" where
  "may_insert_organization s \<longleftrightarrow> actor_setting s \<noteq> None"

text \<open>
  \<open>organization_members_insert\<close> and \<open>organization_members_insert_invite\<close>: an active member adds to its
  organization, the creator becomes the first owner, or an invite used in this very transaction admits the
  acting actor.
\<close>

definition invite_admits :: "session \<Rightarrow> db \<Rightarrow> organization_id \<Rightarrow> bool" where
  "invite_admits s d org \<longleftrightarrow>
     list_ex (\<lambda>i. sees_invite s d i \<and> i_org i = org \<and> invite_token_setting s = Some (i_token_hash i)
       \<and> i_kind i = ''organization'' \<and> i_revoked_at i = None \<and> i_expires_at i > tx_now s
       \<and> i_used_count i > 0 \<and> i_xmin i = xid s) (invites d)"

definition may_insert_member :: "session \<Rightarrow> db \<Rightarrow> member_row \<Rightarrow> bool" where
  "may_insert_member s d m \<longleftrightarrow>
     in_active s d (om_org m)
     \<or> (is_self s (om_actor m) \<and> om_role m = ''owner'' \<and> om_status m = ''active''
        \<and> \<not> organization_has_members d (om_org m))
     \<or> (is_self s (om_actor m) \<and> om_role m = ''member'' \<and> om_status m = ''active''
        \<and> invite_admits s d (om_org m))"

definition may_write_member :: "session \<Rightarrow> db \<Rightarrow> member_row \<Rightarrow> bool" where
  "may_write_member s d m \<longleftrightarrow>
     in_active s d (om_org m)
     \<or> (is_self s (om_actor m) \<and> om_status m = ''left'' \<and> om_display_name m = None)"

text \<open>The trigger \<open>organization_members_guard_inactive_role\<close> refuses this change.\<close>

definition guard_inactive_role :: "session \<Rightarrow> member_row \<Rightarrow> member_row \<Rightarrow> bool" where
  "guard_inactive_role s old new \<longleftrightarrow>
     om_status old \<noteq> ''active'' \<and> is_self s (om_actor old) \<and> om_role new \<noteq> om_role old"

definition may_insert_channel_member :: "session \<Rightarrow> db \<Rightarrow> channel_member_row \<Rightarrow> bool" where
  "may_insert_channel_member s d m \<longleftrightarrow>
     cm_channel m \<in> ch_id ` set (filter (sees_channel s d) (channels d))"

definition meta_text :: "(string \<times> meta) list \<Rightarrow> string \<Rightarrow> meta option" where
  "meta_text md k = map_of md k"

text \<open>\<open>audit_events_insert\<close>, as migration 202609170005 leaves it.\<close>

definition may_insert_audit :: "session \<Rightarrow> db \<Rightarrow> audit_row \<Rightarrow> bool" where
  "may_insert_audit s d e \<longleftrightarrow>
     in_active s d (ae_org e)
     \<or> (is_self s (ae_actor e) \<and> ae_target_type e = ''actor'' \<and> is_self s (ae_target_id e)
        \<and> (ae_action e = ''organization.member.left''
           \<or> ((ae_action e = ''team.member.removed'' \<or> ae_action e = ''channel.member.removed'')
              \<and> meta_text (ae_metadata e) ''reason'' = Some (MStr ''left_service'')))
        \<and> list_ex (\<lambda>m. sees_member s d m \<and> om_org m = ae_org e \<and> is_self s (om_actor m))
            (organization_members d))
     \<or> (is_self s (ae_actor e) \<and> ae_target_type e = ''actor'' \<and> is_self s (ae_target_id e)
        \<and> ae_action e = ''channel.member.removed''
        \<and> meta_text (ae_metadata e) ''reason'' = Some (MStr ''left_service'')
        \<and> list_ex (\<lambda>c. sees_channel_member s d c \<and> is_self s (cm_actor c) \<and> cm_org c = ae_org e
            \<and> meta_text (ae_metadata e) ''channel_id'' = Some (MId (cm_channel c)))
            (channel_members d))"

text \<open>
  The trigger \<open>invites_guard_use\<close> on UPDATE: a use adds exactly one and changes nothing else, any other
  change is the first revocation.
\<close>

definition guard_invite_use :: "session \<Rightarrow> invite_row \<Rightarrow> invite_row \<Rightarrow> bool" where
  "guard_invite_use s old new \<longleftrightarrow>
     (if i_used_count new \<noteq> i_used_count old
      then i_used_count new \<noteq> i_used_count old + 1 \<or> i_used_count old \<ge> i_max_uses old
        \<or> i_revoked_at old \<noteq> None \<or> i_expires_at old \<le> tx_now s
        \<or> i_revoked_at new \<noteq> i_revoked_at old
      else i_revoked_at old \<noteq> None \<or> i_revoked_at new = None)"

lemma in_active_iff:
  "in_active s d org \<longleftrightarrow> (\<exists>m \<in> set (organization_members d).
     actor_setting s = Some (om_actor m) \<and> om_org m = org \<and> om_status m = ''active'')"
  by (auto simp: in_active_def active_organizations_def)

lemma in_active_cong:
  "organization_members d' = organization_members d \<Longrightarrow> in_active s d' org = in_active s d org"
  by (simp add: in_active_iff)

lemma no_identity_in_active [simp]: "actor_setting s = None \<Longrightarrow> \<not> in_active s d org"
  by (simp add: in_active_iff)

lemma no_identity_is_self [simp]: "actor_setting s = None \<Longrightarrow> \<not> is_self s a"
  by (simp add: is_self_def)

end
