(* ===== verification/Tokens.thy ===== *)
theory Tokens
  imports Prelude
begin

unbundle bit_operations_syntax

text \<open>
  Token hashes (\<open>crates/db/src/context.rs\<close>, lines 4 to 44) and the credentials of \<open>crates/auth/src/lib.rs\<close>:
  hexadecimal encoding, token generation and password verification. SHA-256, argon2 and the random
  number generator are parameters of the definitions that use them.
\<close>

section \<open>Hexadecimal\<close>

definition hex_digits :: string where
  "hex_digits = ''0123456789abcdef''"

definition hex_byte :: "byte \<Rightarrow> string" where
  "hex_byte b = [hex_digits ! unat (drop_bit 4 b), hex_digits ! unat (b AND 15)]"

text \<open>\<open>hex\<close> of \<open>auth\<close> and the encoder inside \<open>TokenHash::from_bytes\<close> are the same loop, written twice.\<close>

definition hex :: "byte list \<Rightarrow> string" where
  "hex bytes = concat (map hex_byte bytes)"

datatype token_hash = TokenHash (hash_str: string)

datatype invalid_token_hash = InvalidTokenHash

definition from_bytes :: "byte list \<Rightarrow> token_hash" where
  "from_bytes bytes =
     TokenHash (concat (map (\<lambda>b. [hex_digits ! unat (drop_bit 4 b), hex_digits ! unat (b AND 15)]) bytes))"

definition is_lower_hex :: "char \<Rightarrow> bool" where
  "is_lower_hex c \<longleftrightarrow>
     (let n = of_char c :: nat in (48 \<le> n \<and> n \<le> 57) \<or> (97 \<le> n \<and> n \<le> 102))"

definition from_hex :: "string \<Rightarrow> invalid_token_hash + token_hash" where
  "from_hex value =
     (if length value = 64 \<and> list_all is_lower_hex value
      then Inr (TokenHash value) else Inl InvalidTokenHash)"

text \<open>The decoder is the abstract inverse the encoder is measured against.\<close>

definition nibble_of :: "char \<Rightarrow> byte option" where
  "nibble_of c =
     (let n = of_char c :: nat
      in if 48 \<le> n \<and> n \<le> 57 then Some (of_nat (n - 48))
         else if 97 \<le> n \<and> n \<le> 102 then Some (of_nat (n - 87)) else None)"

fun unhex :: "string \<Rightarrow> byte list option" where
  "unhex [] = Some []"
| "unhex [_] = None"
| "unhex (h # l # cs) =
     (case (nibble_of h, nibble_of l, unhex cs) of
        (Some x, Some y, Some bs) \<Rightarrow> Some ((push_bit 4 x OR y) # bs)
      | _ \<Rightarrow> None)"

lemma and_15: "(b::byte) AND 15 = take_bit 4 b"
  by (simp add: take_bit_eq_mask mask_eq_exp_minus_1)

lemma nibbles_recombine: "push_bit 4 (drop_bit 4 b) OR (b AND 15) = (b::byte)"
  unfolding and_15 by (rule bit_eqI) (auto simp: bit_simps)

text \<open>Both table lookups of the encoder are in range, so the indexing never panics.\<close>

lemma high_nibble_bound: "unat (drop_bit 4 (b::byte)) < 16"
proof -
  have "drop_bit 4 (unat b) < (16::nat)"
    using unsigned_less [of b, where 'a = nat] by (simp add: drop_bit_eq_div)
  then show ?thesis by (simp only: unat_drop_bit_eq)
qed

lemma low_nibble_bound: "unat ((b::byte) AND 15) < 16"
proof -
  have "take_bit 4 (unat b) < (16::nat)"
    using take_bit_nat_less_exp [of 4 "unat b"] by simp
  then show ?thesis by (simp only: and_15 unsigned_take_bit_eq)
qed

lemma nibble_digit:
  assumes "n < 16"
  shows "nibble_of (hex_digits ! n) = Some (word_of_nat n)" and "is_lower_hex (hex_digits ! n)"
proof -
  have "n \<in> set [0..<16]" using assms by simp
  moreover have "list_all (\<lambda>n. nibble_of (hex_digits ! n) = Some (word_of_nat n)
      \<and> is_lower_hex (hex_digits ! n)) [0..<16]"
    by code_simp
  ultimately show "nibble_of (hex_digits ! n) = Some (word_of_nat n)"
    and "is_lower_hex (hex_digits ! n)"
    by (auto simp only: list_all_iff)
qed

lemma hex_Nil [simp]: "hex [] = []"
  by (simp add: hex_def)

lemma hex_Cons: "hex (b # bs) = hex_byte b @ hex bs"
  by (simp add: hex_def)

lemma from_bytes_hex: "from_bytes bs = TokenHash (hex bs)"
  by (simp add: from_bytes_def hex_def hex_byte_def [abs_def])

lemma length_hex: "length (hex bs) = 2 * length bs"
  by (induction bs) (simp_all add: hex_Cons hex_byte_def)

lemma hex_lower: "list_all is_lower_hex (hex bs)"
  by (induction bs)
    (simp_all add: hex_Cons hex_byte_def nibble_digit high_nibble_bound low_nibble_bound)

lemma unhex_hex: "unhex (hex bs) = Some bs"
proof (induction bs)
  case (Cons b bs)
  then show ?case
    by (simp add: hex_Cons hex_byte_def nibble_digit high_nibble_bound low_nibble_bound
        nibbles_recombine)
qed simp

lemma hex_inject: "hex xs = hex ys \<longleftrightarrow> xs = ys"
  using unhex_hex by (metis option.inject)

section \<open>Tokens and their hashes\<close>

text \<open>
  \<open>fill\<close> stands for \<open>getrandom::fill\<close>: it is given the zeroed buffer and returns the filled one or fails.
  \<open>sha256\<close> is the digest of the crate \<open>sha2\<close>, over the UTF-8 bytes of the token.
\<close>

datatype token_error = TokenError

definition random_token :: "(byte list \<Rightarrow> 'r + byte list) \<Rightarrow> token_error + string" where
  "random_token fill =
     (case fill (replicate 32 0) of Inl _ \<Rightarrow> Inl TokenError | Inr bytes \<Rightarrow> Inr (hex bytes))"

definition hash_token :: "(byte list \<Rightarrow> byte list) \<Rightarrow> ustring \<Rightarrow> token_hash" where
  "hash_token sha256 token = from_bytes (sha256 (utf8_bytes token))"

definition hash_session_token :: "(byte list \<Rightarrow> byte list) \<Rightarrow> ustring \<Rightarrow> token_hash" where
  "hash_session_token sha256 token = hash_token sha256 token"

definition hash_invite_token :: "(byte list \<Rightarrow> byte list) \<Rightarrow> ustring \<Rightarrow> token_hash" where
  "hash_invite_token sha256 token = hash_token sha256 token"

datatype session_token = SessionToken (session_token_str: string)
datatype invite_token = InviteToken (invite_token_str: string)

definition new_session_token ::
    "(byte list \<Rightarrow> byte list) \<Rightarrow> (byte list \<Rightarrow> 'r + byte list)
       \<Rightarrow> token_error + (session_token \<times> token_hash)" where
  "new_session_token sha256 fill =
     (case random_token fill of
        Inl e \<Rightarrow> Inl e
      | Inr token \<Rightarrow>
          (let hash = hash_session_token sha256 (lit token) in Inr (SessionToken token, hash)))"

definition new_invite_token ::
    "(byte list \<Rightarrow> byte list) \<Rightarrow> (byte list \<Rightarrow> 'r + byte list)
       \<Rightarrow> token_error + (invite_token \<times> token_hash)" where
  "new_invite_token sha256 fill =
     (case random_token fill of
        Inl e \<Rightarrow> Inl e
      | Inr token \<Rightarrow>
          (let hash = hash_invite_token sha256 (lit token) in Inr (InviteToken token, hash)))"

section \<open>Password hashing and verification\<close>

text \<open>
  \<open>new_hash\<close> is \<open>PasswordHash::new\<close>, \<open>has_salt\<close> and \<open>has_output\<close> read its two optional fields, and
  \<open>verify\<close> is argon2's verifier. \<open>verify_with\<close> returns, beside the answer, the hashes it handed to the
  verifier in order: what an attempt costs is part of what the function promises.
\<close>

datatype password_hash_error = PasswordHashError

definition hash_password_with_rng ::
    "('w \<Rightarrow> byte list \<Rightarrow> 'h option) \<Rightarrow> ('h \<Rightarrow> string) \<Rightarrow> 'w
       \<Rightarrow> (byte list \<Rightarrow> 'r + byte list) \<Rightarrow> password_hash_error + string" where
  "hash_password_with_rng argon2 to_string password fill =
     (case fill (replicate 16 0) of
        Inl _ \<Rightarrow> Inl PasswordHashError
      | Inr salt \<Rightarrow>
          (case argon2 password salt of
             None \<Rightarrow> Inl PasswordHashError
           | Some h \<Rightarrow> Inr (to_string h)))"

datatype verify_outcome = Verified | PasswordInvalid | OtherVerifyError

record 'p phc_api =
  new_hash :: "string \<Rightarrow> 'p option"
  has_salt :: "'p \<Rightarrow> bool"
  has_output :: "'p \<Rightarrow> bool"

definition dummy_password_hash :: string where
  "dummy_password_hash = ''$argon2id$v=19$m=19456,t=2,p=1$ZnVrdWxvdy1kdW1teS1zYWx0$OA3QfvZgfeDS0Ga5mZRi0S3nzxuaKJZEOshVa7Yv68s''"

definition verify_dummy :: "'p phc_api \<Rightarrow> 'p list" where
  "verify_dummy api =
     (case new_hash api dummy_password_hash of Some dummy \<Rightarrow> [dummy] | None \<Rightarrow> [])"

definition verify_with ::
    "'p phc_api \<Rightarrow> 'w \<Rightarrow> string \<Rightarrow> ('w \<Rightarrow> 'p \<Rightarrow> verify_outcome) \<Rightarrow> bool \<times> 'p list" where
  "verify_with api password phc verify =
     (case new_hash api phc of
        None \<Rightarrow> (False, verify_dummy api)
      | Some h \<Rightarrow>
          if has_salt api h \<and> has_output api h
          then (case verify password h of
                  Verified \<Rightarrow> (True, [h])
                | PasswordInvalid \<Rightarrow> (False, [h])
                | OtherVerifyError \<Rightarrow> (False, h # verify_dummy api))
          else (False, verify_dummy api))"

lemma verify_with_True_iff:
  "fst (verify_with api password phc verify) \<longleftrightarrow>
     (\<exists>h. new_hash api phc = Some h \<and> has_salt api h \<and> has_output api h
        \<and> verify password h = Verified)"
  by (auto simp: verify_with_def split: option.splits verify_outcome.splits if_splits)

section \<open>What the encoders promise\<close>

lemma nibble_of_digit: "nibble_of c = Some x \<Longrightarrow> unat x < 16 \<and> hex_digits ! unat x = c"
proof -
  assume a: "nibble_of c = Some x"
  obtain n :: nat where n: "n = of_char c" by simp
  from a consider "48 \<le> n" "n \<le> 57" "x = of_nat (n - 48)" | "97 \<le> n" "n \<le> 102" "x = of_nat (n - 87)"
    by (auto simp: nibble_of_def Let_def n split: if_splits)
  then have "unat x < 16 \<and> of_char (hex_digits ! unat x) = n"
  proof cases
    case 1
    then have "n \<in> set [48..<58]" by (subst set_upt) simp
    moreover have "list_all (\<lambda>n. unat (of_nat (n - 48) :: byte) < 16
        \<and> of_char (hex_digits ! unat (of_nat (n - 48) :: byte)) = n) [48..<58]" by code_simp
    ultimately show ?thesis using 1(3) by (auto simp only: list_all_iff)
  next
    case 2
    then have "n \<in> set [97..<103]" by (subst set_upt) simp
    moreover have "list_all (\<lambda>n. unat (of_nat (n - 87) :: byte) < 16
        \<and> of_char (hex_digits ! unat (of_nat (n - 87) :: byte)) = n) [97..<103]" by code_simp
    ultimately show ?thesis using 2(3) by (auto simp only: list_all_iff)
  qed
  then show ?thesis by (simp add: n of_char_eq_iff)
qed

lemma lower_hex_nibble: "is_lower_hex c \<longleftrightarrow> (\<exists>x. nibble_of c = Some x)"
  by (auto simp: is_lower_hex_def nibble_of_def Let_def)

lemma hex_of_lower: "even (length s) \<Longrightarrow> list_all is_lower_hex s \<Longrightarrow> \<exists>bs. s = hex bs"
proof (induction s rule: unhex.induct)
  case (3 h l cs)
  then obtain x y bs where x: "nibble_of h = Some x" "nibble_of l = Some y" and cs: "cs = hex bs"
    by (auto simp: lower_hex_nibble)
  let ?b = "push_bit 4 x OR y"
  have small: "unat x < 16" "unat y < 16" "hex_digits ! unat x = h" "hex_digits ! unat y = l"
    using x by (simp_all add: nibble_of_digit)
  have "take_bit 4 x = x" "take_bit 4 y = y"
    using small by (simp_all add: word_unat_eq_iff unsigned_take_bit_eq take_bit_nat_eq_self)
  then have bits: "bit x n \<Longrightarrow> n < 4" "bit y n \<Longrightarrow> n < 4" for n
    by (metis bit_take_bit_iff)+
  have hi: "drop_bit 4 ?b = x" by (rule bit_eqI) (auto simp: bit_simps dest: bits)
  have lo: "?b AND 15 = y" unfolding and_15 by (rule bit_eqI) (auto simp: bit_simps dest: bits)
  have "h # l # cs = hex (?b # bs)" unfolding hex_Cons hex_byte_def hi lo using small cs by simp
  then show ?case by blast
qed (auto intro: exI [of _ "[]"])



lemma from_hex_Inr: "from_hex s = Inr h \<longleftrightarrow> (\<exists>bs. length bs = 32 \<and> s = hex bs \<and> h = from_bytes bs)"
proof
  assume "from_hex s = Inr h"
  then have s: "length s = 64" "list_all is_lower_hex s" "h = TokenHash s" by (auto simp: from_hex_def split: if_splits)
  then obtain bs where "s = hex bs" using hex_of_lower [of s] by auto
  with s show "\<exists>bs. length bs = 32 \<and> s = hex bs \<and> h = from_bytes bs" by (auto simp: length_hex from_bytes_hex)
qed (auto simp: from_hex_def length_hex hex_lower from_bytes_hex)

text \<open>C38: A token hash is the lower-case hexadecimal text of its digest and nothing else: decoding it gives
  the digest back, different digests have different hashes, and the parser accepts exactly the texts of
  32-byte digests, each as the hash of that digest.\<close>

theorem token_hashes_round_trip:
  "unhex (hash_str (from_bytes bs)) = Some bs
   \<and> (from_bytes bs = from_bytes bs' \<longleftrightarrow> bs = bs')
   \<and> (from_hex s = Inr h \<longleftrightarrow> (\<exists>ds. length ds = 32 \<and> s = hash_str h \<and> h = from_bytes ds))"
  by (auto simp: from_bytes_hex unhex_hex hex_inject from_hex_Inr)

text \<open>When the random source fills its 32 bytes with \<open>bytes\<close>, the session token and the invite token are
  64 lower-case hexadecimal digits from which the bytes can be read back, so no two fillings share a token, and
  each comes with the hash under which presenting it later is looked up; when the source fails there is no token.\<close>

theorem tokens_carry_their_randomness:
  assumes "length bytes = 32" "fill (replicate 32 0) = Inr bytes" "fill' (replicate 32 0) = Inl e"
  shows "\<exists>t. new_session_token digest fill = Inr (SessionToken t, hash_session_token digest (lit t))
      \<and> new_invite_token digest fill = Inr (InviteToken t, hash_invite_token digest (lit t))
      \<and> length t = 64 \<and> list_all is_lower_hex t \<and> unhex t = Some bytes
      \<and> new_session_token digest fill' = Inl TokenError \<and> new_invite_token digest fill' = Inl TokenError"
  using assms
  by (auto simp: new_session_token_def new_invite_token_def random_token_def length_hex hex_lower unhex_hex)

theorem tokens_carry_their_randomness_witness:
  "\<exists>t. new_session_token (map (\<lambda>b. b + 1)) (\<lambda>bs. Inr (map (\<lambda>b. b + 7) bs) :: unit + byte list)
     = Inr (SessionToken t, hash_session_token (map (\<lambda>b. b + 1)) (lit t)) \<and> unhex t = Some (replicate 32 7)
     \<and> new_invite_token (map (\<lambda>b. b + 1)) (\<lambda>_. Inl () :: unit + byte list) = Inl TokenError"
  using tokens_carry_their_randomness [where bytes = "replicate 32 7" and digest = "map (\<lambda>b. b + 1)"
      and fill = "\<lambda>bs. Inr (map (\<lambda>b. b + 7) bs) :: unit + byte list"
      and fill' = "\<lambda>_. Inl () :: unit + byte list" and e = "()"]
  by auto

text \<open>C39: When the dummy hash is well formed, checking a password runs the verifier once or twice whatever is
  stored: a stored hash that does not parse, has no salt or no output, or that the verifier cannot use, is
  answered no after verifying the dummy. The answer is yes exactly when the stored hash was verified.\<close>

theorem password_checks_always_verify:
  assumes "new_hash api dummy_password_hash = Some dummy"
  shows "snd (verify_with api password phc verify) \<noteq> [] \<and> length (snd (verify_with api password phc verify)) \<le> 2
    \<and> (fst (verify_with api password phc verify) \<longleftrightarrow> (\<exists>h. new_hash api phc = Some h \<and> has_salt api h
         \<and> has_output api h \<and> verify password h = Verified))
    \<and> (dummy \<in> set (snd (verify_with api password phc verify))
       \<or> (\<exists>h. new_hash api phc = Some h \<and> verify password h \<noteq> OtherVerifyError
            \<and> snd (verify_with api password phc verify) = [h]))"
  using assms
  by (auto simp: verify_with_def verify_dummy_def split: option.split verify_outcome.split)

theorem password_checks_always_verify_witness:
  "snd (verify_with \<lparr>new_hash = (\<lambda>s. if s = dummy_password_hash then Some (0::nat) else None),
      has_salt = (\<lambda>h. True), has_output = (\<lambda>h. True)\<rparr> () ''junk'' (\<lambda>p h. PasswordInvalid)) \<noteq> []"
  using password_checks_always_verify [of "\<lparr>new_hash = (\<lambda>s. if s = dummy_password_hash then Some (0::nat) else None),
      has_salt = (\<lambda>h. True), has_output = (\<lambda>h. True)\<rparr>" 0 "()" "''junk''" "\<lambda>p h. PasswordInvalid"]
  by simp

end
