(* ===== verification/Statements.thy ===== *)
theory Statements
  imports RowSecurity Tokens
begin

text \<open>
  The writing SQL statements of \<open>crates/db/src\<close>, each as a function of the transaction's settings and the
  database. A statement binds its text parameters (U+0000 is refused), filters the rows row security
  lets it touch, runs the row trigger, checks the new row against the policies and then against the
  declared constraints in PostgreSQL's order: CHECK, unique indexes, foreign keys.
\<close>

section \<open>Building blocks\<close>

primrec checked :: "(bool \<times> sqlx_error) list \<Rightarrow> 'a \<Rightarrow> sqlx_error + 'a" where
  "checked [] x = Inr x"
| "checked (g # gs) x = (if fst g then checked gs x else Inl (snd g))"

lemma checked_Inr: "checked gs x = Inr y \<longleftrightarrow> y = x \<and> list_all fst gs"
  by (induction gs) auto

definition rls_update ::
    "('r \<Rightarrow> bool) \<Rightarrow> ('r \<Rightarrow> 'r \<Rightarrow> bool) \<Rightarrow> ('r \<Rightarrow> bool) \<Rightarrow> ('r \<Rightarrow> 'r) \<Rightarrow> 'r list
       \<Rightarrow> sqlx_error + ('r list \<times> 'r list)" where
  "rls_update hit refuses check f rows =
     (let old = filter hit rows
      in if list_ex (\<lambda>r. refuses r (f r)) old then Inl TriggerRefused
         else if list_all check (map f old) then Inr (map f old, update_where hit f rows)
         else Inl RowSecurity)"

lemma rls_update_Inr:
  "rls_update hit refuses check f rows = Inr (news, rows') \<longleftrightarrow>
     (\<forall>r \<in> set rows. hit r \<longrightarrow> \<not> refuses r (f r) \<and> check (f r))
     \<and> news = map f (filter hit rows) \<and> rows' = update_where hit f rows"
  by (auto simp: rls_update_def Let_def list_ex_iff list_all_iff)

definition no_trigger :: "'r \<Rightarrow> 'r \<Rightarrow> bool" where
  "no_trigger old new \<longleftrightarrow> False"

declare checked.simps [simp del]

section \<open>Actors and users\<close>

definition insert_actor :: "session \<Rightarrow> actor_id \<Rightarrow> ustring \<Rightarrow> db \<Rightarrow> sqlx_error + (unit \<times> db)" where
  "insert_actor s i display_name d =
     checked
       [(bindable display_name, InvalidText),
        (i \<notin> key_set a_id (actors d), ConstraintViolation ''actors_pkey'')]
       ((), d\<lparr>actors := actors d @ [\<lparr>a_id = i, a_type = ''human'', a_display_name = Some display_name,
          a_deleted_at = None\<rparr>]\<rparr>)"

definition insert_user ::
    "session \<Rightarrow> actor_id \<Rightarrow> ustring \<Rightarrow> string \<Rightarrow> db \<Rightarrow> sqlx_error + (unit \<times> db)" where
  "insert_user s i email password_hash d =
     checked
       [(bindable email \<and> bindable_str password_hash, InvalidText),
        (is_self s i, RowSecurity),
        (i \<notin> key_set u_actor_id (users d), ConstraintViolation ''users_pkey''),
        (ascii_lower email \<notin> key_set (\<lambda>u. ascii_lower (u_email u)) (users d),
           ConstraintViolation ''users_email_lower_key''),
        ((i, ''human'') \<in> key_set (\<lambda>a. (a_id a, a_type a)) (actors d),
           ConstraintViolation ''users_actor_id_actor_type_fkey'')]
       ((), d\<lparr>users := users d @ [\<lparr>u_actor_id = i, u_actor_type = ''human'', u_email = email,
          u_password_hash = password_hash\<rparr>]\<rparr>)"

text \<open>\<open>DELETE FROM users\<close>; the sessions of the deleted rows go with them (\<open>ON DELETE CASCADE\<close>).\<close>

definition delete_user :: "session \<Rightarrow> actor_id \<Rightarrow> db \<Rightarrow> sqlx_error + (unit \<times> db)" where
  "delete_user s i d =
     (let gone = (\<lambda>u. sees_user s d u \<and> is_self s (u_actor_id u) \<and> u_actor_id u = i)
      in Inr ((), d\<lparr>users := filter (\<lambda>u. \<not> gone u) (users d),
           sessions := filter (\<lambda>r. s_actor r \<notin> key_set u_actor_id (filter gone (users d)))
             (sessions d)\<rparr>))"

definition erase_actor :: "session \<Rightarrow> actor_id \<Rightarrow> db \<Rightarrow> sqlx_error + (unit \<times> db)" where
  "erase_actor s i d =
     (case rls_update (\<lambda>a. sees_actor s d a \<and> a_id a = i) no_trigger (sees_actor s d)
             (\<lambda>a. a\<lparr>a_display_name := None, a_deleted_at := Some (tx_now s)\<rparr>) (actors d) of
        Inl e \<Rightarrow> Inl e
      | Inr (_, rows) \<Rightarrow> Inr ((), d\<lparr>actors := rows\<rparr>))"

section \<open>Organizations and memberships\<close>

definition insert_organization ::
    "session \<Rightarrow> organization_id \<Rightarrow> ustring \<Rightarrow> ustring \<Rightarrow> db \<Rightarrow> sqlx_error + (unit \<times> db)" where
  "insert_organization s i name slug d =
     checked
       [(bindable name \<and> bindable slug, InvalidText),
        (may_insert_organization s, RowSecurity),
        (slug_ok slug, ConstraintViolation ''organizations_slug_format''),
        (i \<notin> key_set o_id (organizations d), ConstraintViolation ''organizations_pkey''),
        (slug \<notin> key_set o_slug (organizations d), ConstraintViolation ''organizations_slug_key'')]
       ((), d\<lparr>organizations := organizations d @ [\<lparr>o_id = i, o_name = name, o_slug = slug\<rparr>]\<rparr>)"

definition insert_member ::
    "session \<Rightarrow> organization_id \<Rightarrow> actor_id \<Rightarrow> string \<Rightarrow> string \<Rightarrow> db \<Rightarrow> sqlx_error + (unit \<times> db)" where
  "insert_member s org actor role status d =
     (let row = \<lparr>om_org = org, om_actor = actor, om_role = role, om_status = status,
        om_display_name = None\<rparr>
      in checked
       [(may_insert_member s d row, RowSecurity),
        (role \<in> set member_role_check, ConstraintViolation ''organization_members_role_check''),
        (status \<in> set member_status_check,
           ConstraintViolation ''organization_members_status_check''),
        ((org, actor) \<notin> key_set (\<lambda>m. (om_org m, om_actor m)) (organization_members d),
           ConstraintViolation ''organization_members_pkey''),
        (org \<in> key_set o_id (organizations d),
           ConstraintViolation ''organization_members_organization_id_fkey''),
        (actor \<in> key_set a_id (actors d), ConstraintViolation ''organization_members_actor_id_fkey'')]
       ((), d\<lparr>organization_members := organization_members d @ [row]\<rparr>))"

text \<open>
  The three UPDATEs of \<open>organization_members\<close> differ in what they set. A row is touched when SELECT and UPDATE
  policies show it and it has the key; the new row must pass both again.
\<close>

definition update_member ::
    "session \<Rightarrow> organization_id \<Rightarrow> actor_id \<Rightarrow> (member_row \<Rightarrow> member_row) \<Rightarrow> db
       \<Rightarrow> sqlx_error + (unit \<times> db)" where
  "update_member s org actor f d =
     (case rls_update (\<lambda>m. sees_member s d m \<and> om_org m = org \<and> om_actor m = actor)
             (guard_inactive_role s) (\<lambda>m. may_write_member s d m \<and> sees_member s d m)
             f (organization_members d) of
        Inl e \<Rightarrow> Inl e
      | Inr (_, rows) \<Rightarrow> Inr ((), d\<lparr>organization_members := rows\<rparr>))"

definition set_member_role ::
    "session \<Rightarrow> organization_id \<Rightarrow> actor_id \<Rightarrow> organization_role \<Rightarrow> db \<Rightarrow> sqlx_error + (unit \<times> db)" where
  "set_member_role s org actor role = update_member s org actor (\<lambda>m. m\<lparr>om_role := role_str role\<rparr>)"

definition set_member_status ::
    "session \<Rightarrow> organization_id \<Rightarrow> actor_id \<Rightarrow> member_status \<Rightarrow> db \<Rightarrow> sqlx_error + (unit \<times> db)" where
  "set_member_status s org actor status =
     update_member s org actor (\<lambda>m. m\<lparr>om_status := status_str status\<rparr>)"

definition set_member_left ::
    "session \<Rightarrow> organization_id \<Rightarrow> actor_id \<Rightarrow> db \<Rightarrow> sqlx_error + (unit \<times> db)" where
  "set_member_left s org actor =
     update_member s org actor (\<lambda>m. m\<lparr>om_status := ''left'', om_display_name := None\<rparr>)"

section \<open>Teams\<close>

definition insert_team ::
    "session \<Rightarrow> team_id \<Rightarrow> organization_id \<Rightarrow> ustring \<Rightarrow> db \<Rightarrow> sqlx_error + (unit \<times> db)" where
  "insert_team s i org name d =
     checked
       [(bindable name, InvalidText),
        (in_active s d org, RowSecurity),
        (i \<notin> key_set t_id (teams d), ConstraintViolation ''teams_pkey''),
        (org \<in> key_set o_id (organizations d), ConstraintViolation ''teams_organization_id_fkey'')]
       ((), d\<lparr>teams := teams d @ [\<lparr>t_id = i, t_org = org, t_name = name\<rparr>]\<rparr>)"

definition insert_team_member ::
    "session \<Rightarrow> team_id \<Rightarrow> actor_id \<Rightarrow> organization_id \<Rightarrow> team_role \<Rightarrow> db \<Rightarrow> sqlx_error + (unit \<times> db)" where
  "insert_team_member s team actor org role d =
     checked
       [(in_active s d org, RowSecurity),
        ((team, actor) \<notin> key_set (\<lambda>m. (tm_team m, tm_actor m)) (team_members d),
           ConstraintViolation ''team_members_pkey''),
        ((team, org) \<in> key_set (\<lambda>t. (t_id t, t_org t)) (teams d),
           ConstraintViolation ''team_members_team_id_organization_id_fkey''),
        ((org, actor) \<in> key_set (\<lambda>m. (om_org m, om_actor m)) (organization_members d),
           ConstraintViolation ''team_members_organization_id_actor_id_fkey'')]
       ((), d\<lparr>team_members := team_members d @ [\<lparr>tm_team = team, tm_actor = actor, tm_org = org,
          tm_role = team_role_str role\<rparr>]\<rparr>)"

definition set_team_member_role ::
    "session \<Rightarrow> organization_id \<Rightarrow> team_id \<Rightarrow> actor_id \<Rightarrow> team_role \<Rightarrow> db \<Rightarrow> sqlx_error + (unit \<times> db)" where
  "set_team_member_role s org team actor role d =
     (case rls_update (\<lambda>m. sees_team_member s d m \<and> in_active s d (tm_org m)
              \<and> tm_org m = org \<and> tm_team m = team \<and> tm_actor m = actor)
             no_trigger (\<lambda>m. in_active s d (tm_org m) \<and> sees_team_member s d m)
             (\<lambda>m. m\<lparr>tm_role := team_role_str role\<rparr>) (team_members d) of
        Inl e \<Rightarrow> Inl e
      | Inr (_, rows) \<Rightarrow> Inr ((), d\<lparr>team_members := rows\<rparr>))"

text \<open>\<open>rows_affected()\<close> is the number of deleted rows.\<close>

definition delete_team_member ::
    "session \<Rightarrow> organization_id \<Rightarrow> team_id \<Rightarrow> actor_id \<Rightarrow> db \<Rightarrow> sqlx_error + (nat \<times> db)" where
  "delete_team_member s org team actor d =
     (let hit = (\<lambda>m. sees_team_member s d m \<and> tm_org m = org \<and> tm_team m = team \<and> tm_actor m = actor)
      in Inr (length (filter hit (team_members d)),
           d\<lparr>team_members := filter (\<lambda>m. \<not> hit m) (team_members d)\<rparr>))"

definition delete_team_memberships ::
    "session \<Rightarrow> organization_id \<Rightarrow> actor_id \<Rightarrow> db \<Rightarrow> sqlx_error + (team_id list \<times> db)" where
  "delete_team_memberships s org actor d =
     (let hit = (\<lambda>m. sees_team_member s d m \<and> tm_org m = org \<and> tm_actor m = actor)
      in Inr (map tm_team (filter hit (team_members d)),
           d\<lparr>team_members := filter (\<lambda>m. \<not> hit m) (team_members d)\<rparr>))"

section \<open>Channels and messages\<close>

definition insert_channel ::
    "session \<Rightarrow> channel_id \<Rightarrow> organization_id \<Rightarrow> team_id option \<Rightarrow> channel_scope \<Rightarrow> ustring \<Rightarrow> db
       \<Rightarrow> sqlx_error + (unit \<times> db)" where
  "insert_channel s i org team scope name d =
     (let row = \<lparr>ch_id = i, ch_org = org, ch_team = team, ch_scope = scope_str scope, ch_name = name,
        ch_next_seq = 0\<rparr>
      in checked
       [(bindable name, InvalidText),
        (in_active s d org, RowSecurity),
        (1 \<le> length name \<and> length name \<le> 80, ConstraintViolation ''channels_name_check''),
        ((scope_str scope = ''organization'' \<and> team = None) \<or> (scope_str scope = ''team'' \<and> team \<noteq> None),
           ConstraintViolation ''channels_check''),
        (i \<notin> key_set ch_id (channels d), ConstraintViolation ''channels_pkey''),
        (scope_str scope = ''team'' \<longrightarrow>
           (team, ascii_lower name) \<notin> key_set (\<lambda>c. (ch_team c, ascii_lower (ch_name c))) (filter (\<lambda>c. ch_scope c = ''team'') (channels d)),
           ConstraintViolation ''channels_team_name_key''),
        (scope_str scope = ''organization'' \<longrightarrow>
           (org, ascii_lower name) \<notin> key_set (\<lambda>c. (ch_org c, ascii_lower (ch_name c))) (filter (\<lambda>c. ch_scope c = ''organization'') (channels d)),
           ConstraintViolation ''channels_organization_name_key''),
        (org \<in> key_set o_id (organizations d), ConstraintViolation ''channels_organization_id_fkey''),
        (case team of None \<Rightarrow> True | Some t \<Rightarrow> (t, org) \<in> key_set (\<lambda>r. (t_id r, t_org r)) (teams d),
           ConstraintViolation ''channels_team_id_organization_id_fkey'')]
       ((), d\<lparr>channels := channels d @ [row]\<rparr>))"

text \<open>\<open>INSERT ... SELECT ... FROM channels\<close>: nothing is inserted when no channel is visible.\<close>

definition insert_channel_member ::
    "session \<Rightarrow> organization_id \<Rightarrow> channel_id \<Rightarrow> actor_id \<Rightarrow> db \<Rightarrow> sqlx_error + (unit \<times> db)" where
  "insert_channel_member s org channel actor d =
     (case filter (\<lambda>c. sees_channel s d c \<and> ch_org c = org \<and> ch_id c = channel) (channels d) of
        [] \<Rightarrow> Inr ((), d)
      | c # _ \<Rightarrow>
          (let row = \<lparr>cm_channel = ch_id c, cm_scope = ch_scope c, cm_org = ch_org c, cm_actor = actor\<rparr>
           in checked
            [(may_insert_channel_member s d row, RowSecurity),
             (cm_scope row = ''team'', ConstraintViolation ''channel_members_channel_scope_check''),
             ((cm_channel row, actor) \<notin> key_set (\<lambda>m. (cm_channel m, cm_actor m)) (channel_members d),
                ConstraintViolation ''channel_members_pkey''),
             (actor \<in> key_set a_id (actors d), ConstraintViolation ''channel_members_actor_id_fkey''),
             ((cm_channel row, cm_scope row, cm_org row)
                \<in> key_set (\<lambda>x. (ch_id x, ch_scope x, ch_org x)) (channels d),
                ConstraintViolation ''channel_members_channel_organization_fkey'')]
            ((), d\<lparr>channel_members := channel_members d @ [row]\<rparr>)))"

definition delete_channel_memberships ::
    "session \<Rightarrow> organization_id \<Rightarrow> actor_id \<Rightarrow> db \<Rightarrow> sqlx_error + (unit \<times> db)" where
  "delete_channel_memberships s org actor d =
     Inr ((), d\<lparr>channel_members :=
       filter (\<lambda>m. \<not> (sees_channel_member s d m \<and> cm_org m = org \<and> cm_actor m = actor))
         (channel_members d)\<rparr>)"

text \<open>\<open>UPDATE channels SET next_message_seq = next_message_seq + 1 ... RETURNING\<close>; the column is a bigint.\<close>

definition bump_channel ::
    "session \<Rightarrow> channel_id \<Rightarrow> organization_id \<Rightarrow> db \<Rightarrow> sqlx_error + (int option \<times> db)" where
  "bump_channel s channel org d =
     (let hit = (\<lambda>c. sees_channel s d c \<and> ch_id c = channel \<and> ch_org c = org)
      in if list_ex (\<lambda>c. hit c \<and> ch_next_seq c = i64_max) (channels d) then Inl NumericOutOfRange
         else (case rls_update hit no_trigger (sees_channel s d)
                      (\<lambda>c. c\<lparr>ch_next_seq := ch_next_seq c + 1\<rparr>) (channels d) of
                 Inl e \<Rightarrow> Inl e
               | Inr (news, rows) \<Rightarrow>
                   Inr (map_option ch_next_seq (fetch_optional news), d\<lparr>channels := rows\<rparr>)))"

text \<open>\<open>INSERT INTO messages ... ON CONFLICT (id) DO NOTHING RETURNING ...\<close>\<close>

definition insert_message ::
    "session \<Rightarrow> message_row \<Rightarrow> db \<Rightarrow> sqlx_error + (message_row option \<times> db)" where
  "insert_message s row d =
     (case checked
        [(bindable (m_body row), InvalidText),
         (sees_message s d row, RowSecurity),
         (1 \<le> m_seq row, ConstraintViolation ''messages_channel_seq_check''),
         (1 \<le> length (m_body row) \<and> length (m_body row) \<le> 4000,
            ConstraintViolation ''messages_body_check'')] () of
        Inl e \<Rightarrow> Inl e
      | Inr _ \<Rightarrow>
          if m_id row \<in> key_set m_id (messages d) then Inr (None, d)
          else checked
            [((m_channel row, m_seq row) \<notin> key_set (\<lambda>m. (m_channel m, m_seq m)) (messages d),
                ConstraintViolation ''messages_channel_id_channel_seq_key''),
             (m_org row \<in> key_set o_id (organizations d),
                ConstraintViolation ''messages_organization_id_fkey''),
             (m_sender row \<in> key_set a_id (actors d),
                ConstraintViolation ''messages_sender_actor_id_fkey''),
             ((m_channel row, m_org row) \<in> key_set (\<lambda>c. (ch_id c, ch_org c)) (channels d),
                ConstraintViolation ''messages_channel_id_organization_id_fkey'')]
            (Some row, d\<lparr>messages := messages d @ [row]\<rparr>))"

section \<open>Invites\<close>

text \<open>
  \<open>INSERT INTO invites ... SELECT ... FROM organizations WHERE id = $2 RETURNING id\<close>: one row when the
  organization is visible, none otherwise. The trigger accepts it because its use count is the default 0.
\<close>

definition insert_invite ::
    "session \<Rightarrow> invite_id \<Rightarrow> organization_id \<Rightarrow> token_hash \<Rightarrow> instant \<Rightarrow> int \<Rightarrow> actor_id \<Rightarrow> db
       \<Rightarrow> sqlx_error + (invite_id option \<times> db)" where
  "insert_invite s i org token_hash expires_at max_uses creator d =
     (case filter (\<lambda>r. sees_organization s d r \<and> o_id r = org) (organizations d) of
        [] \<Rightarrow> Inr (None, d)
      | r # _ \<Rightarrow>
          (let row = \<lparr>i_id = i, i_org = o_id r, i_kind = ''organization'', i_target_team = None,
             i_token_hash = hash_str token_hash, i_expires_at = expires_at, i_max_uses = max_uses,
             i_used_count = 0, i_revoked_at = None, i_created_by = creator, i_xmin = xid s\<rparr>
           in checked
            [(in_active s d (o_id r) \<and> sees_invite s d row, RowSecurity),
             (0 < max_uses, ConstraintViolation ''invites_max_uses_check''),
             (i \<notin> key_set i_id (invites d), ConstraintViolation ''invites_pkey''),
             (hash_str token_hash \<notin> key_set i_token_hash (invites d),
                ConstraintViolation ''invites_token_hash_key''),
             (o_id r \<in> key_set o_id (organizations d),
                ConstraintViolation ''invites_organization_id_fkey''),
             (creator \<in> key_set a_id (actors d), ConstraintViolation ''invites_created_by_actor_id_fkey'')]
            (Some i, d\<lparr>invites := invites d @ [row]\<rparr>)))"

text \<open>The conditional statement that decides and takes a use in one step.\<close>

definition usable :: "session \<Rightarrow> string \<Rightarrow> invite_row \<Rightarrow> bool" where
  "usable s h i \<longleftrightarrow> i_token_hash i = h \<and> i_used_count i < i_max_uses i \<and> i_revoked_at i = None
     \<and> i_expires_at i > tx_now s"

definition use_invite ::
    "session \<Rightarrow> token_hash \<Rightarrow> db \<Rightarrow> sqlx_error + (invite_row option \<times> db)" where
  "use_invite s token_hash d =
     (case rls_update (\<lambda>i. sees_invite s d i \<and> usable s (hash_str token_hash) i)
             (guard_invite_use s) (sees_invite s d)
             (\<lambda>i. i\<lparr>i_used_count := i_used_count i + 1, i_xmin := xid s\<rparr>) (invites d) of
        Inl e \<Rightarrow> Inl e
      | Inr (news, rows) \<Rightarrow> Inr (fetch_optional news, d\<lparr>invites := rows\<rparr>))"

definition set_invite_revoked ::
    "session \<Rightarrow> organization_id \<Rightarrow> invite_id \<Rightarrow> db \<Rightarrow> sqlx_error + (unit \<times> db)" where
  "set_invite_revoked s org invite d =
     (case rls_update (\<lambda>i. sees_invite s d i \<and> i_org i = org \<and> i_id i = invite)
             (guard_invite_use s) (sees_invite s d)
             (\<lambda>i. i\<lparr>i_revoked_at := Some (tx_now s), i_xmin := xid s\<rparr>) (invites d) of
        Inl e \<Rightarrow> Inl e
      | Inr (_, rows) \<Rightarrow> Inr ((), d\<lparr>invites := rows\<rparr>))"

section \<open>Sessions\<close>

definition insert_session ::
    "session \<Rightarrow> uuid \<Rightarrow> actor_id \<Rightarrow> token_hash \<Rightarrow> instant \<Rightarrow> db \<Rightarrow> sqlx_error + (unit \<times> db)" where
  "insert_session s i actor token_hash expires_at d =
     checked
       [(is_self s actor, RowSecurity),
        (i \<notin> key_set s_id (sessions d), ConstraintViolation ''sessions_pkey''),
        (hash_str token_hash \<notin> key_set s_token_hash (sessions d),
           ConstraintViolation ''sessions_token_hash_key''),
        (actor \<in> key_set u_actor_id (users d), ConstraintViolation ''sessions_actor_id_fkey'')]
       ((), d\<lparr>sessions := sessions d @ [\<lparr>s_id = i, s_actor = actor,
          s_token_hash = hash_str token_hash, s_expires_at = expires_at, s_revoked_at = None\<rparr>]\<rparr>)"

definition set_session_revoked ::
    "session \<Rightarrow> actor_id \<Rightarrow> token_hash \<Rightarrow> db \<Rightarrow> sqlx_error + (nat \<times> db)" where
  "set_session_revoked s actor token_hash d =
     (case rls_update
             (\<lambda>r. sees_session s d r \<and> is_self s (s_actor r) \<and> s_actor r = actor
                \<and> s_token_hash r = hash_str token_hash)
             no_trigger (\<lambda>r. is_self s (s_actor r) \<and> sees_session s d r)
             (\<lambda>r. r\<lparr>s_revoked_at := Some (case s_revoked_at r of Some t \<Rightarrow> t | None \<Rightarrow> tx_now s)\<rparr>)
             (sessions d) of
        Inl e \<Rightarrow> Inl e
      | Inr (news, rows) \<Rightarrow> Inr (length news, d\<lparr>sessions := rows\<rparr>))"

section \<open>Audit\<close>

definition insert_audit :: "session \<Rightarrow> audit_row \<Rightarrow> db \<Rightarrow> sqlx_error + (unit \<times> db)" where
  "insert_audit s row d =
     checked
       [(may_insert_audit s d row, RowSecurity),
        (action_ok (ae_action row), ConstraintViolation ''audit_events_action_check''),
        (ae_target_type row \<in> set audit_target_types,
           ConstraintViolation ''audit_events_target_type_check''),
        (ae_id row \<notin> key_set ae_id (audit_events d), ConstraintViolation ''audit_events_pkey''),
        (ae_org row \<in> key_set o_id (organizations d),
           ConstraintViolation ''audit_events_organization_id_fkey''),
        (ae_actor row \<in> key_set a_id (actors d), ConstraintViolation ''audit_events_actor_id_fkey'')]
       ((), d\<lparr>audit_events := audit_events d @ [row]\<rparr>)"

section \<open>The statements as one step relation\<close>

text \<open>
  Every write the application issues is one of these steps. An invariant of all steps is an invariant of
  every operation, whatever it does between them.
\<close>

inductive dml :: "session \<Rightarrow> db \<Rightarrow> db \<Rightarrow> bool" for s :: session and d :: db where
  "insert_actor s i n d = Inr (r1, d') \<Longrightarrow> dml s d d'"
| "insert_user s i e h d = Inr (r1, d') \<Longrightarrow> dml s d d'"
| "delete_user s i d = Inr (r1, d') \<Longrightarrow> dml s d d'"
| "erase_actor s i d = Inr (r1, d') \<Longrightarrow> dml s d d'"
| "insert_organization s i n sl d = Inr (r1, d') \<Longrightarrow> dml s d d'"
| "insert_member s org a role st d = Inr (r1, d') \<Longrightarrow> dml s d d'"
| "set_member_role s org a ro d = Inr (r1, d') \<Longrightarrow> dml s d d'"
| "set_member_status s org a stat d = Inr (r1, d') \<Longrightarrow> dml s d d'"
| "set_member_left s org a d = Inr (r1, d') \<Longrightarrow> dml s d d'"
| "insert_team s i org n d = Inr (r1, d') \<Longrightarrow> dml s d d'"
| "insert_team_member s t a org tr d = Inr (r1, d') \<Longrightarrow> dml s d d'"
| "set_team_member_role s org t a tr d = Inr (r1, d') \<Longrightarrow> dml s d d'"
| "delete_team_member s org t a d = Inr (r2, d') \<Longrightarrow> dml s d d'"
| "delete_team_memberships s org a d = Inr (r3, d') \<Longrightarrow> dml s d d'"
| "insert_channel s i org tm sc n d = Inr (r1, d') \<Longrightarrow> dml s d d'"
| "insert_channel_member s org c a d = Inr (r1, d') \<Longrightarrow> dml s d d'"
| "delete_channel_memberships s org a d = Inr (r1, d') \<Longrightarrow> dml s d d'"
| "bump_channel s c org d = Inr (r4, d') \<Longrightarrow> dml s d d'"
| "insert_message s mr d = Inr (r5, d') \<Longrightarrow> dml s d d'"
| "insert_invite s i org th ex mu cr d = Inr (r6, d') \<Longrightarrow> dml s d d'"
| "use_invite s th d = Inr (r7, d') \<Longrightarrow> dml s d d'"
| "set_invite_revoked s org i d = Inr (r1, d') \<Longrightarrow> dml s d d'"
| "insert_session s i a th ex d = Inr (r1, d') \<Longrightarrow> dml s d d'"
| "set_session_revoked s a th d = Inr (r2, d') \<Longrightarrow> dml s d d'"
| "insert_audit s ar d = Inr (r1, d') \<Longrightarrow> dml s d d'"

end
