(* ===== verification/StatementLaws.thy ===== *)
theory StatementLaws
  imports Statements "HOL-Library.Sublist"
begin

text \<open>
  What every single statement keeps: the declared constraints (\<open>schema_ok\<close>), and the history relation -
  audit records, messages, actors, memberships, teams, channels and invites are only ever added, their
  identifying columns never change, a departure, a revocation and a used-up place are never taken back.
\<close>

section \<open>The declared constraints\<close>

lemma insert_actor_ok: "insert_actor s i n d = Inr (r, d') \<Longrightarrow> schema_ok d \<Longrightarrow> schema_ok d'"
  by (auto simp: insert_actor_def schema_ok_def checked_Inr actors_ok_def uniq_snoc actor_type_all_def
      elim!: schema_monos)

lemma insert_user_ok: "insert_user s i e h d = Inr (r, d') \<Longrightarrow> schema_ok d \<Longrightarrow> schema_ok d'"
  by (auto simp: insert_user_def schema_ok_def users_ok_def  checked_Inr uniq_snoc elim!: schema_monos)

lemma insert_organization_ok: "insert_organization s i n sl d = Inr (r, d') \<Longrightarrow> schema_ok d \<Longrightarrow> schema_ok d'"
  by (auto simp: insert_organization_def schema_ok_def organizations_ok_def checked_Inr uniq_snoc elim!: schema_monos)

lemma insert_member_ok: "insert_member s org a role st d = Inr (r, d') \<Longrightarrow> schema_ok d \<Longrightarrow> schema_ok d'"
  by (auto simp: insert_member_def schema_ok_def members_ok_def checked_Inr uniq_snoc Let_def elim!: schema_monos)

lemma insert_team_ok: "insert_team s i org n d = Inr (r, d') \<Longrightarrow> schema_ok d \<Longrightarrow> schema_ok d'"
  by (auto simp: insert_team_def schema_ok_def teams_ok_def checked_Inr uniq_snoc elim!: schema_monos)

lemma insert_team_member_ok: "insert_team_member s t a org tr d = Inr (r, d') \<Longrightarrow> schema_ok d \<Longrightarrow> schema_ok d'"
  using team_role_str_in [of tr]
  by (auto simp: insert_team_member_def schema_ok_def team_members_ok_def checked_Inr uniq_snoc split: option.splits)

lemma insert_channel_ok: "insert_channel s i org tm sc n d = Inr (r, d') \<Longrightarrow> schema_ok d \<Longrightarrow> schema_ok d'"
  apply (auto simp: insert_channel_def schema_ok_def checked_Inr Let_def elim!: schema_monos)
  apply (auto simp:  channels_ok_def channel_row_ok_def uniq_snoc)
  done

lemma insert_channel_member_ok: "insert_channel_member s org c a d = Inr (r, d') \<Longrightarrow> schema_ok d \<Longrightarrow> schema_ok d'"
  by (auto simp: insert_channel_member_def schema_ok_def channel_members_ok_def checked_Inr uniq_snoc Let_def split: list.splits)

lemma insert_message_ok: "insert_message s m d = Inr (r, d') \<Longrightarrow> schema_ok d \<Longrightarrow> schema_ok d'"
  by (auto simp: insert_message_def schema_ok_def messages_ok_def uniq_snoc checked_Inr split: sum.splits if_splits)

lemma insert_invite_ok: "insert_invite s i org th ex mu cr d = Inr (r, d') \<Longrightarrow> schema_ok d \<Longrightarrow> schema_ok d'"
  by (auto simp: insert_invite_def schema_ok_def invites_ok_def invite_row_ok_def checked_Inr uniq_snoc Let_def split: list.splits)

lemma insert_session_ok: "insert_session s i a th ex d = Inr (r, d') \<Longrightarrow> schema_ok d \<Longrightarrow> schema_ok d'"
  by (auto simp: insert_session_def schema_ok_def sessions_ok_def checked_Inr uniq_snoc Let_def)

lemma insert_audit_ok: "insert_audit s ar d = Inr (r, d') \<Longrightarrow> schema_ok d \<Longrightarrow> schema_ok d'"
  by (auto simp: insert_audit_def schema_ok_def audit_ok_def checked_Inr uniq_snoc Let_def)

lemma sessions_ok_cascade:
  "sessions_ok ss us
    \<Longrightarrow> sessions_ok (filter (\<lambda>r. s_actor r \<notin> key_set u_actor_id (filter gone us)) ss)
          (filter (\<lambda>u. \<not> gone u) us)"
  by (auto simp: sessions_ok_def uniq_filter intro: key_set_filter_split)

lemma users_ok_filter: "users_ok us as \<Longrightarrow> users_ok (filter p us) as"
  by (auto simp: users_ok_def uniq_filter)

lemma delete_user_ok:
  assumes "delete_user s i d = Inr (r, d')" and "schema_ok d"
  shows "schema_ok d'"
proof -
  define gone where "gone = (\<lambda>u. sees_user s d u \<and> is_self s (u_actor_id u) \<and> u_actor_id u = i)"
  have d': "d' = d\<lparr>users := filter (\<lambda>u. \<not> gone u) (users d),
      sessions := filter (\<lambda>r. s_actor r \<notin> key_set u_actor_id (filter gone (users d))) (sessions d)\<rparr>"
    using assms(1) by (simp add: delete_user_def gone_def Let_def)
  with assms(2) show ?thesis
    by (simp add: schema_ok_def sessions_ok_cascade users_ok_filter)
qed

lemma erase_actor_ok: "erase_actor s i d = Inr (r, d') \<Longrightarrow> schema_ok d \<Longrightarrow> schema_ok d'"
  by (auto simp: erase_actor_def schema_ok_def rls_update_Inr actors_ok_def uniq_update_where set_update_where key_set_update_where
     split: sum.splits elim!: schema_monos)

lemma update_member_ok: "update_member s org a f d = Inr (r, d') \<Longrightarrow> schema_ok d \<Longrightarrow>
   (\<And>m. om_org (f m) = om_org m \<and> om_actor (f m) = om_actor m) \<Longrightarrow> 
   (\<And>m. om_role m \<in> set member_role_check \<Longrightarrow> om_role (f m) \<in> set member_role_check) \<Longrightarrow> 
   (\<And>m. om_status m \<in> set member_status_check \<Longrightarrow> om_status (f m) \<in> set member_status_check) \<Longrightarrow> schema_ok d'"
  apply (clarsimp simp: update_member_def schema_ok_def rls_update_Inr  split: sum.splits)
  apply (auto simp: members_ok_def uniq_update_where set_update_where key_set_update_where  elim!: schema_monos)
  done

lemma set_member_role_ok: "set_member_role s org a ro d = Inr (r, d') \<Longrightarrow> schema_ok d \<Longrightarrow> schema_ok d'"
  unfolding set_member_role_def by (erule update_member_ok) (use role_str_in [of ro] in auto)

lemma set_member_status_ok: "set_member_status s org a ro d = Inr (r, d') \<Longrightarrow> schema_ok d \<Longrightarrow> schema_ok d'"
  unfolding set_member_status_def by (erule update_member_ok) (use status_str_in [of ro] in auto)

lemma set_member_left_ok: "set_member_left s org a d = Inr (r, d') \<Longrightarrow> schema_ok d \<Longrightarrow> schema_ok d'"
  unfolding set_member_left_def by (erule update_member_ok) (use status_str_in [of Left] in auto)

lemma set_team_member_role_ok: "set_team_member_role s org t a tr d = Inr (r, d') \<Longrightarrow> schema_ok d \<Longrightarrow> schema_ok d'"
  using team_role_str_in [of tr]
  by (auto simp: set_team_member_role_def schema_ok_def rls_update_Inr team_members_ok_def uniq_update_where set_update_where
     split: sum.splits)

lemma delete_team_member_ok: "delete_team_member s org t a d = Inr (r, d') \<Longrightarrow> schema_ok d \<Longrightarrow> schema_ok d'"
  by (auto simp: delete_team_member_def schema_ok_def Let_def team_members_ok_def uniq_filter)

lemma delete_team_memberships_ok: "delete_team_memberships s org a d = Inr (r, d') \<Longrightarrow> schema_ok d \<Longrightarrow> schema_ok d'"
  by (auto simp: delete_team_memberships_def schema_ok_def Let_def team_members_ok_def uniq_filter)

lemma delete_channel_memberships_ok: "delete_channel_memberships s org a d = Inr (r, d') \<Longrightarrow> schema_ok d \<Longrightarrow> schema_ok d'"
  by (auto simp: delete_channel_memberships_def schema_ok_def Let_def channel_members_ok_def uniq_filter)

lemma bump_channel_ok: "bump_channel s c org d = Inr (r, d') \<Longrightarrow> schema_ok d \<Longrightarrow> schema_ok d'"
  apply (clarsimp simp: bump_channel_def schema_ok_def rls_update_Inr Let_def split: sum.splits if_splits)
  apply (auto simp: channels_ok_def channel_row_ok_def uniq_update_where uniq_filter_update_where set_update_where key_set_update_where 
      elim!: schema_monos)
  done

lemma use_invite_ok: "use_invite s th d = Inr (r, d') \<Longrightarrow> schema_ok d \<Longrightarrow> schema_ok d'"
  apply (clarsimp simp: use_invite_def schema_ok_def rls_update_Inr Let_def split: sum.splits if_splits)
  apply (auto simp: invites_ok_def invite_row_ok_def uniq_update_where set_update_where usable_def)
  done

lemma set_invite_revoked_ok: "set_invite_revoked s org i d = Inr (r, d') \<Longrightarrow> schema_ok d \<Longrightarrow> schema_ok d'"
  apply (clarsimp simp: set_invite_revoked_def schema_ok_def rls_update_Inr Let_def split: sum.splits if_splits)
  apply (auto simp: invites_ok_def invite_row_ok_def uniq_update_where set_update_where usable_def)
  done

lemma set_session_revoked_ok: "set_session_revoked s a th d = Inr (r, d') \<Longrightarrow> schema_ok d \<Longrightarrow> schema_ok d'"
  apply (clarsimp simp: set_session_revoked_def schema_ok_def rls_update_Inr Let_def split: sum.splits if_splits)
  apply (auto simp: sessions_ok_def  uniq_update_where set_update_where )
  done

lemmas statement_schema = insert_actor_ok insert_user_ok delete_user_ok erase_actor_ok
  insert_organization_ok insert_member_ok set_member_role_ok set_member_status_ok set_member_left_ok
  insert_team_ok insert_team_member_ok set_team_member_role_ok delete_team_member_ok
  delete_team_memberships_ok insert_channel_ok insert_channel_member_ok delete_channel_memberships_ok
  bump_channel_ok insert_message_ok insert_invite_ok use_invite_ok set_invite_revoked_ok
  insert_session_ok set_session_revoked_ok insert_audit_ok

lemma dml_schema: "dml s d d' \<Longrightarrow> schema_ok d \<Longrightarrow> schema_ok d'"
  by (induction rule: dml.induct) (erule (1) statement_schema)+

section \<open>History\<close>

definition actor_identity :: "actor_row \<Rightarrow> actor_id \<times> string" where
  "actor_identity a = (a_id a, a_type a)"

definition member_identity :: "member_row \<Rightarrow> organization_id \<times> actor_id" where
  "member_identity m = (om_org m, om_actor m)"

definition invite_identity ::
    "invite_row \<Rightarrow> invite_id \<times> organization_id \<times> string \<times> team_id option \<times> string \<times> instant \<times> int \<times> actor_id" where
  "invite_identity i = (i_id i, i_org i, i_kind i, i_target_team i, i_token_hash i, i_expires_at i,
     i_max_uses i, i_created_by i)"

definition channel_identity ::
    "channel_row \<Rightarrow> channel_id \<times> organization_id \<times> team_id option \<times> string \<times> ustring" where
  "channel_identity c = (ch_id c, ch_org c, ch_team c, ch_scope c, ch_name c)"

definition deleted_stays :: "db \<Rightarrow> db \<Rightarrow> bool" where
  "deleted_stays d d' \<longleftrightarrow> (\<forall>a \<in> set (actors d). \<exists>a' \<in> set (actors d').
     a_id a' = a_id a \<and> (a_deleted_at a \<noteq> None \<longrightarrow> a_deleted_at a' \<noteq> None))"

definition invites_advance :: "db \<Rightarrow> db \<Rightarrow> bool" where
  "invites_advance d d' \<longleftrightarrow> (\<forall>i \<in> set (invites d). \<exists>i' \<in> set (invites d'). i_id i' = i_id i
     \<and> i_used_count i \<le> i_used_count i' 
     \<and> (\<forall>t. i_revoked_at i = Some t \<longrightarrow> i_revoked_at i' = Some t \<and> i_used_count i' = i_used_count i))"

definition counters_advance :: "db \<Rightarrow> db \<Rightarrow> bool" where
  "counters_advance d d' \<longleftrightarrow> (\<forall>c \<in> set (channels d). \<exists>c' \<in> set (channels d'). ch_id c' = ch_id c
     \<and> ch_next_seq c \<le> ch_next_seq c')"

definition history :: "db \<Rightarrow> db \<Rightarrow> bool" where
  "history d d' \<longleftrightarrow> prefix (audit_events d) (audit_events d')
     \<and> prefix (messages d) (messages d')
     \<and> prefix (organizations d) (organizations d')
     \<and> prefix (teams d) (teams d')
     \<and> prefix (map actor_identity (actors d)) (map actor_identity (actors d'))
     \<and> prefix (map member_identity (organization_members d))
         (map member_identity (organization_members d'))
     \<and> prefix (map invite_identity (invites d)) (map invite_identity (invites d'))
     \<and> prefix (map channel_identity (channels d)) (map channel_identity (channels d'))
     \<and> deleted_stays d d' \<and> invites_advance d d' \<and> counters_advance d d'"

lemma deleted_stays_refl: "actors d' = actors d \<Longrightarrow> deleted_stays d d'"
  by (auto simp: deleted_stays_def)

lemma invites_advance_refl: "invites d' = invites d \<Longrightarrow> invites_advance d d'"
  by (auto simp: invites_advance_def)

lemma counters_advance_refl: "channels d' = channels d \<Longrightarrow> counters_advance d d'"
  by (auto simp: counters_advance_def)

lemmas advance_refl = deleted_stays_refl invites_advance_refl counters_advance_refl

lemma history_refl: "history d d"
  by (simp add: history_def advance_refl)

lemma deleted_stays_trans: "deleted_stays a b \<Longrightarrow> deleted_stays b c \<Longrightarrow> deleted_stays a c"
  unfolding deleted_stays_def by metis

lemma invites_advance_trans: "invites_advance a b \<Longrightarrow> invites_advance b c \<Longrightarrow> invites_advance a c"
  unfolding invites_advance_def by (metis order_trans)

lemma counters_advance_trans: "counters_advance a b \<Longrightarrow> counters_advance b c \<Longrightarrow> counters_advance a c"
  unfolding counters_advance_def by (metis order_trans)

lemma history_trans: "history a b \<Longrightarrow> history b c \<Longrightarrow> history a c"
  unfolding history_def
  by (blast intro: prefix_order.trans deleted_stays_trans invites_advance_trans counters_advance_trans)

lemma insert_history:
  "insert_actor s i n d = Inr (r1, d') \<Longrightarrow> history d d'"
  "insert_user s i e h d = Inr (r1, d') \<Longrightarrow> history d d'"
  "insert_organization s i n sl d = Inr (r1, d') \<Longrightarrow> history d d'"
  "insert_member s org a role st d = Inr (r1, d') \<Longrightarrow> history d d'"
  "insert_team s i org n d = Inr (r1, d') \<Longrightarrow> history d d'"
  "insert_team_member s t a org tr d = Inr (r1, d') \<Longrightarrow> history d d'"
  "insert_channel s i org tm sc n d = Inr (r1, d') \<Longrightarrow> history d d'"
  "insert_session s i a th ex d = Inr (r1, d') \<Longrightarrow> history d d'"
  "insert_audit s ar d = Inr (r1, d') \<Longrightarrow> history d d'"
  by (auto simp: insert_actor_def insert_user_def insert_organization_def insert_member_def insert_team_def
      insert_team_member_def insert_channel_def insert_session_def insert_audit_def
      history_def checked_Inr Let_def advance_refl
      deleted_stays_def invites_advance_def counters_advance_def)

lemma insert_select_history:
  "insert_channel_member s org c a d = Inr (r1, d') \<Longrightarrow> history d d'"
  "insert_message s mr d = Inr (r5, d') \<Longrightarrow> history d d'"
  "insert_invite s i org th ex mu cr d = Inr (r6, d') \<Longrightarrow> history d d'"
  by (auto simp: insert_channel_member_def insert_message_def insert_invite_def history_def checked_Inr Let_def
      advance_refl deleted_stays_def invites_advance_def counters_advance_def
      split: list.splits sum.splits if_splits)
  

lemma delete_history:
  "delete_user s i d = Inr (r1, d') \<Longrightarrow> history d d'"
  "delete_team_member s org t a d = Inr (r2, d') \<Longrightarrow> history d d'"
  "delete_team_memberships s org a d = Inr (r3, d') \<Longrightarrow> history d d'"
  "delete_channel_memberships s org a d = Inr (r1, d') \<Longrightarrow> history d d'"
  by (auto simp: delete_user_def delete_team_member_def delete_team_memberships_def delete_channel_memberships_def
    history_def Let_def advance_refl)

lemma update_member_history:
  "update_member s org a f d = Inr (r1, d') \<Longrightarrow> (\<And>m. member_identity (f m) = member_identity m) \<Longrightarrow> history d d'"
  by (auto simp: update_member_def history_def rls_update_Inr update_where_map_key advance_refl split: sum.splits)

lemma erase_actor_history: "erase_actor s i d = Inr (r1, d') \<Longrightarrow> history d d'"
proof -
  assume "erase_actor s i d = Inr (r1, d')"
  then have d': "d' = d\<lparr>actors := update_where (\<lambda>a. sees_actor s d a \<and> a_id a = i)
      (\<lambda>a. a\<lparr>a_display_name := None, a_deleted_at := Some (tx_now s)\<rparr>) (actors d)\<rparr>"
    by (auto simp: erase_actor_def rls_update_Inr split: sum.splits)
  then have actors': "actors d' = update_where (\<lambda>a. sees_actor s d a \<and> a_id a = i)
      (\<lambda>a. a\<lparr>a_display_name := None, a_deleted_at := Some (tx_now s)\<rparr>) (actors d)"
    by simp
  have "deleted_stays d d'"
    unfolding deleted_stays_def actors' by (rule update_where_related) auto
  then show ?thesis
    by (simp add: d' history_def update_where_map_key actor_identity_def advance_refl)
qed

lemma bump_channel_history: "bump_channel s c org d = Inr (r4, d') \<Longrightarrow> history d d'"
proof -
  assume "bump_channel s c org d = Inr (r4, d')"
  then have d': "d' = d\<lparr>channels := update_where (\<lambda>x. sees_channel s d x \<and> ch_id x = c \<and> ch_org x = org)
      (\<lambda>x. x\<lparr>ch_next_seq := ch_next_seq x + 1\<rparr>) (channels d)\<rparr>"
    by (auto simp: bump_channel_def rls_update_Inr Let_def split: sum.splits if_splits)
  then have channels': "channels d' = update_where (\<lambda>x. sees_channel s d x \<and> ch_id x = c \<and> ch_org x = org)
      (\<lambda>x. x\<lparr>ch_next_seq := ch_next_seq x + 1\<rparr>) (channels d)"
    by simp
  have "counters_advance d d'"
    unfolding counters_advance_def channels' by (rule update_where_related) auto
  then show ?thesis
    by (simp add: d' history_def update_where_map_key channel_identity_def advance_refl)
qed

lemma use_invite_history: "use_invite s th d = Inr (r7, d') \<Longrightarrow> history d d'"
proof -
  assume "use_invite s th d = Inr (r7, d')"
  then have d': "d' = d\<lparr>invites := update_where (\<lambda>i. sees_invite s d i \<and> usable s (hash_str th) i)
      (\<lambda>i. i\<lparr>i_used_count := i_used_count i + 1, i_xmin := xid s\<rparr>) (invites d)\<rparr>"
    by (auto simp: use_invite_def rls_update_Inr split: sum.splits)
  then have invites': "invites d' = update_where (\<lambda>i. sees_invite s d i \<and> usable s (hash_str th) i)
      (\<lambda>i. i\<lparr>i_used_count := i_used_count i + 1, i_xmin := xid s\<rparr>) (invites d)"
    by simp
  have "invites_advance d d'"
    unfolding invites_advance_def invites' by (rule update_where_related) (auto simp: usable_def)
  then show ?thesis
    by (simp add: d' history_def update_where_map_key invite_identity_def advance_refl)
qed

lemma set_invite_revoked_history: "set_invite_revoked s org i d = Inr (r1, d') \<Longrightarrow> history d d'"
proof -
  let ?hit = "\<lambda>x. sees_invite s d x \<and> i_org x = org \<and> i_id x = i"
  let ?f = "\<lambda>x. x\<lparr>i_revoked_at := Some (tx_now s), i_xmin := xid s\<rparr>"
  assume "set_invite_revoked s org i d = Inr (r1, d')"
  then have d': "d' = d\<lparr>invites := update_where ?hit ?f (invites d)\<rparr>"
    and ok: "\<And>x. x \<in> set (invites d) \<Longrightarrow> ?hit x \<Longrightarrow> \<not> guard_invite_use s x (?f x)"
    by (auto simp: set_invite_revoked_def rls_update_Inr split: sum.splits)
  from d' have invites': "invites d' = update_where ?hit ?f (invites d)"
    by simp
  have "invites_advance d d'"
    unfolding invites_advance_def invites'
    by (rule update_where_related) (auto dest: ok simp: guard_invite_use_def)
  then show ?thesis
    by (simp add: d' history_def update_where_map_key invite_identity_def advance_refl)
qed

lemma update_history:
  "set_team_member_role s org t a tr d = Inr (r1, d') \<Longrightarrow> history d d'"
  "set_session_revoked s a th d = Inr (r2, d') \<Longrightarrow> history d d'"
  by (auto simp: set_team_member_role_def set_session_revoked_def history_def rls_update_Inr
     advance_refl split: sum.splits)

lemma set_member_history:
  "set_member_role s org a ro d = Inr (r1, d') \<Longrightarrow> history d d'"
  "set_member_status s org a stat d = Inr (r1, d') \<Longrightarrow> history d d'"
  "set_member_left s org a d = Inr (r1, d') \<Longrightarrow> history d d'"
  unfolding set_member_role_def set_member_status_def set_member_left_def
  by (auto elim!: update_member_history simp: member_identity_def)

lemma dml_history: "dml s d d' \<Longrightarrow> history d d'"
  by (induction rule: dml.induct)
   (erule insert_history insert_select_history delete_history update_history set_member_history
     bump_channel_history use_invite_history set_invite_revoked_history erase_actor_history)+

end
