(* ===== verification/Transaction.thy ===== *)
theory Transaction
  imports StatementLaws
begin

text \<open>
  Transactions over one pooled connection. \<open>committed\<close> is what other sessions see, \<open>view\<close> what this
  transaction sees. The connection can be lost: \<open>wire = DropsAfter n landed\<close> says that \<open>n\<close> more round trips
  succeed and then everything fails; a COMMIT that meets the loss took effect on the server exactly when
  \<open>landed\<close>. \<open>Uuid::now_v7\<close> draws from the supply \<open>uuids\<close>; nothing is assumed about it, a collision is
  refused by the primary keys.
\<close>

section \<open>The connection\<close>

datatype wire = Healthy | DropsAfter nat bool

record conn =
  committed :: db
  view :: db
  session :: session
  clock :: instant
  uuids :: "nat \<Rightarrow> uuid"
  drawn :: nat
  wire :: wire

type_synonym ('e, 'a) tx = "conn \<Rightarrow> ('e + 'a) \<times> conn"

definition tick :: "(sqlx_error, unit) tx" where
  "tick c = (case wire c of
       Healthy \<Rightarrow> (Inr (), c)
     | DropsAfter n landed \<Rightarrow>
         (case n of 0 \<Rightarrow> (Inl Io, c) | Suc k \<Rightarrow> (Inr (), c\<lparr>wire := DropsAfter k landed\<rparr>)))"

section \<open>Sequencing\<close>

definition ok :: "'a \<Rightarrow> ('e, 'a) tx" where
  "ok a c = (Inr a, c)"

definition throw :: "'e \<Rightarrow> ('e, 'a) tx" where
  "throw e c = (Inl e, c)"

text \<open>
  \<open>attempt f m k\<close> is \<open>let x = m.await.map_err(f)?; k(x)\<close>: an error of \<open>m\<close> is converted by \<open>f\<close> (usually the
  \<open>From\<close> conversion of the \<open>?\<close> operator) and returned at once.
\<close>

definition attempt :: "('x \<Rightarrow> 'e) \<Rightarrow> ('x, 'a) tx \<Rightarrow> ('a \<Rightarrow> ('e, 'b) tx) \<Rightarrow> ('e, 'b) tx" where
  "attempt f m k c = (case m c of (Inl e, c') \<Rightarrow> (Inl (f e), c') | (Inr a, c') \<Rightarrow> k a c')"

text \<open>\<open>ok_or(e)?\<close> on an option and \<open>?\<close> on a pure result.\<close>

definition require :: "'e \<Rightarrow> 'a option \<Rightarrow> ('a \<Rightarrow> ('e, 'b) tx) \<Rightarrow> ('e, 'b) tx" where
  "require e x k = (case x of None \<Rightarrow> throw e | Some a \<Rightarrow> k a)"

definition require_ok :: "('x \<Rightarrow> 'e) \<Rightarrow> ('x + 'a) \<Rightarrow> ('a \<Rightarrow> ('e, 'b) tx) \<Rightarrow> ('e, 'b) tx" where
  "require_ok f x k = (case x of Inl e \<Rightarrow> throw (f e) | Inr a \<Rightarrow> k a)"

text \<open>A \<open>for\<close> loop whose body may return early with an error.\<close>

primrec for_each :: "'a list \<Rightarrow> ('a \<Rightarrow> ('e, unit) tx) \<Rightarrow> ('e, unit) tx" where
  "for_each [] body = ok ()"
| "for_each (x # xs) body = attempt id (body x) (\<lambda>_. for_each xs body)"

section \<open>Statements\<close>

text \<open>A failing statement leaves the view as it was; the code never goes on after one.\<close>

definition execute :: "(session \<Rightarrow> db \<Rightarrow> sqlx_error + ('a \<times> db)) \<Rightarrow> (sqlx_error, 'a) tx" where
  "execute f = attempt id tick (\<lambda>_ c.
     (case f (session c) (view c) of
        Inl e \<Rightarrow> (Inl e, c)
      | Inr (a, d) \<Rightarrow> (Inr a, c\<lparr>view := d\<rparr>)))"

definition query :: "(session \<Rightarrow> db \<Rightarrow> 'a) \<Rightarrow> (sqlx_error, 'a) tx" where
  "query f = attempt id tick (\<lambda>_ c. (Inr (f (session c) (view c)), c))"

definition now_v7 :: "('e, uuid) tx" where
  "now_v7 c = (Inr (uuids c (drawn c)), c\<lparr>drawn := Suc (drawn c)\<rparr>)"

text \<open>\<open>set_context\<close>: one \<open>set_config(..., true)\<close>, local to the transaction.\<close>

datatype context_setting =
    Actor actor_id
  | SessionTokenContext token_hash
  | SignInEmail ustring
  | InviteTokenContext token_hash

fun apply_context :: "context_setting \<Rightarrow> session \<Rightarrow> session" where
  "apply_context (Actor a) s = s\<lparr>actor_setting := Some a\<rparr>"
| "apply_context (SessionTokenContext h) s = s\<lparr>session_token_setting := Some (hash_str h)\<rparr>"
| "apply_context (SignInEmail e) s = s\<lparr>sign_in_email_setting := Some e\<rparr>"
| "apply_context (InviteTokenContext h) s = s\<lparr>invite_token_setting := Some (hash_str h)\<rparr>"

fun context_bindable :: "context_setting \<Rightarrow> bool" where
  "context_bindable (SignInEmail e) \<longleftrightarrow> bindable e"
| "context_bindable _ \<longleftrightarrow> True"

definition set_context :: "context_setting \<Rightarrow> (sqlx_error, unit) tx" where
  "set_context ctx = attempt id tick (\<lambda>_ c.
     if context_bindable ctx then (Inr (), c\<lparr>session := apply_context ctx (session c)\<rparr>)
     else (Inl InvalidText, c))"

definition pool_begin :: "(sqlx_error, unit) tx" where
  "pool_begin = attempt id tick (\<lambda>_ c.
     (Inr (), c\<lparr>view := committed c, session := fresh_session (Suc (xid (session c))) (clock c)\<rparr>))"

definition begin_tx :: "context_setting \<Rightarrow> (sqlx_error, unit) tx" where
  "begin_tx ctx = attempt id pool_begin (\<lambda>_. set_context ctx)"

definition commit :: "(sqlx_error, unit) tx" where
  "commit c = (case wire c of
       Healthy \<Rightarrow> (Inr (), c\<lparr>committed := view c\<rparr>)
     | DropsAfter n landed \<Rightarrow>
         (case n of
            0 \<Rightarrow> (Inl Io, if landed then c\<lparr>committed := view c\<rparr> else c)
          | Suc k \<Rightarrow> (Inr (), c\<lparr>committed := view c, wire := DropsAfter k landed\<rparr>)))"

definition rollback :: "(sqlx_error, unit) tx" where
  "rollback = attempt id tick (\<lambda>_ c. (Inr (), c\<lparr>view := committed c\<rparr>))"

text \<open>
  \<open>conn.begin()\<close> on a transaction is a savepoint: when the body fails, the view and the settings go back to
  it, and the outer transaction goes on.
\<close>

definition savepoint :: "(sqlx_error \<Rightarrow> 'e) \<Rightarrow> ('e, 'a) tx \<Rightarrow> ('e, 'a) tx" where
  "savepoint f body = attempt f tick (\<lambda>_ c.
     (case body c of
        (Inl e, c') \<Rightarrow> (Inl e, c'\<lparr>view := view c, session := session c\<rparr>)
      | (Inr a, c') \<Rightarrow> (Inr a, c')))"

definition release_savepoint :: "(sqlx_error, unit) tx" where
  "release_savepoint = tick"

end
