(* ===== verification/TransactionLaws.thy ===== *)
theory TransactionLaws
  imports Transaction
begin

text \<open>
  The laws of the transaction monad. \<open>steady\<close>: a program that does not commit, and that computes the same
  on a healthy connection whenever it succeeds. \<open>atomic\<close>: whatever the connection does, the committed
  database is the old one or the one the healthy run commits, success means it was committed, and an error
  on a healthy connection means nothing was.
  \<open>moves R\<close>: the databases are related by \<open>R\<close>; \<open>traced\<close>: they are connected by single statements. The locale \<open>operation\<close> is the contract every
  operation of \<open>db\<close> fulfils; each is an interpretation of it. \<open>tx_simps\<close> evaluates a program on a healthy
  connection.
\<close>

section \<open>The healthy copy of a connection\<close>

definition heal :: "conn \<Rightarrow> conn" where
  "heal c = c\<lparr>wire := Healthy\<rparr>"

lemma heal_simps [simp]:
  "committed (heal c) = committed c" "view (heal c) = view c" "session (heal c) = session c"
  "clock (heal c) = clock c" "uuids (heal c) = uuids c" "drawn (heal c) = drawn c"
  "wire (heal c) = Healthy" "heal (heal c) = heal c"
  by (simp_all add: heal_def)

lemma heal_update [simp]:
  "heal (c\<lparr>view := d\<rparr>) = (heal c)\<lparr>view := d\<rparr>"
  "heal (c\<lparr>session := s\<rparr>) = (heal c)\<lparr>session := s\<rparr>"
  "heal (c\<lparr>committed := d\<rparr>) = (heal c)\<lparr>committed := d\<rparr>"
  "heal (c\<lparr>drawn := n\<rparr>) = (heal c)\<lparr>drawn := n\<rparr>"
  "heal (c\<lparr>wire := w\<rparr>) = heal c"
  by (simp_all add: heal_def)

lemma heal_id: "wire c = Healthy \<Longrightarrow> heal c = c"
  by (simp add: heal_def)

section \<open>Steady and atomic programs\<close>

definition steady :: "('e, 'a) tx \<Rightarrow> bool" where
  "steady m \<longleftrightarrow> (\<forall>c. committed (snd (m c)) = committed c
     \<and> (\<forall>a. fst (m c) = Inr a \<longrightarrow> m (heal c) = (Inr a, heal (snd (m c)))))"

definition atomic :: "('e, 'a) tx \<Rightarrow> bool" where
  "atomic m \<longleftrightarrow> (\<forall>c. (committed (snd (m c)) = committed c
        \<or> committed (snd (m c)) = committed (snd (m (heal c))))
     \<and> (\<forall>a. fst (m c) = Inr a \<longrightarrow> fst (m (heal c)) = Inr a
          \<and> committed (snd (m c)) = committed (snd (m (heal c))))
     \<and> (\<forall>e. wire c = Healthy \<longrightarrow> fst (m c) = Inl e \<longrightarrow> committed (snd (m c)) = committed c))"

lemma steadyD:
  "steady m \<Longrightarrow> m c = (r, c') \<Longrightarrow> committed c' = committed c"
  "steady m \<Longrightarrow> m c = (Inr a, c') \<Longrightarrow> m (heal c) = (Inr a, heal c')"
  by (auto simp: steady_def dest!: spec [of _ c])

lemma steadyI:
  "(\<And>c r c'. m c = (r, c') \<Longrightarrow> committed c' = committed c) \<Longrightarrow>
   (\<And>c a c'. m c = (Inr a, c') \<Longrightarrow> m (heal c) = (Inr a, heal c')) \<Longrightarrow> steady m"
  unfolding steady_def by (metis prod.collapse)

lemma tick_cases:
  "tick c = (r, c') \<Longrightarrow> (r = Inr () \<and> wire c = Healthy \<and> c' = c)
    \<or> (\<exists>w. r = Inr () \<and> c' = c\<lparr>wire := w\<rparr>) \<or> (r = Inl Io \<and> c' = c)"
  by (auto simp: tick_def split: wire.splits nat.splits)

lemma tick_heal [simp]: "tick (heal c) = (Inr (), heal c)"
  by (simp add: tick_def)

lemma steady_tick [steady_intros]: "steady tick"
  by (rule steadyI) (auto dest!: tick_cases)

lemma steady_ok [steady_intros]: "steady (ok a)"
  by (rule steadyI) (auto simp: ok_def)

lemma steady_throw [steady_intros]: "steady (throw e)"
  by (rule steadyI) (auto simp: throw_def)

lemma steady_attempt [steady_intros]:
  assumes m: "steady m" and k: "\<And>a. steady (k a)"
  shows "steady (attempt f m k)"
proof (rule steadyI)
  fix c r c'
  assume run: "attempt f m k c = (r, c')"
  obtain r1 c1 where mc: "m c = (r1, c1)" by fastforce
  with steadyD(1) [OF m mc] run show "committed c' = committed c"
    by (cases r1) (auto simp: attempt_def dest: steadyD(1) [OF k])
next
  fix c a c'
  assume "attempt f m k c = (Inr a, c')"
  then obtain x c1 where mc: "m c = (Inr x, c1)" and kc: "k x c1 = (Inr a, c')"
    by (auto simp: attempt_def split: prod.splits sum.splits)
  show "attempt f m k (heal c) = (Inr a, heal c')"
    using steadyD(2) [OF m mc] steadyD(2) [OF k kc] by (simp add: attempt_def)
qed

lemma steady_require [steady_intros]: "(\<And>a. steady (k a)) \<Longrightarrow> steady (require e x k)"
  by (simp add: require_def steady_throw split: option.split)

lemma steady_require_ok [steady_intros]: "(\<And>a. steady (k a)) \<Longrightarrow> steady (require_ok f x k)"
  by (simp add: require_ok_def steady_throw split: sum.split)

lemma steady_for_each [steady_intros]: "(\<And>x. steady (body x)) \<Longrightarrow> steady (for_each xs body)"
  by (induction xs) (auto intro!: steady_intros)

lemma steady_if [steady_intros]: "steady m \<Longrightarrow> steady n \<Longrightarrow> steady (if b then m else n)"
  by simp

lemma steady_now_v7 [steady_intros]: "steady now_v7"
  by (rule steadyI) (auto simp: now_v7_def)

lemma steady_pure_step: "(\<And>c r c'. g c = (r, c') \<Longrightarrow> committed c' = committed c \<and> g (heal c) = (r, heal c')) \<Longrightarrow> steady g"
  by (rule steadyI) auto

lemma steady_execute [steady_intros]: "steady (execute f)"
  unfolding execute_def
  by (intro steady_intros steady_pure_step) (auto split: sum.splits)

lemma steady_query [steady_intros]: "steady (query f)"
  unfolding query_def
  by (intro steady_intros steady_pure_step) auto

lemma steady_set_context [steady_intros]: "steady (set_context ctx)"
  unfolding set_context_def
  by (intro steady_intros steady_pure_step) (auto split: if_splits)

lemma steady_pool_begin [steady_intros]: "steady pool_begin"
  unfolding pool_begin_def
  by (intro steady_intros steady_pure_step) auto

lemma steady_begin_tx [steady_intros]: "steady (begin_tx ctx)"
  unfolding begin_tx_def by (intro steady_intros)

lemma steady_rollback [steady_intros]: "steady rollback"
  unfolding rollback_def
  by (intro steady_intros steady_pure_step) auto

lemma steady_release_savepoint [steady_intros]: "steady release_savepoint"
  unfolding release_savepoint_def by (rule steady_tick)

lemma steady_savepoint [steady_intros]:
  assumes b: "steady body"
  shows "steady (savepoint f body)"
  unfolding savepoint_def
proof (intro steady_intros steadyI)
  fix c r c'
  assume "(case body c of (Inl e, c') \<Rightarrow> (Inl e, c'\<lparr>view := view c, session := session c\<rparr>)
      | (Inr a, c') \<Rightarrow> (Inr a, c')) = (r, c')"
  then show "committed c' = committed c"
    by (auto split: prod.splits sum.splits dest: steadyD(1) [OF b])
next
  fix c a c'
  assume "(case body c of (Inl e, c') \<Rightarrow> (Inl e, c'\<lparr>view := view c, session := session c\<rparr>)
      | (Inr a, c') \<Rightarrow> (Inr a, c')) = (Inr a, c')"
  then have "body c = (Inr a, c')" by (auto split: prod.splits sum.splits)
  then show "(case body (heal c) of
        (Inl e, c') \<Rightarrow> (Inl e, c'\<lparr>view := view (heal c), session := session (heal c)\<rparr>)
      | (Inr a, c') \<Rightarrow> (Inr a, c')) = (Inr a, heal c')"
    by (simp add: steadyD(2) [OF b])
qed

lemma atomic_steady:
  assumes m: "steady m"
  shows "atomic m"
  unfolding atomic_def
proof (intro allI conjI impI)
  fix c :: conn and a
  have keeps: "committed (snd (m c)) = committed c"
    by (rule steadyD(1) [OF m, of c "fst (m c)"]) simp
  then show "committed (snd (m c)) = committed c
      \<or> committed (snd (m c)) = committed (snd (m (heal c)))" ..
  assume "fst (m c) = Inr a"
  then have "m c = (Inr a, snd (m c))" by (metis prod.collapse)
  then have h: "m (heal c) = (Inr a, heal (snd (m c)))" by (rule steadyD(2) [OF m])
  show "fst (m (heal c)) = Inr a" by (simp only: h fst_conv)
  show "committed (snd (m c)) = committed (snd (m (heal c)))"
    by (simp only: h snd_conv heal_simps)
next
  fix c :: conn
  show "committed (snd (m c)) = committed c"
    by (rule steadyD(1) [OF m, of c "fst (m c)"]) simp
qed

lemma steady_wire: "steady m \<Longrightarrow> m c = (Inr a, c') \<Longrightarrow> wire c = Healthy \<Longrightarrow> wire c' = Healthy"
  by (metis Pair_inject heal_id heal_simps(7) steadyD(2))

lemma atomic_ok [atomic_intros]: "atomic (ok a)"
  by (intro atomic_steady steady_intros)

lemma atomic_throw [atomic_intros]: "atomic (throw e)"
  by (intro atomic_steady steady_intros)

lemma atomic_commit_ok [atomic_intros]: "atomic (attempt f commit (\<lambda>_. ok a))"
  by (auto simp: atomic_def attempt_def commit_def ok_def split: wire.splits nat.splits)

lemma atomic_attempt [atomic_intros]:
  assumes m: "steady m" and k: "\<And>a. atomic (k a)"
  shows "atomic (attempt f m k)"
proof -
  have *: "(committed (snd (attempt f m k c)) = committed c
        \<or> committed (snd (attempt f m k c)) = committed (snd (attempt f m k (heal c))))
     \<and> (\<forall>a. fst (attempt f m k c) = Inr a \<longrightarrow> fst (attempt f m k (heal c)) = Inr a
          \<and> committed (snd (attempt f m k c)) = committed (snd (attempt f m k (heal c))))
     \<and> (\<forall>e. wire c = Healthy \<longrightarrow> fst (attempt f m k c) = Inl e \<longrightarrow>
          committed (snd (attempt f m k c)) = committed c)" for c
  proof (cases "m c")
    case (Pair r c1)
    show ?thesis
    proof (cases r)
      case (Inl e)
      then show ?thesis using steadyD(1) [OF m Pair] Pair by (simp add: attempt_def)
    next
      case (Inr x)
      with Pair have mc: "m c = (Inr x, c1)" by simp
      have c1: "committed c1 = committed c" using m mc by (rule steadyD(1))
      have run: "attempt f m k c = k x c1" by (simp add: attempt_def mc)
      have run': "attempt f m k (heal c) = k x (heal c1)"
        by (simp add: attempt_def steadyD(2) [OF m mc])
      from k [of x, unfolded atomic_def, THEN spec, of c1] steady_wire [OF m mc]
      show ?thesis unfolding run run' c1 by blast
    qed
  qed
  show ?thesis unfolding atomic_def by (rule allI) (rule *)
qed

lemma atomic_require [atomic_intros]: "(\<And>a. atomic (k a)) \<Longrightarrow> atomic (require e x k)"
  by (simp add: require_def atomic_throw split: option.split)

lemma atomic_require_ok [atomic_intros]: "(\<And>a. atomic (k a)) \<Longrightarrow> atomic (require_ok f x k)"
  by (simp add: require_ok_def atomic_throw split: sum.split)

lemma atomic_if [atomic_intros]: "atomic m \<Longrightarrow> atomic n \<Longrightarrow> atomic (if b then m else n)"
  by simp

section \<open>Traces\<close>

definition path :: "db \<Rightarrow> db \<Rightarrow> bool" where
  "path = (\<lambda>a b. \<exists>s. dml s a b)\<^sup>*\<^sup>*"

lemma path_refl [simp]: "path d d"
  by (simp add: path_def)

lemma path_trans: "path a b \<Longrightarrow> path b c \<Longrightarrow> path a c"
  by (simp add: path_def)

lemma path_dml: "dml s a b \<Longrightarrow> path a b"
  unfolding path_def by blast

lemma path_schema: "path a b \<Longrightarrow> schema_ok a \<Longrightarrow> schema_ok b"
  unfolding path_def by (induction rule: rtranclp_induct) (auto intro: dml_schema)

lemma path_history: "path a b \<Longrightarrow> history a b"
  unfolding path_def
  by (induction rule: rtranclp_induct) (auto intro: history_refl history_trans dml_history)

lemma begin_tx_cases:
  "begin_tx ctx c = (r, c1) \<Longrightarrow> committed c1 = committed c \<and> (\<forall>u. r = Inr u \<longrightarrow> view c1 = committed c)"
  by (auto simp: begin_tx_def pool_begin_def set_context_def attempt_def tick_def
      split: wire.splits nat.splits if_splits)

text \<open>
  \<open>moves R m\<close>: whatever \<open>m\<close> commits, and whatever it leaves uncommitted, is related by \<open>R\<close> to what was
  committed before. The rules hold for every reflexive and transitive \<open>R\<close> and are proved once, in the
  locale; a statement needs a rule of its own for each relation.
\<close>

definition moves :: "(db \<Rightarrow> db \<Rightarrow> bool) \<Rightarrow> ('e, 'a) tx \<Rightarrow> bool" where
  "moves R m \<longleftrightarrow> (\<forall>c. R (committed c) (view c) \<longrightarrow>
     R (committed c) (committed (snd (m c)))
     \<and> R (committed (snd (m c))) (view (snd (m c))))"

lemma movesI:
  "(\<And>c r c'. m c = (r, c') \<Longrightarrow> R (committed c) (view c) \<Longrightarrow>
     R (committed c) (committed c') \<and> R (committed c') (view c')) \<Longrightarrow> moves R m"
  unfolding moves_def by (metis prod.collapse)

lemma movesD:
  "moves R m \<Longrightarrow> m c = (r, c') \<Longrightarrow> R (committed c) (view c) \<Longrightarrow>
     R (committed c) (committed c') \<and> R (committed c') (view c')"
  unfolding moves_def by (metis snd_conv)

locale step_relation =
  fixes R :: "db \<Rightarrow> db \<Rightarrow> bool"
  assumes R_refl [simp]: "R d d"
    and R_trans: "R a b \<Longrightarrow> R b d \<Longrightarrow> R a d"
begin

lemma moves_tick [keeps_intros]: "moves R tick"
  by (rule movesI) (auto dest!: tick_cases)

lemma moves_ok [keeps_intros]: "moves R (ok a)"
  by (rule movesI) (auto simp: ok_def)

lemma moves_throw [keeps_intros]: "moves R (throw e)"
  by (rule movesI) (auto simp: throw_def)

lemma moves_attempt [keeps_intros]:
  assumes m: "moves R m" and k: "\<And>a. moves R (k a)"
  shows "moves R (attempt f m k)"
proof (rule movesI)
  fix c r c'
  assume run: "attempt f m k c = (r, c')" and c: "R (committed c) (view c)"
  show "R (committed c) (committed c') \<and> R (committed c') (view c')"
  proof (cases "m c")
    case (Pair r1 c1)
    have 1: "R (committed c) (committed c1) \<and> R (committed c1) (view c1)"
      using movesD [OF m Pair c] .
    show ?thesis
    proof (cases r1)
      case (Inl e)
      with run Pair 1 show ?thesis by (simp add: attempt_def)
    next
      case (Inr a)
      with run Pair have "k a c1 = (r, c')" by (simp add: attempt_def)
      with 1 show ?thesis using movesD [OF k] R_trans by blast
    qed
  qed
qed

lemma moves_require [keeps_intros]: "(\<And>a. moves R (k a)) \<Longrightarrow> moves R (require e x k)"
  by (simp add: require_def moves_throw split: option.split)

lemma moves_require_ok [keeps_intros]: "(\<And>a. moves R (k a)) \<Longrightarrow> moves R (require_ok f x k)"
  by (simp add: require_ok_def moves_throw split: sum.split)

lemma moves_if [keeps_intros]: "moves R m \<Longrightarrow> moves R n \<Longrightarrow> moves R (if b then m else n)"
  by simp

lemma moves_for_each [keeps_intros]: "(\<And>x. moves R (body x)) \<Longrightarrow> moves R (for_each xs body)"
  by (induction xs) (auto intro!: keeps_intros)

lemma moves_step:
  "(\<And>c r c'. g c = (r, c') \<Longrightarrow> committed c' = committed c \<and> R (view c) (view c')) \<Longrightarrow> moves R g"
  by (rule movesI) (metis R_trans R_refl)

lemma moves_now_v7 [keeps_intros]: "moves R now_v7"
  by (rule moves_step) (auto simp: now_v7_def)

lemma moves_query [keeps_intros]: "moves R (query f)"
  unfolding query_def by (intro keeps_intros moves_step) auto

lemma moves_execute:
  "(\<And>s d a d'. f s d = Inr (a, d') \<Longrightarrow> R d d') \<Longrightarrow> moves R (execute f)"
  unfolding execute_def
  by (intro keeps_intros moves_step) (force split: sum.splits)

lemma moves_set_context [keeps_intros]: "moves R (set_context ctx)"
  unfolding set_context_def by (intro keeps_intros moves_step) (auto split: if_splits)

lemma moves_pool_begin [keeps_intros]: "moves R pool_begin"
  unfolding pool_begin_def by (intro keeps_intros movesI) auto

lemma moves_begin_tx [keeps_intros]: "moves R (begin_tx ctx)"
  unfolding begin_tx_def by (intro keeps_intros)

lemma moves_rollback [keeps_intros]: "moves R rollback"
  unfolding rollback_def by (intro keeps_intros movesI) auto

lemma moves_release_savepoint [keeps_intros]: "moves R release_savepoint"
  unfolding release_savepoint_def by (rule moves_tick)

lemma moves_commit [keeps_intros]: "moves R commit"
  by (rule movesI) (auto simp: commit_def split: wire.splits nat.splits if_splits)

lemma moves_savepoint [keeps_intros]:
  assumes "moves R body" and "steady body"
  shows "moves R (savepoint f body)"
  unfolding savepoint_def
  by (intro keeps_intros movesI)
    (auto split: prod.splits sum.splits dest: movesD [OF assms(1)] steadyD(1) [OF assms(2)])

lemma committed_if [keeps_intros]:
  "R d (committed (snd (m c))) \<Longrightarrow> R d (committed (snd (n c))) \<Longrightarrow>
    R d (committed (snd ((if b then m else n) c)))"
  by simp

lemma committed_throw [keeps_intros]: "R (committed c) (committed (snd (throw e c)))"
  by (simp add: throw_def)

text \<open>A transaction that starts with \<open>begin\<close> relates the committed databases.\<close>

lemma moves_fresh:
  assumes m: "\<And>c r c1. m c = (r, c1) \<Longrightarrow> committed c1 = committed c \<and> (\<forall>u. r = Inr u \<longrightarrow> view c1 = committed c)"
    and k: "\<And>u. moves R (k u)"
  shows "R (committed c) (committed (snd (attempt f m k c)))"
proof -
  obtain r c1 where b: "m c = (r, c1)" by fastforce
  show ?thesis
  proof (cases r)
    case (Inl e)
    with b m [OF b] show ?thesis by (simp add: attempt_def)
  next
    case (Inr u)
    obtain r' c' where run: "k u c1 = (r', c')" by fastforce
    have "R (committed c1) (view c1)" using m [OF b] Inr by simp
    then have "R (committed c1) (committed c')" using movesD [OF k run] by simp
    with b Inr run m [OF b] show ?thesis by (simp add: attempt_def)
  qed
qed

lemma moves_begin [keeps_intros]:
  "(\<And>u. moves R (k u)) \<Longrightarrow> R (committed c) (committed (snd (attempt f (begin_tx ctx) k c)))"
  by (rule moves_fresh) (rule begin_tx_cases)

lemma moves_pool_begin_first [keeps_intros]:
  "(\<And>u. moves R (k u)) \<Longrightarrow> R (committed c) (committed (snd (attempt f pool_begin k c)))"
  by (rule moves_fresh) (auto simp: pool_begin_def attempt_def dest!: tick_cases split: sum.splits prod.splits)

end

interpretation path: step_relation path
  by unfold_locales (auto intro: path_trans)

abbreviation traced :: "('e, 'a) tx \<Rightarrow> bool" where
  "traced \<equiv> moves path"

lemma traced_execute:
  "(\<And>s d a d'. f s d = Inr (a, d') \<Longrightarrow> dml s d d') \<Longrightarrow> traced (execute f)"
  by (rule path.moves_execute) (blast intro: path_dml)

lemma traced_dml [keeps_intros]:
  "traced (execute (\<lambda>s. insert_actor s i n))"
  "traced (execute (\<lambda>s. insert_user s i e h))"
  "traced (execute (\<lambda>s. delete_user s i))"
  "traced (execute (\<lambda>s. erase_actor s i))"
  "traced (execute (\<lambda>s. insert_organization s i n sl))"
  "traced (execute (\<lambda>s. insert_member s org a role st))"
  "traced (execute (\<lambda>s. set_member_role s org a ro))"
  "traced (execute (\<lambda>s. set_member_status s org a stat))"
  "traced (execute (\<lambda>s. set_member_left s org a))"
  "traced (execute (\<lambda>s. insert_team s i org n))"
  "traced (execute (\<lambda>s. insert_team_member s t a org tr))"
  "traced (execute (\<lambda>s. set_team_member_role s org t a tr))"
  "traced (execute (\<lambda>s. delete_team_member s org t a))"
  "traced (execute (\<lambda>s. delete_team_memberships s org a))"
  "traced (execute (\<lambda>s. insert_channel s i org tm sc n))"
  "traced (execute (\<lambda>s. insert_channel_member s org ch a))"
  "traced (execute (\<lambda>s. delete_channel_memberships s org a))"
  "traced (execute (\<lambda>s. bump_channel s ch org))"
  "traced (execute (\<lambda>s. insert_message s (mr s)))"
  "traced (execute (\<lambda>s. insert_invite s i org th ex mu cr))"
  "traced (execute (\<lambda>s. use_invite s th))"
  "traced (execute (\<lambda>s. set_invite_revoked s org i))"
  "traced (execute (\<lambda>s. insert_session s i a th ex))"
  "traced (execute (\<lambda>s. set_session_revoked s a th))"
  "traced (execute (\<lambda>s. insert_audit s (ar s)))"
  by (rule traced_execute, erule dml.intros)+

section \<open>The contract of an operation\<close>

locale operation =
  fixes op :: "('e, 'a) tx"
  assumes op_atomic: "atomic op"
    and op_traced: "path (committed c) (committed (snd (op c)))"
begin

lemma all_or_nothing:
  "committed (snd (op c)) = committed c \<or> committed (snd (op c)) = committed (snd (op (heal c)))"
  using op_atomic by (simp add: atomic_def)

lemma success_is_committed:
  "op c = (Inr a, c') \<Longrightarrow> fst (op (heal c)) = Inr a \<and> committed c' = committed (snd (op (heal c)))"
  using op_atomic unfolding atomic_def by (metis fst_conv snd_conv)

lemma failure_changes_nothing:
  "wire c = Healthy \<Longrightarrow> op c = (Inl e, c') \<Longrightarrow> committed c' = committed c"
  using op_atomic unfolding atomic_def by (metis fst_conv snd_conv)

lemma contract:
  "(committed (snd (op c)) = committed c \<or> committed (snd (op c)) = committed (snd (op (heal c))))
   \<and> (\<not> isl (fst (op c)) \<longrightarrow> \<not> isl (fst (op (heal c))) \<and> committed (snd (op c)) = committed (snd (op (heal c))))
   \<and> (wire c = Healthy \<and> isl (fst (op c)) \<longrightarrow> committed (snd (op c)) = committed c)"
  using op_atomic unfolding atomic_def by (metis isl_def sum.collapse(2) sum.disc(2))

lemma keeps_schema: "schema_ok (committed c) \<Longrightarrow> schema_ok (committed (snd (op c)))"
  using op_traced by (rule path_schema)

lemma keeps_history: "history (committed c) (committed (snd (op c)))"
  using op_traced by (rule path_history)

lemma keeps_invariant:
  assumes "\<And>c. wire c = Healthy \<Longrightarrow> P (committed c) \<Longrightarrow> P (committed (snd (op c)))"
    and "P (committed c)"
  shows "P (committed (snd (op c)))"
  using all_or_nothing [of c] assms(1) [of "heal c"] assms(2) by auto

lemma keeps_on_success:
  assumes "\<And>c x c'. wire c = Healthy \<Longrightarrow> op c = (Inr x, c') \<Longrightarrow> P (committed c) \<Longrightarrow> P (committed c')"
    and "P (committed c)"
  shows "P (committed (snd (op c)))"
proof (rule keeps_invariant [where P = P])
  show "P (committed c)" by (rule assms(2))
next
  fix c :: conn
  assume h: "wire c = Healthy" and p: "P (committed c)"
  obtain r c' where run: "op c = (r, c')" by fastforce
  show "P (committed (snd (op c)))"
  proof (cases r)
    case (Inl e)
    then have "committed c' = committed c" using run failure_changes_nothing [OF h] by blast
    then show ?thesis using p run by simp
  next
    case (Inr x)
    then have "P (committed c')" using run assms(1) [OF h _ p] by blast
    then show ?thesis using run by simp
  qed
qed

lemma relates:
  assumes "\<And>c. wire c = Healthy \<Longrightarrow> R (committed c) (committed (snd (op c)))"
    and "\<And>d. R d d"
  shows "R (committed c) (committed (snd (op c)))"
  using all_or_nothing [of c] assms(1) [of "heal c"] assms(2) by (metis heal_simps(1,7))

end

section \<open>Evaluation on a healthy connection\<close>

lemma attempt_assoc [tx_simps]:
  "attempt f (attempt g m k) k' = attempt (\<lambda>e. f (g e)) m (\<lambda>a. attempt f (k a) k')"
  by (rule ext) (auto simp: attempt_def split: prod.splits sum.splits)

lemma attempt_tick [tx_simps]: "wire c = Healthy \<Longrightarrow> attempt f tick k c = k () c"
  by (simp add: attempt_def tick_def)

lemma attempt_execute [tx_simps]:
  "wire c = Healthy \<Longrightarrow> attempt f (execute g) k c =
     (case g (session c) (view c) of
        Inl e \<Rightarrow> (Inl (f e), c)
      | Inr (a, d) \<Rightarrow> k a (c\<lparr>view := d\<rparr>))"
  by (simp add: execute_def attempt_def tick_def split: sum.splits prod.splits)

lemma attempt_query [tx_simps]:
  "wire c = Healthy \<Longrightarrow> attempt f (query g) k c = k (g (session c) (view c)) c"
  by (simp add: query_def attempt_def tick_def)

lemma attempt_now_v7 [tx_simps]:
  "attempt f now_v7 k c = k (uuids c (drawn c)) (c\<lparr>drawn := Suc (drawn c)\<rparr>)"
  by (simp add: now_v7_def attempt_def)

text \<open>The settings of a transaction begun for a context.\<close>

definition session_for :: "context_setting \<Rightarrow> conn \<Rightarrow> session" where
  "session_for ctx c = apply_context ctx (fresh_session (Suc (xid (session c))) (clock c))"

lemma session_for_simps [simp]:
  "actor_setting (session_for (Actor a) c) = Some a"
  "actor_setting (session_for (SessionTokenContext h) c) = None"
  "actor_setting (session_for (SignInEmail e) c) = None"
  "actor_setting (session_for (InviteTokenContext h) c) = None"
  "session_token_setting (session_for (Actor a) c) = None"
  "session_token_setting (session_for (SessionTokenContext h) c) = Some (hash_str h)"
  "sign_in_email_setting (session_for (Actor a) c) = None"
  "sign_in_email_setting (session_for (SignInEmail e) c) = Some e"
  "invite_token_setting (session_for (Actor a) c) = None"
  "invite_token_setting (session_for (InviteTokenContext h) c) = Some (hash_str h)"
  "tx_now (session_for ctx c) = clock c"
  "xid (session_for ctx c) = Suc (xid (session c))"
  by (simp_all add: session_for_def fresh_session_def) (cases ctx; simp)+

lemma is_self_session_for [simp]: "is_self (session_for (Actor a) c) x \<longleftrightarrow> x = a"
  by (auto simp: is_self_def)

lemma attempt_begin [tx_simps]:
  "wire c = Healthy \<Longrightarrow> attempt f (begin_tx ctx) k c =
     (if context_bindable ctx then k () (c\<lparr>view := committed c, session := session_for ctx c\<rparr>)
      else (Inl (f InvalidText), c\<lparr>view := committed c,
             session := fresh_session (Suc (xid (session c))) (clock c)\<rparr>))"
  by (simp add: begin_tx_def pool_begin_def set_context_def attempt_def tick_def session_for_def)

lemma attempt_commit [tx_simps]:
  "wire c = Healthy \<Longrightarrow> attempt f commit k c = k () (c\<lparr>committed := view c\<rparr>)"
  by (simp add: commit_def attempt_def)

lemma attempt_rollback [tx_simps]:
  "wire c = Healthy \<Longrightarrow> attempt f rollback k c = k () (c\<lparr>view := committed c\<rparr>)"
  by (simp add: rollback_def attempt_def tick_def)

lemma attempt_set_context [tx_simps]:
  "wire c = Healthy \<Longrightarrow> context_bindable ctx \<Longrightarrow> attempt f (set_context ctx) k c =
     k () (c\<lparr>session := apply_context ctx (session c)\<rparr>)"
  by (simp add: set_context_def attempt_def tick_def)

lemma attempt_ok [tx_simps]: "attempt f (ok a) k c = k a c"
  by (simp add: attempt_def ok_def)

lemma attempt_throw [tx_simps]: "attempt f (throw e) k c = (Inl (f e), c)"
  by (simp add: attempt_def throw_def)

lemma ok_apply [tx_simps]: "ok a c = (Inr a, c)"
  by (simp add: ok_def)

lemma throw_apply [tx_simps]: "throw e c = (Inl e, c)"
  by (simp add: throw_def)

lemma require_simps [tx_simps]:
  "require e None k = throw e"
  "require e (Some a) k = k a"
  by (simp_all add: require_def)

lemma require_ok_simps [tx_simps]:
  "require_ok f (Inl e) k' = throw (f e)"
  "require_ok f (Inr a) k' = k' a"
  by (simp_all add: require_ok_def)

section \<open>Inversion of a successful run\<close>

text \<open>
  Rewriting with \<open>run_simps\<close> turns \<open>op c = (Inr x, c')\<close> on a healthy connection into the conditions under
  which every step succeeded and the final connection.
\<close>

lemma attempt_Inr:
  "attempt f m k c = (Inr b, c') \<longleftrightarrow> (\<exists>a c1. m c = (Inr a, c1) \<and> k a c1 = (Inr b, c'))"
  by (auto simp: attempt_def split: prod.splits sum.splits)

lemma run_attempt_assoc [run_simps]:
  "attempt f (attempt g m k) k' = attempt (\<lambda>e. f (g e)) m (\<lambda>a. attempt f (k a) k')"
  by (rule attempt_assoc)

lemma run_begin [run_simps]:
  "wire c = Healthy \<Longrightarrow> attempt f (begin_tx ctx) k c = (Inr b, c') \<longleftrightarrow>
     context_bindable ctx \<and> k () (c\<lparr>view := committed c, session := session_for ctx c\<rparr>) = (Inr b, c')"
  by (simp add: attempt_begin)

lemma run_pool_begin [run_simps]:
  "wire c = Healthy \<Longrightarrow> attempt f pool_begin k c = (Inr b, c') \<longleftrightarrow>
     k () (c\<lparr>view := committed c, session := fresh_session (Suc (xid (session c))) (clock c)\<rparr>) = (Inr b, c')"
  by (simp add: pool_begin_def attempt_def tick_def)

lemma run_execute [run_simps]:
  "wire c = Healthy \<Longrightarrow> attempt f (execute g) k c = (Inr b, c') \<longleftrightarrow>
     (\<exists>a d. g (session c) (view c) = Inr (a, d) \<and> k a (c\<lparr>view := d\<rparr>) = (Inr b, c'))"
  by (auto simp: attempt_execute split: sum.splits)

lemma run_query [run_simps]:
  "wire c = Healthy \<Longrightarrow> attempt f (query g) k c = (Inr b, c') \<longleftrightarrow> k (g (session c) (view c)) c = (Inr b, c')"
  by (simp add: attempt_query)

lemma run_now_v7 [run_simps]:
  "attempt f now_v7 k c = (Inr b, c') \<longleftrightarrow>
     k (uuids c (drawn c)) (c\<lparr>drawn := Suc (drawn c)\<rparr>) = (Inr b, c')"
  by (simp add: attempt_now_v7)

lemma run_commit [run_simps]:
  "wire c = Healthy \<Longrightarrow> attempt f commit k c = (Inr b, c') \<longleftrightarrow> k () (c\<lparr>committed := view c\<rparr>) = (Inr b, c')"
  by (simp add: attempt_commit)

lemma run_ok [run_simps]:
  "attempt f (ok a) k c = (Inr b, c') \<longleftrightarrow> k a c = (Inr b, c')"
  by (simp add: attempt_ok)

lemma run_ok_end [run_simps]: "ok a c = (r, c') \<longleftrightarrow> r = Inr a \<and> c' = c"
  by (auto simp: ok_def)

lemma run_throw [run_simps]: "attempt f (throw e) k = throw (f e)"
  by (rule ext) (simp add: attempt_throw throw_def)

lemma run_throw_end [run_simps]: "throw e c \<noteq> (Inr b, c')"
  by (simp add: throw_def)

lemma run_require [run_simps]:
  "require e x k c = (Inr b, c') \<longleftrightarrow> (\<exists>a. x = Some a \<and> k a c = (Inr b, c'))"
  by (auto simp: require_def throw_def split: option.splits)

lemma run_require_assoc [run_simps]:
  "attempt f (require e x k) k' = require (f e) x (\<lambda>a. attempt f (k a) k')"
  by (rule ext) (simp add: require_def attempt_throw throw_def split: option.splits)

lemma run_require_ok [run_simps]:
  "require_ok g x k c = (Inr b, c') \<longleftrightarrow> (\<exists>a. x = Inr a \<and> k a c = (Inr b, c'))"
  by (auto simp: require_ok_def throw_def split: sum.splits)

lemma run_require_ok_assoc [run_simps]:
  "attempt f (require_ok g x k) k' = require_ok (\<lambda>e. f (g e)) x (\<lambda>a. attempt f (k a) k')"
  by (rule ext) (simp add: require_ok_def attempt_throw throw_def split: sum.splits)

lemma run_if [run_simps]:
  "(if p then m else n) c = (Inr b, c') \<longleftrightarrow> p \<and> m c = (Inr b, c') \<or> \<not> p \<and> n c = (Inr b, c')"
  by auto

lemma run_if_assoc [run_simps]:
  "attempt f (if p then m else n) k = (if p then attempt f m k else attempt f n k)"
  by auto

lemma run_rollback [run_simps]:
  "wire c = Healthy \<Longrightarrow> attempt f rollback k c = (Inr b, c') \<longleftrightarrow> k () (c\<lparr>view := committed c\<rparr>) = (Inr b, c')"
  by (simp add: attempt_rollback)

lemma run_tick [run_simps]:
  "wire c = Healthy \<Longrightarrow> attempt f tick k c = (Inr b, c') \<longleftrightarrow> k () c = (Inr b, c')"
  by (simp add: attempt_tick)

lemma run_release [run_simps]:
  "wire c = Healthy \<Longrightarrow> attempt f release_savepoint k c = (Inr b, c') \<longleftrightarrow> k () c = (Inr b, c')"
  by (simp add: release_savepoint_def attempt_tick)

lemma run_set_context [run_simps]:
  "wire c = Healthy \<Longrightarrow> attempt f (set_context ctx) k c = (Inr b, c') \<longleftrightarrow>
     context_bindable ctx \<and> k () (c\<lparr>session := apply_context ctx (session c)\<rparr>) = (Inr b, c')"
  by (simp add: set_context_def attempt_def tick_def)

lemma run_savepoint [run_simps]:
  "wire c = Healthy \<Longrightarrow> attempt f (savepoint g body) k c = (Inr b, c') \<longleftrightarrow>
     (\<exists>a c1. body c = (Inr a, c1) \<and> k a c1 = (Inr b, c'))"
  by (auto simp: savepoint_def attempt_def tick_def split: prod.splits sum.splits)

lemma run_option [run_simps]:
  "(case x of None \<Rightarrow> m | Some a \<Rightarrow> k a) c = (Inr b, c') \<longleftrightarrow>
     (x = None \<and> m c = (Inr b, c')) \<or> (\<exists>a. x = Some a \<and> k a c = (Inr b, c'))"
  by (cases x) auto

lemma run_option_assoc [run_simps]:
  "attempt f (case x of None \<Rightarrow> m | Some a \<Rightarrow> k a) k' =
     (case x of None \<Rightarrow> attempt f m k' | Some a \<Rightarrow> attempt f (k a) k')"
  by (simp split: option.split)

end
