(* ===== verification/AuditLog.thy ===== *)
theory AuditLog
  imports TransactionLaws
begin

text \<open>
  \<open>crates/db/src/audit.rs\<close>: one typed constructor per audit action, and \<open>Event::write\<close>.
\<close>

datatype removal_reason = Removed | LeftService

record event =
  ev_action :: string
  ev_target_type :: string
  ev_target_id :: uuid
  ev_metadata :: "(string \<times> meta) list"

definition invite_created :: "organization_id \<Rightarrow> invite_id \<Rightarrow> int \<Rightarrow> event" where
  "invite_created organization invite max_uses =
     \<lparr>ev_action = ''invite.created'', ev_target_type = ''organization'', ev_target_id = organization,
      ev_metadata = [(''invite_id'', MId invite),
        (''kind'', MStr (invite_kind_str OrganizationInvite)), (''max_uses'', MInt max_uses)]\<rparr>"

definition invite_revoked :: "organization_id \<Rightarrow> invite_id \<Rightarrow> event" where
  "invite_revoked organization invite =
     \<lparr>ev_action = ''invite.revoked'', ev_target_type = ''organization'', ev_target_id = organization,
      ev_metadata = [(''invite_id'', MId invite)]\<rparr>"

definition member_invited :: "actor_id \<Rightarrow> invite_id \<Rightarrow> event" where
  "member_invited actor invite =
     \<lparr>ev_action = ''organization.member.added'', ev_target_type = ''actor'', ev_target_id = actor,
      ev_metadata = [(''role'', MStr (role_str Member)), (''invite_id'', MId invite)]\<rparr>"

definition organization_created :: "organization_id \<Rightarrow> event" where
  "organization_created i =
     \<lparr>ev_action = ''organization.created'', ev_target_type = ''organization'', ev_target_id = i,
      ev_metadata = []\<rparr>"

definition member_added :: "actor_id \<Rightarrow> organization_role \<Rightarrow> event" where
  "member_added i role =
     \<lparr>ev_action = ''organization.member.added'', ev_target_type = ''actor'', ev_target_id = i,
      ev_metadata = [(''role'', MStr (role_str role))]\<rparr>"

definition member_role_changed :: "actor_id \<Rightarrow> organization_role \<Rightarrow> organization_role \<Rightarrow> event" where
  "member_role_changed i from_role to_role =
     \<lparr>ev_action = ''organization.member.role_changed'', ev_target_type = ''actor'', ev_target_id = i,
      ev_metadata = [(''from'', MStr (role_str from_role)), (''to'', MStr (role_str to_role))]\<rparr>"

definition member_suspended :: "actor_id \<Rightarrow> event" where
  "member_suspended i =
     \<lparr>ev_action = ''organization.member.suspended'', ev_target_type = ''actor'', ev_target_id = i,
      ev_metadata = []\<rparr>"

definition member_reactivated :: "actor_id \<Rightarrow> event" where
  "member_reactivated i =
     \<lparr>ev_action = ''organization.member.reactivated'', ev_target_type = ''actor'', ev_target_id = i,
      ev_metadata = []\<rparr>"

definition member_left :: "actor_id \<Rightarrow> event" where
  "member_left i =
     \<lparr>ev_action = ''organization.member.left'', ev_target_type = ''actor'', ev_target_id = i,
      ev_metadata = []\<rparr>"

definition team_created :: "team_id \<Rightarrow> event" where
  "team_created i =
     \<lparr>ev_action = ''team.created'', ev_target_type = ''team'', ev_target_id = i, ev_metadata = []\<rparr>"

definition team_member_added :: "actor_id \<Rightarrow> team_id \<Rightarrow> team_role \<Rightarrow> event" where
  "team_member_added i team role =
     \<lparr>ev_action = ''team.member.added'', ev_target_type = ''actor'', ev_target_id = i,
      ev_metadata = [(''team_id'', MId team), (''role'', MStr (team_role_str role))]\<rparr>"

definition team_member_role_changed ::
    "actor_id \<Rightarrow> team_id \<Rightarrow> team_role \<Rightarrow> team_role \<Rightarrow> event" where
  "team_member_role_changed i team from_role to_role =
     \<lparr>ev_action = ''team.member.role_changed'', ev_target_type = ''actor'', ev_target_id = i,
      ev_metadata = [(''team_id'', MId team), (''from'', MStr (team_role_str from_role)),
        (''to'', MStr (team_role_str to_role))]\<rparr>"

definition team_member_removed :: "actor_id \<Rightarrow> team_id \<Rightarrow> removal_reason \<Rightarrow> event" where
  "team_member_removed i team reason =
     (let reason = (case reason of Removed \<Rightarrow> ''removed'' | LeftService \<Rightarrow> ''left_service'')
      in \<lparr>ev_action = ''team.member.removed'', ev_target_type = ''actor'', ev_target_id = i,
          ev_metadata = [(''team_id'', MId team), (''reason'', MStr reason)]\<rparr>)"

definition channel_created :: "channel_id \<Rightarrow> channel_scope \<Rightarrow> event" where
  "channel_created i scope =
     \<lparr>ev_action = ''channel.created'', ev_target_type = ''channel'', ev_target_id = i,
      ev_metadata = (case scope of
          OrganizationScope \<Rightarrow> [(''scope'', MStr (scope_str scope))]
        | TeamScope team \<Rightarrow> [(''scope'', MStr (scope_str scope)), (''team_id'', MId team)])\<rparr>"

definition channel_member_added :: "actor_id \<Rightarrow> channel_id \<Rightarrow> event" where
  "channel_member_added i channel =
     \<lparr>ev_action = ''channel.member.added'', ev_target_type = ''actor'', ev_target_id = i,
      ev_metadata = [(''channel_id'', MId channel)]\<rparr>"

definition channel_member_left :: "actor_id \<Rightarrow> channel_id \<Rightarrow> event" where
  "channel_member_left i channel =
     \<lparr>ev_action = ''channel.member.removed'', ev_target_type = ''actor'', ev_target_id = i,
      ev_metadata = [(''channel_id'', MId channel), (''reason'', MStr ''left_service'')]\<rparr>"

definition audit_row_of :: "uuid \<Rightarrow> event \<Rightarrow> organization_id \<Rightarrow> actor_id \<Rightarrow> audit_row" where
  "audit_row_of i ev organization performed_by =
     \<lparr>ae_id = i, ae_org = organization, ae_actor = performed_by, ae_action = ev_action ev,
      ae_target_type = ev_target_type ev, ae_target_id = ev_target_id ev,
      ae_metadata = ev_metadata ev\<rparr>"

text \<open>\<open>Event::write\<close>: a fresh id, then one INSERT in the caller's transaction.\<close>

definition write_event :: "event \<Rightarrow> organization_id \<Rightarrow> actor_id \<Rightarrow> (sqlx_error, unit) tx" where
  "write_event ev organization performed_by =
     attempt id now_v7 (\<lambda>i.
     execute (\<lambda>s. insert_audit s (audit_row_of i ev organization performed_by)))"

lemmas event_defs = invite_created_def invite_revoked_def member_invited_def organization_created_def
  member_added_def member_role_changed_def member_suspended_def member_reactivated_def
  member_left_def team_created_def team_member_added_def team_member_role_changed_def
  team_member_removed_def channel_created_def channel_member_added_def channel_member_left_def

text \<open>Every action and target type the code can write passes the table's CHECK constraints.\<close>

definition event_ok :: "event \<Rightarrow> bool" where
  "event_ok ev \<longleftrightarrow> action_ok (ev_action ev) \<and> ev_target_type ev \<in> set audit_target_types"

lemma action_ok_literals:
  "action_ok ''invite.created''" "action_ok ''invite.revoked''"
  "action_ok ''organization.member.added''" "action_ok ''organization.created''"
  "action_ok ''organization.member.role_changed''" "action_ok ''organization.member.suspended''"
  "action_ok ''organization.member.reactivated''" "action_ok ''organization.member.left''"
  "action_ok ''team.created''" "action_ok ''team.member.added''"
  "action_ok ''team.member.role_changed''" "action_ok ''team.member.removed''"
  "action_ok ''channel.created''" "action_ok ''channel.member.added''"
  "action_ok ''channel.member.removed''"
  by code_simp+

lemma event_ok [simp]:
  "event_ok (invite_created org i n)" "event_ok (invite_revoked org i)" "event_ok (member_invited a i)"
  "event_ok (organization_created org)" "event_ok (member_added a r)"
  "event_ok (member_role_changed a r r')" "event_ok (member_suspended a)"
  "event_ok (member_reactivated a)" "event_ok (member_left a)" "event_ok (team_created t)"
  "event_ok (team_member_added a t tr)" "event_ok (team_member_role_changed a t tr tr')"
  "event_ok (team_member_removed a t reason)" "event_ok (channel_created ch sc)"
  "event_ok (channel_member_added a ch)" "event_ok (channel_member_left a ch)"
  by (simp_all add: event_ok_def event_defs action_ok_literals audit_target_types_def)

lemma steady_write_event [steady_intros]: "steady (write_event ev org a)"
  unfolding write_event_def by (intro steady_intros)

lemma traced_write_event [keeps_intros]: "traced (write_event ev org a)"
  unfolding write_event_def by (intro keeps_intros)

text \<open>What a write needs, and what it adds.\<close>

definition audit_admitted :: "session \<Rightarrow> db \<Rightarrow> uuid \<Rightarrow> event \<Rightarrow> organization_id \<Rightarrow> actor_id \<Rightarrow> bool" where
  "audit_admitted s d i ev org a \<longleftrightarrow> may_insert_audit s d (audit_row_of i ev org a)
     \<and> i \<notin> key_set ae_id (audit_events d) \<and> org \<in> key_set o_id (organizations d)
     \<and> a \<in> key_set a_id (actors d)"

lemma insert_audit_eq:
  assumes "event_ok ev"
  shows "insert_audit s (audit_row_of i ev org a) d = Inr (u, d')
    \<longleftrightarrow> audit_admitted s d i ev org a
      \<and> d' = d\<lparr>audit_events := audit_events d @ [audit_row_of i ev org a]\<rparr>"
  using assms
  by (auto simp: insert_audit_def checked_Inr audit_admitted_def audit_row_of_def event_ok_def)

text \<open>The database with one more audit record.\<close>

definition audited :: "uuid \<Rightarrow> event \<Rightarrow> organization_id \<Rightarrow> actor_id \<Rightarrow> db \<Rightarrow> db" where
  "audited i ev org p d = d\<lparr>audit_events := audit_events d @ [audit_row_of i ev org p]\<rparr>"

lemma audited_simps [simp]:
  "actors (audited i ev org p d) = actors d" "users (audited i ev org p d) = users d"
  "organizations (audited i ev org p d) = organizations d"
  "organization_members (audited i ev org p d) = organization_members d"
  "teams (audited i ev org p d) = teams d" "team_members (audited i ev org p d) = team_members d"
  "invites (audited i ev org p d) = invites d" "sessions (audited i ev org p d) = sessions d"
  "channels (audited i ev org p d) = channels d"
  "channel_members (audited i ev org p d) = channel_members d"
  "messages (audited i ev org p d) = messages d"
  "audit_events (audited i ev org p d) = audit_events d @ [audit_row_of i ev org p]"
  by (simp_all add: audited_def)

lemma run_write_event [run_simps]:
  "wire c = Healthy \<Longrightarrow> event_ok ev \<Longrightarrow> attempt f (write_event ev org a) k c = (Inr b, c') \<longleftrightarrow>
     audit_admitted (session c) (view c) (uuids c (drawn c)) ev org a \<and>
     k () (c\<lparr>drawn := Suc (drawn c), view := audited (uuids c (drawn c)) ev org a (view c)\<rparr>) = (Inr b, c')"
  by (auto simp: write_event_def run_simps insert_audit_eq audited_def)

end
