(* ===== verification/Locks.thy ===== *)
theory Locks
  imports AuditLog
begin

text \<open>
  \<open>crates/db/src/operations/mod.rs\<close> and \<open>authorization.rs\<close>: the reads every operation opens with. A
  \<open>FOR UPDATE\<close> or \<open>FOR SHARE\<close> read returns the rows the plain read returns; the locks order concurrent
  transactions and have no effect on one transaction alone.
\<close>

section \<open>The organization, its owners, the actors\<close>

datatype organization_lock = Update | Share

definition visible_organization :: "organization_id \<Rightarrow> session \<Rightarrow> db \<Rightarrow> organization_row option" where
  "visible_organization org s d =
     fetch_optional (filter (\<lambda>r. sees_organization s d r \<and> o_id r = org) (organizations d))"

definition lock_organization :: "organization_id \<Rightarrow> organization_lock \<Rightarrow> (sqlx_error, bool) tx" where
  "lock_organization organization lock =
     (case lock of
        Update \<Rightarrow> attempt id (query (visible_organization organization)) (\<lambda>row. ok (row \<noteq> None))
      | Share \<Rightarrow> attempt id (query (visible_organization organization)) (\<lambda>row. ok (row \<noteq> None)))"

definition owner_rows :: "organization_id \<Rightarrow> session \<Rightarrow> db \<Rightarrow> member_row list" where
  "owner_rows org s d = filter (\<lambda>m. sees_member s d m \<and> om_org m = org \<and> om_role m = ''owner''
     \<and> om_status m = ''active'') (organization_members d)"

definition active_owners :: "organization_id \<Rightarrow> (sqlx_error, actor_id list) tx" where
  "active_owners organization =
     attempt id (query (owner_rows organization)) (\<lambda>rows. ok (map om_actor rows))"

definition actor_pair :: "actor_id \<Rightarrow> actor_id \<Rightarrow> session \<Rightarrow> db \<Rightarrow> actor_row list" where
  "actor_pair actor performed_by s d =
     sort_key a_id (filter (\<lambda>r. sees_actor s d r \<and> (a_id r = actor \<or> a_id r = performed_by)) (actors d))"

definition lock_actor :: "actor_id \<Rightarrow> actor_id \<Rightarrow> (sqlx_error, bool option) tx" where
  "lock_actor actor performed_by =
     attempt id (query (actor_pair actor performed_by)) (\<lambda>rows.
     ok (map_option (\<lambda>r. a_deleted_at r \<noteq> None) (find (\<lambda>r. a_id r = actor) rows)))"

section \<open>Capabilities\<close>

datatype access = Allowed | Forbidden | NotAMember

definition active_membership :: "organization_id \<Rightarrow> actor_id \<Rightarrow> session \<Rightarrow> db \<Rightarrow> member_row option" where
  "active_membership org actor s d =
     fetch_optional (filter (\<lambda>m. sees_member s d m \<and> om_org m = org \<and> om_actor m = actor
       \<and> om_status m = ''active'') (organization_members d))"

definition authorize :: "actor_id \<Rightarrow> organization_id \<Rightarrow> capability \<Rightarrow> (sqlx_error, access) tx" where
  "authorize actor organization capability =
     attempt id (query (active_membership organization actor)) (\<lambda>row.
     (case row of
        None \<Rightarrow> ok NotAMember
      | Some row \<Rightarrow>
          require (Protocol ''invalid organization role'') (role_parse (om_role row)) (\<lambda>role.
          ok (if holds role capability then Allowed else Forbidden))))"

section \<open>They read only\<close>

lemma steady_option [steady_intros]:
  "steady m \<Longrightarrow> (\<And>x. steady (k x)) \<Longrightarrow> steady (case r of None \<Rightarrow> m | Some x \<Rightarrow> k x)"
  by (simp split: option.split)

lemma atomic_option [atomic_intros]:
  "atomic m \<Longrightarrow> (\<And>x. atomic (k x)) \<Longrightarrow> atomic (case r of None \<Rightarrow> m | Some x \<Rightarrow> k x)"
  by (simp split: option.split)

lemma atomic_bool [atomic_intros]:
  "atomic m \<Longrightarrow> atomic n \<Longrightarrow> atomic (case b of True \<Rightarrow> m | False \<Rightarrow> n)"
  by (simp split: bool.split)

lemma atomic_access [atomic_intros]:
  "atomic m \<Longrightarrow> atomic n \<Longrightarrow> atomic p \<Longrightarrow>
    atomic (case a of Allowed \<Rightarrow> m | Forbidden \<Rightarrow> n | NotAMember \<Rightarrow> p)"
  by (simp split: access.split)

lemma lock_organization_eq:
  "lock_organization organization lock =
     attempt id (query (visible_organization organization)) (\<lambda>row. ok (row \<noteq> None))"
  by (simp add: lock_organization_def split: organization_lock.split)

lemma steady_locks [steady_intros]:
  "steady (lock_organization org l)" "steady (active_owners org)" "steady (lock_actor a b)"
  "steady (authorize a org cap)"
  unfolding lock_organization_eq active_owners_def lock_actor_def authorize_def
  by (intro steady_intros)+

lemma steady_pair [steady_intros]: "(\<And>a b. steady (k a b)) \<Longrightarrow> steady (case p of (a, b) \<Rightarrow> k a b)"
  by (simp split: prod.split)

lemma atomic_pair [atomic_intros]: "(\<And>a b. atomic (k a b)) \<Longrightarrow> atomic (case p of (a, b) \<Rightarrow> k a b)"
  by (simp split: prod.split)

lemma atomic_let [atomic_intros]: "atomic (k m) \<Longrightarrow> atomic (let x = m in k x)"
  by simp

context step_relation
begin

lemma moves_pair [keeps_intros]: "(\<And>a b. moves R (k a b)) \<Longrightarrow> moves R (case p of (a, b) \<Rightarrow> k a b)"
  by (simp split: prod.split)

lemma moves_let [keeps_intros]: "moves R (k m) \<Longrightarrow> moves R (let x = m in k x)"
  by simp

lemma moves_option [keeps_intros]:
  "moves R m \<Longrightarrow> (\<And>x. moves R (k x)) \<Longrightarrow> moves R (case r of None \<Rightarrow> m | Some x \<Rightarrow> k x)"
  by (simp split: option.split)

lemma moves_bool [keeps_intros]:
  "moves R m \<Longrightarrow> moves R n \<Longrightarrow> moves R (case b of True \<Rightarrow> m | False \<Rightarrow> n)"
  by (simp split: bool.split)

lemma moves_access [keeps_intros]:
  "moves R m \<Longrightarrow> moves R n \<Longrightarrow> moves R p \<Longrightarrow>
    moves R (case a of Allowed \<Rightarrow> m | Forbidden \<Rightarrow> n | NotAMember \<Rightarrow> p)"
  by (simp split: access.split)

lemma moves_locks [keeps_intros]:
  "moves R (lock_organization org l)" "moves R (active_owners org)" "moves R (lock_actor a b)"
  "moves R (authorize a org cap)"
  unfolding lock_organization_eq active_owners_def lock_actor_def authorize_def
  by (intro keeps_intros)+

end

section \<open>Their value on a healthy connection\<close>

lemma attempt_lock_organization [tx_simps]:
  "wire c = Healthy \<Longrightarrow> attempt f (lock_organization org l) k c =
     k (visible_organization org (session c) (view c) \<noteq> None) c"
  by (simp add: lock_organization_eq tx_simps)

lemma attempt_active_owners [tx_simps]:
  "wire c = Healthy \<Longrightarrow> attempt f (active_owners org) k c =
     k (map om_actor (owner_rows org (session c) (view c))) c"
  by (simp add: active_owners_def tx_simps)

text \<open>What \<open>lock_actor\<close> answers: the departure state of the actor, when its row is visible.\<close>

definition departed_state :: "session \<Rightarrow> db \<Rightarrow> actor_id \<Rightarrow> bool option" where
  "departed_state s d actor = map_option (\<lambda>r. a_deleted_at r \<noteq> None)
     (fetch_optional (filter (\<lambda>r. sees_actor s d r \<and> a_id r = actor) (actors d)))"

lemma find_filter: "find p xs = fetch_optional (filter p xs)"
  by (induction xs) auto

lemma find_actor_pair:
  "find (\<lambda>r. a_id r = actor) (actor_pair actor performed_by s d) =
     fetch_optional (filter (\<lambda>r. sees_actor s d r \<and> a_id r = actor) (actors d))"
proof -
  have "filter (\<lambda>r. a_id r = actor) (actor_pair actor performed_by s d) =
     filter (\<lambda>r. sees_actor s d r \<and> a_id r = actor) (actors d)"
    unfolding actor_pair_def sort_key_stable by (auto intro: filter_cong)
  then show ?thesis by (simp add: find_filter)
qed

lemma attempt_lock_actor [tx_simps]:
  "wire c = Healthy \<Longrightarrow> attempt f (lock_actor actor performed_by) k c =
     k (departed_state (session c) (view c) actor) c"
  by (simp add: lock_actor_def tx_simps find_actor_pair departed_state_def)

definition access_of :: "session \<Rightarrow> db \<Rightarrow> organization_id \<Rightarrow> actor_id \<Rightarrow> capability \<Rightarrow> sqlx_error + access" where
  "access_of s d org actor cap = (case active_membership org actor s d of
       None \<Rightarrow> Inr NotAMember
     | Some row \<Rightarrow> (case role_parse (om_role row) of
         None \<Rightarrow> Inl (Protocol ''invalid organization role'')
       | Some role \<Rightarrow> Inr (if holds role cap then Allowed else Forbidden)))"

lemma attempt_authorize [tx_simps]:
  "wire c = Healthy \<Longrightarrow> attempt f (authorize actor org cap) k c =
     (case access_of (session c) (view c) org actor cap of
        Inl e \<Rightarrow> (Inl (f e), c)
      | Inr a \<Rightarrow> k a c)"
  by (cases "active_membership org actor (session c) (view c)")
    (auto simp: authorize_def access_of_def attempt_assoc attempt_query attempt_ok attempt_throw
      require_def split: option.split)

text \<open>A row the acting transaction can see belongs to one of its active organizations.\<close>

lemma visible_organization_Some:
  assumes "schema_ok d"
  shows "visible_organization org s d \<noteq> None \<longleftrightarrow> in_active s d org"
proof -
  have "in_active s d org \<Longrightarrow> org \<in> key_set o_id (organizations d)"
    using assms by (auto simp: in_active_iff schema_ok_def members_ok_def)
  then show ?thesis
    by (auto simp: visible_organization_def sees_organization_def filter_empty_conv key_set_def)
qed

lemma visible_organization_in_active:
  "visible_organization org s d \<noteq> None \<Longrightarrow> in_active s d org"
  by (auto simp: visible_organization_def sees_organization_def filter_empty_conv)

lemma visible_organization_SomeD: "visible_organization org s d = Some r \<Longrightarrow> in_active s d org"
  by (rule visible_organization_in_active) simp

lemma invisible_organization:
  "\<not> in_active s d org \<Longrightarrow> visible_organization org s d = None"
  using visible_organization_in_active by blast

lemma run_lock_organization [run_simps]:
  "wire c = Healthy \<Longrightarrow> attempt f (lock_organization org l) k c = (Inr b, c') \<longleftrightarrow>
     k (visible_organization org (session c) (view c) \<noteq> None) c = (Inr b, c')"
  by (simp add: attempt_lock_organization)

lemma run_lock_actor [run_simps]:
  "wire c = Healthy \<Longrightarrow> attempt f (lock_actor x y) k c = (Inr b, c') \<longleftrightarrow>
     k (departed_state (session c) (view c) x) c = (Inr b, c')"
  by (simp add: attempt_lock_actor)

lemma run_active_owners [run_simps]:
  "wire c = Healthy \<Longrightarrow> attempt f (active_owners org) k c = (Inr b, c') \<longleftrightarrow>
     k (map om_actor (owner_rows org (session c) (view c))) c = (Inr b, c')"
  by (simp add: attempt_active_owners)

text \<open>Another active owner than the one a change is about.\<close>

definition other_owner :: "db \<Rightarrow> organization_id \<Rightarrow> actor_id \<Rightarrow> bool" where
  "other_owner d org a \<longleftrightarrow> (\<exists>m \<in> set (organization_members d). om_org m = org \<and> om_actor m \<noteq> a
     \<and> om_role m = ''owner'' \<and> om_status m = ''active'')"

lemma check_owner_change_other:
  "in_active s d org \<Longrightarrow> check_owner_change (map om_actor (owner_rows org s d)) change = Inr ()
    \<longleftrightarrow> other_owner d org (changed_actor change)"
  by (auto simp: check_owner_change_Inr owner_rows_def other_owner_def sees_member_def)

declare role.as_str_inject [simp] status.as_str_inject [simp] team_role.as_str_inject [simp]

lemma canonical_names [simp]:
  "role_str r = ''owner'' \<longleftrightarrow> r = Owner" "''owner'' = role_str r \<longleftrightarrow> r = Owner"
  "status_str st = ''active'' \<longleftrightarrow> st = Active" "status_str st = ''suspended'' \<longleftrightarrow> st = Suspended"
  "status_str st = ''left'' \<longleftrightarrow> st = Left"
  by (cases r; simp) (cases r; simp | cases st; simp)+

end
