(* ===== verification/Membership.thy ===== *)
theory Membership
  imports Locks
begin

text \<open>
  \<open>crates/db/src/operations/membership.rs\<close>: changing a member's role, suspending and reactivating a member.
\<close>

definition member_row :: "organization_id \<Rightarrow> actor_id \<Rightarrow> session \<Rightarrow> db \<Rightarrow> member_row option" where
  "member_row org actor s d =
     fetch_optional (filter (\<lambda>m. sees_member s d m \<and> om_org m = org \<and> om_actor m = actor)
       (organization_members d))"

definition member ::
    "organization_id \<Rightarrow> actor_id \<Rightarrow> (sqlx_error, (organization_role \<times> member_status) option) tx" where
  "member organization actor =
     attempt id (query (member_row organization actor)) (\<lambda>row.
     (case row of
        None \<Rightarrow> ok None
      | Some row \<Rightarrow>
          require (Protocol ''invalid stored organization role'') (role_parse (om_role row)) (\<lambda>role.
          require (Protocol ''invalid stored membership status'') (status_parse (om_status row)) (\<lambda>status.
          ok (Some (role, status))))))"

definition change_member_role ::
    "actor_id \<Rightarrow> organization_id \<Rightarrow> actor_id \<Rightarrow> organization_role
       \<Rightarrow> (change_member_role_error, unit) tx" where
  "change_member_role performed_by organization_id actor_id role =
     attempt change_member_role_error.Database (begin_tx (Actor performed_by)) (\<lambda>_.
     attempt change_member_role_error.Database (lock_actor performed_by performed_by) (\<lambda>_.
     attempt change_member_role_error.Database (lock_organization organization_id Update) (\<lambda>found.
     if \<not> found then throw change_member_role_error.NotFound
     else
       attempt change_member_role_error.Database (member organization_id actor_id) (\<lambda>row.
       require change_member_role_error.NotFound row (\<lambda>(from, status).
       if status = Left then throw change_member_role_error.NotFound
       else if from = role then attempt change_member_role_error.Database commit (\<lambda>_. ok ())
       else
         (let update =
            attempt change_member_role_error.Database
              (execute (\<lambda>s. set_member_role s organization_id actor_id role)) (\<lambda>_.
            attempt change_member_role_error.Database
              (write_event (member_role_changed actor_id from role) organization_id performed_by) (\<lambda>_.
            attempt change_member_role_error.Database commit (\<lambda>_.
            ok ())))
          in if status = Active \<and> from = Owner \<and> role \<noteq> Owner
             then
               attempt change_member_role_error.Database (active_owners organization_id) (\<lambda>owners.
               require_ok change_member_role_of_last_owner
                 (check_owner_change owners (Demote actor_id)) (\<lambda>_.
               update))
             else update))))))"

definition suspend_member ::
    "actor_id \<Rightarrow> organization_id \<Rightarrow> actor_id \<Rightarrow> (suspend_member_error, unit) tx" where
  "suspend_member performed_by organization_id actor_id =
     attempt suspend_member_error.Database (begin_tx (Actor performed_by)) (\<lambda>_.
     attempt suspend_member_error.Database (lock_actor performed_by performed_by) (\<lambda>_.
     attempt suspend_member_error.Database (lock_organization organization_id Update) (\<lambda>found.
     if \<not> found then throw suspend_member_error.NotFound
     else
       attempt suspend_member_error.Database (member organization_id actor_id) (\<lambda>row.
       require suspend_member_error.NotFound row (\<lambda>(role, status).
       if status \<noteq> Active then throw suspend_member_error.NotActive
       else
         (let update =
            attempt suspend_member_error.Database
              (execute (\<lambda>s. set_member_status s organization_id actor_id Suspended)) (\<lambda>_.
            attempt suspend_member_error.Database
              (write_event (member_suspended actor_id) organization_id performed_by) (\<lambda>_.
            attempt suspend_member_error.Database commit (\<lambda>_.
            ok ())))
          in if role = Owner
             then
               attempt suspend_member_error.Database (active_owners organization_id) (\<lambda>owners.
               require_ok suspend_member_of_last_owner
                 (check_owner_change owners (Suspend actor_id)) (\<lambda>_.
               update))
             else update))))))"

definition reactivate_member ::
    "actor_id \<Rightarrow> organization_id \<Rightarrow> actor_id \<Rightarrow> (reactivate_member_error, unit) tx" where
  "reactivate_member performed_by organization_id actor_id =
     attempt reactivate_member_error.Database (begin_tx (Actor performed_by)) (\<lambda>_.
     attempt reactivate_member_error.Database (lock_actor actor_id performed_by) (\<lambda>departed.
     attempt reactivate_member_error.Database (lock_organization organization_id Update) (\<lambda>found.
     if \<not> found then throw reactivate_member_error.NotFound
     else
       attempt reactivate_member_error.Database (member organization_id actor_id) (\<lambda>row.
       require reactivate_member_error.NotFound row (\<lambda>(_, status).
       if departed = Some True then throw reactivate_member_error.ActorDeparted
       else if status \<noteq> Suspended then throw reactivate_member_error.NotSuspended
       else
         attempt reactivate_member_error.Database
           (execute (\<lambda>s. set_member_status s organization_id actor_id Active)) (\<lambda>_.
         attempt reactivate_member_error.Database
           (write_event (member_reactivated actor_id) organization_id performed_by) (\<lambda>_.
         attempt reactivate_member_error.Database commit (\<lambda>_.
         ok ()))))))))"

section \<open>All or nothing\<close>

lemma steady_member [steady_intros]: "steady (member org a)"
  unfolding member_def by (intro steady_intros)

context step_relation
begin

lemma moves_member [keeps_intros]: "moves R (member org a)"
  unfolding member_def by (intro keeps_intros)

end

interpretation change_member_role: operation "change_member_role p org a r" for p org a r
  by unfold_locales
    (unfold change_member_role_def, intro atomic_intros steady_intros, intro keeps_intros)

interpretation suspend_member: operation "suspend_member p org a" for p org a
  by unfold_locales
    (unfold suspend_member_def, intro atomic_intros steady_intros, intro keeps_intros)

interpretation reactivate_member: operation "reactivate_member p org a" for p org a
  by unfold_locales
    (unfold reactivate_member_def, intro atomic_intros steady_intros, intro keeps_intros)

section \<open>What a successful run did\<close>

definition member_state :: "session \<Rightarrow> db \<Rightarrow> organization_id \<Rightarrow> actor_id \<Rightarrow> organization_role \<Rightarrow> member_status \<Rightarrow> bool" where
  "member_state s d org a ro st \<longleftrightarrow> (\<exists>m. member_row org a s d = Some m \<and> om_role m = role_str ro \<and> om_status m = status_str st)"

lemma run_member [run_simps]:
  "wire c = Healthy \<Longrightarrow> attempt f (member org a) k c = (Inr b, c') \<longleftrightarrow>
     (member_row org a (session c) (view c) = None \<and> k None c = (Inr b, c'))
     \<or> (\<exists>ro st. member_state (session c) (view c) org a ro st \<and> k (Some (ro, st)) c = (Inr b, c'))"
  by (cases "member_row org a (session c) (view c)")
    (auto simp: member_def run_simps role.parse_iff status.parse_iff member_state_def)

lemma update_member_Inr:
  "update_member s org a f d = Inr (u, d') \<longleftrightarrow>
     (\<forall>m \<in> set (organization_members d). sees_member s d m \<and> om_org m = org \<and> om_actor m = a \<longrightarrow>
        \<not> guard_inactive_role s m (f m) \<and> may_write_member s d (f m) \<and> sees_member s d (f m))
     \<and> d' = d\<lparr>organization_members := update_where (\<lambda>m. sees_member s d m \<and> om_org m = org \<and> om_actor m = a)
          f (organization_members d)\<rparr>"
  by (auto simp: update_member_def rls_update_def Let_def list_ex_iff list_all_iff split: if_splits)

definition is_member :: "organization_id \<Rightarrow> actor_id \<Rightarrow> member_row \<Rightarrow> bool" where
  "is_member org a m \<longleftrightarrow> om_org m = org \<and> om_actor m = a"

lemma sees_in_active:
  "in_active s d org \<Longrightarrow> (\<lambda>m. sees_member s d m \<and> om_org m = org \<and> om_actor m = a) = is_member org a"
  by (auto simp: sees_member_def is_member_def)

definition rewrite_member :: "organization_id \<Rightarrow> actor_id \<Rightarrow> (member_row \<Rightarrow> member_row) \<Rightarrow> db \<Rightarrow> db" where
  "rewrite_member org a f d =
     d\<lparr>organization_members := update_where (is_member org a) f (organization_members d)\<rparr>"

lemma rewrite_member_simps [simp]:
  "actors (rewrite_member org a f d) = actors d" "users (rewrite_member org a f d) = users d"
  "organizations (rewrite_member org a f d) = organizations d"
  "organization_members (rewrite_member org a f d) =
     update_where (is_member org a) f (organization_members d)"
  "teams (rewrite_member org a f d) = teams d" "team_members (rewrite_member org a f d) = team_members d"
  "invites (rewrite_member org a f d) = invites d" "sessions (rewrite_member org a f d) = sessions d"
  "channels (rewrite_member org a f d) = channels d"
  "channel_members (rewrite_member org a f d) = channel_members d"
  "messages (rewrite_member org a f d) = messages d"
  "audit_events (rewrite_member org a f d) = audit_events d"
  by (simp_all add: rewrite_member_def)

lemma update_member_run:
  "update_member s org a f d = Inr (u, d') \<Longrightarrow> in_active s d org \<Longrightarrow> d' = rewrite_member org a f d"
  by (simp add: update_member_Inr sees_in_active rewrite_member_def)

lemma member_stateD:
  "member_state s d org a ro st \<Longrightarrow> \<exists>m \<in> set (organization_members d).
     is_member org a m \<and> om_role m = role_str ro \<and> om_status m = status_str st"
  by (auto simp: member_state_def member_row_def is_member_def dest!: fetch_optional_SomeD)

lemma change_member_role_run:
  assumes "wire c = Healthy" "change_member_role p org a role c = (Inr u, c')"
  shows "in_active (session_for (Actor p) c) (committed c) org
    \<and> (\<exists>from st. member_state (session_for (Actor p) c) (committed c) org a from st \<and> st \<noteq> Left
        \<and> (if from = role then committed c' = committed c
           else (st = Active \<and> from = Owner \<longrightarrow> other_owner (committed c) org a)
             \<and> committed c' = audited (uuids c (drawn c)) (member_role_changed a from role) org p
                 (rewrite_member org a (\<lambda>m. m\<lparr>om_role := role_str role\<rparr>) (committed c))))"
  using assms
  apply (clarsimp simp: change_member_role_def run_simps Let_def set_member_role_def)
  apply (drule visible_organization_SomeD)
  apply (elim disjE conjE exE)
  apply (auto simp: check_owner_change_other dest!: update_member_run)
  done

lemma suspend_member_run:
  assumes "wire c = Healthy" "suspend_member p org a c = (Inr u, c')"
  shows "in_active (session_for (Actor p) c) (committed c) org
    \<and> (\<exists>ro. member_state (session_for (Actor p) c) (committed c) org a ro Active
        \<and> (ro = Owner \<longrightarrow> other_owner (committed c) org a))
    \<and> audit_admitted (session_for (Actor p) c)
        (rewrite_member org a (\<lambda>m. m\<lparr>om_status := ''suspended''\<rparr>) (committed c))
        (uuids c (drawn c)) (member_suspended a) org p
    \<and> committed c' = audited (uuids c (drawn c)) (member_suspended a) org p
        (rewrite_member org a (\<lambda>m. m\<lparr>om_status := ''suspended''\<rparr>) (committed c))"
  using assms
  apply (clarsimp simp: suspend_member_def run_simps Let_def set_member_status_def)
  apply (drule visible_organization_SomeD)
  apply (elim disjE conjE exE)
  apply (auto simp: check_owner_change_other dest!: update_member_run)
  done

lemma reactivate_member_run:
  assumes "wire c = Healthy" "reactivate_member p org a c = (Inr u, c')"
  shows "in_active (session_for (Actor p) c) (committed c) org
    \<and> (\<exists>ro. member_state (session_for (Actor p) c) (committed c) org a ro Suspended)
    \<and> departed_state (session_for (Actor p) c) (committed c) a \<noteq> Some True
    \<and> committed c' = audited (uuids c (drawn c)) (member_reactivated a) org p
        (rewrite_member org a (\<lambda>m. m\<lparr>om_status := ''active''\<rparr>) (committed c))"
  using assms
  apply (clarsimp simp: reactivate_member_def run_simps Let_def set_member_status_def)
  apply (drule visible_organization_SomeD)
  apply (auto dest!: update_member_run)
  done

end
