(* ===== verification/Teams.thy ===== *)
theory Teams
  imports Membership
begin

text \<open>
  \<open>crates/db/src/operations/teams.rs\<close>: creating a team, and adding, re-ranking and removing its members.
\<close>

definition team_row_of :: "organization_id \<Rightarrow> team_id \<Rightarrow> session \<Rightarrow> db \<Rightarrow> team_row option" where
  "team_row_of org team s d =
     fetch_optional (filter (\<lambda>t. sees_team s d t \<and> t_org t = org \<and> t_id t = team) (teams d))"

definition team_member_row_of ::
    "organization_id \<Rightarrow> team_id \<Rightarrow> actor_id \<Rightarrow> session \<Rightarrow> db \<Rightarrow> team_member_row option" where
  "team_member_row_of org team actor s d =
     fetch_optional (filter (\<lambda>m. sees_team_member s d m \<and> tm_org m = org \<and> tm_team m = team
       \<and> tm_actor m = actor) (team_members d))"

definition create_team ::
    "actor_id \<Rightarrow> organization_id \<Rightarrow> ustring \<Rightarrow> (create_team_error, team_id) tx" where
  "create_team performed_by organization_id name =
     attempt create_team_error.Database (begin_tx (Actor performed_by)) (\<lambda>_.
     attempt create_team_error.Database (lock_actor performed_by performed_by) (\<lambda>_.
     attempt create_team_error.Database (lock_organization organization_id Update) (\<lambda>found.
     if \<not> found then throw create_team_error.NotFound
     else
       attempt id now_v7 (\<lambda>team.
       attempt create_team_error.Database (execute (\<lambda>s. insert_team s team organization_id name)) (\<lambda>_.
       attempt create_team_error.Database
         (write_event (team_created team) organization_id performed_by) (\<lambda>_.
       attempt create_team_error.Database commit (\<lambda>_.
       ok team)))))))"

definition add_team_member ::
    "actor_id \<Rightarrow> organization_id \<Rightarrow> team_id \<Rightarrow> actor_id \<Rightarrow> team_role \<Rightarrow> (add_team_member_error, unit) tx" where
  "add_team_member performed_by organization_id team_id actor_id role =
     attempt add_team_member_error.Database (begin_tx (Actor performed_by)) (\<lambda>_.
     attempt add_team_member_error.Database (lock_actor actor_id performed_by) (\<lambda>departed.
     attempt add_team_member_error.Database (lock_organization organization_id Update) (\<lambda>found.
     if \<not> found then throw add_team_member_error.NotFound
     else
       attempt add_team_member_error.Database (query (team_row_of organization_id team_id)) (\<lambda>team.
       attempt add_team_member_error.Database (query (member_row organization_id actor_id)) (\<lambda>member.
       if team = None then throw add_team_member_error.NotFound
       else
         require add_team_member_error.NotFound member (\<lambda>member.
         if departed = Some True then throw add_team_member_error.ActorDeparted
         else
           require (add_team_member_error.Database (Protocol ''invalid stored membership status''))
             (status_parse (om_status member)) (\<lambda>status.
           if status \<noteq> Active then throw add_team_member_error.NotAnActiveMember
           else
             attempt (\<lambda>error. if constraint error ''team_members_pkey''
                        then add_team_member_error.AlreadyMember else add_team_member_error.Database error)
               (execute (\<lambda>s. insert_team_member s team_id actor_id organization_id role)) (\<lambda>_.
             attempt add_team_member_error.Database
               (write_event (team_member_added actor_id team_id role) organization_id performed_by) (\<lambda>_.
             attempt add_team_member_error.Database commit (\<lambda>_.
             ok ()))))))))))"

definition change_team_member_role ::
    "actor_id \<Rightarrow> organization_id \<Rightarrow> team_id \<Rightarrow> actor_id \<Rightarrow> team_role
       \<Rightarrow> (change_team_member_role_error, unit) tx" where
  "change_team_member_role performed_by organization_id team_id actor_id role =
     attempt change_team_member_role_error.Database (begin_tx (Actor performed_by)) (\<lambda>_.
     attempt change_team_member_role_error.Database (lock_actor performed_by performed_by) (\<lambda>_.
     attempt change_team_member_role_error.Database (lock_organization organization_id Update) (\<lambda>found.
     if \<not> found then throw change_team_member_role_error.NotFound
     else
       attempt change_team_member_role_error.Database
         (query (team_member_row_of organization_id team_id actor_id)) (\<lambda>row.
       require change_team_member_role_error.NotFound row (\<lambda>row.
       require (change_team_member_role_error.Database (Protocol ''invalid stored team role''))
         (team_role_parse (tm_role row)) (\<lambda>from.
       if from = role then attempt change_team_member_role_error.Database commit (\<lambda>_. ok ())
       else
         attempt change_team_member_role_error.Database
           (execute (\<lambda>s. set_team_member_role s organization_id team_id actor_id role)) (\<lambda>_.
         attempt change_team_member_role_error.Database
           (write_event (team_member_role_changed actor_id team_id from role) organization_id performed_by) (\<lambda>_.
         attempt change_team_member_role_error.Database commit (\<lambda>_.
         ok ())))))))))"

definition remove_team_member ::
    "actor_id \<Rightarrow> organization_id \<Rightarrow> team_id \<Rightarrow> actor_id \<Rightarrow> (remove_team_member_error, unit) tx" where
  "remove_team_member performed_by organization_id team_id actor_id =
     attempt remove_team_member_error.Database (begin_tx (Actor performed_by)) (\<lambda>_.
     attempt remove_team_member_error.Database (lock_actor performed_by performed_by) (\<lambda>_.
     attempt remove_team_member_error.Database (lock_organization organization_id Update) (\<lambda>found.
     if \<not> found then throw remove_team_member_error.NotFound
     else
       attempt remove_team_member_error.Database
         (execute (\<lambda>s. delete_team_member s organization_id team_id actor_id)) (\<lambda>rows_affected.
       if rows_affected = 0 then throw remove_team_member_error.NotFound
       else
         attempt remove_team_member_error.Database
           (write_event (team_member_removed actor_id team_id Removed) organization_id performed_by) (\<lambda>_.
         attempt remove_team_member_error.Database commit (\<lambda>_.
         ok ()))))))"

section \<open>All or nothing\<close>

interpretation create_team: operation "create_team p org n" for p org n
  by unfold_locales
    (unfold create_team_def, intro atomic_intros steady_intros, intro keeps_intros)

interpretation add_team_member: operation "add_team_member p org t a r" for p org t a r
  by unfold_locales
    (unfold add_team_member_def, intro atomic_intros steady_intros, intro keeps_intros)

interpretation change_team_member_role: operation "change_team_member_role p org t a r" for p org t a r
  by unfold_locales
    (unfold change_team_member_role_def, intro atomic_intros steady_intros, intro keeps_intros)

interpretation remove_team_member: operation "remove_team_member p org t a" for p org t a
  by unfold_locales
    (unfold remove_team_member_def, intro atomic_intros steady_intros, intro keeps_intros)

section \<open>What a successful run did\<close>

lemma create_team_run:
  assumes "wire c = Healthy" "create_team p org name c = (Inr t, c')"
  shows "t = uuids c (drawn c) \<and> in_active (session_for (Actor p) c) (committed c) org
    \<and> t \<notin> key_set t_id (teams (committed c))
    \<and> committed c' = audited (uuids c (Suc (drawn c))) (team_created t) org p
        ((committed c)\<lparr>teams := teams (committed c) @ [\<lparr>t_id = t, t_org = org, t_name = name\<rparr>]\<rparr>)"
  using assms
  by (auto simp: create_team_def run_simps insert_team_def checked_Inr)

lemma add_team_member_run:
  assumes "wire c = Healthy" "add_team_member p org t a role c = (Inr u, c')"
  shows "in_active (session_for (Actor p) c) (committed c) org
    \<and> departed_state (session_for (Actor p) c) (committed c) a \<noteq> Some True
    \<and> (\<exists>m \<in> set (organization_members (committed c)). is_member org a m \<and> om_status m = ''active'')
    \<and> committed c' = audited (uuids c (drawn c)) (team_member_added a t role) org p
        ((committed c)\<lparr>team_members := team_members (committed c)
           @ [\<lparr>tm_team = t, tm_actor = a, tm_org = org, tm_role = team_role_str role\<rparr>]\<rparr>)"
  using assms
  apply (clarsimp simp: add_team_member_def run_simps insert_team_member_def checked_Inr status.parse_iff
      member_row_def dest!: visible_organization_SomeD)
  apply (drule fetch_optional_SomeD)
  apply (auto simp: is_member_def)
  done

lemma change_team_member_role_run:
  assumes "wire c = Healthy" "change_team_member_role p org t a role c = (Inr u, c')"
  shows "in_active (session_for (Actor p) c) (committed c) org
    \<and> (committed c' = committed c
       \<or> (\<exists>from. committed c' = audited (uuids c (drawn c)) (team_member_role_changed a t from role) org p
           ((committed c)\<lparr>team_members := update_where (\<lambda>m. tm_org m = org \<and> tm_team m = t \<and> tm_actor m = a)
              (\<lambda>m. m\<lparr>tm_role := team_role_str role\<rparr>) (team_members (committed c))\<rparr>)))"
proof -
  have hit: "in_active s d org \<Longrightarrow> (\<lambda>m. sees_team_member s d m \<and> in_active s d (tm_org m) \<and> tm_org m = org
      \<and> tm_team m = t \<and> tm_actor m = a) = (\<lambda>m. tm_org m = org \<and> tm_team m = t \<and> tm_actor m = a)" for s d
    by (auto simp: sees_team_member_def)
  show ?thesis
    using assms
    apply (clarsimp simp: change_team_member_role_def run_simps dest!: visible_organization_SomeD)
    apply (elim disjE conjE exE)
     apply (auto simp: set_team_member_role_def rls_update_Inr hit split: sum.splits)
    done
qed

lemma delete_team_member_run:
  assumes "in_active s d org"
  shows "delete_team_member s org t a d = Inr (n, d') \<longleftrightarrow>
     n = length (filter (\<lambda>m. tm_org m = org \<and> tm_team m = t \<and> tm_actor m = a) (team_members d))
     \<and> d' = d\<lparr>team_members := filter (\<lambda>m. \<not> (tm_org m = org \<and> tm_team m = t \<and> tm_actor m = a))
           (team_members d)\<rparr>"
proof -
  have "(\<lambda>m. sees_team_member s d m \<and> tm_org m = org \<and> tm_team m = t \<and> tm_actor m = a) =
      (\<lambda>m. tm_org m = org \<and> tm_team m = t \<and> tm_actor m = a)"
    using assms by (auto simp: sees_team_member_def)
  then show ?thesis by (auto simp: delete_team_member_def Let_def fun_eq_iff)
qed

lemma remove_team_member_run:
  assumes "wire c = Healthy" "remove_team_member p org t a c = (Inr u, c')"
  shows "in_active (session_for (Actor p) c) (committed c) org
    \<and> (\<exists>m \<in> set (team_members (committed c)). tm_org m = org \<and> tm_team m = t \<and> tm_actor m = a)
    \<and> committed c' = audited (uuids c (drawn c)) (team_member_removed a t Removed) org p
        ((committed c)\<lparr>team_members := filter (\<lambda>m. \<not> (tm_org m = org \<and> tm_team m = t \<and> tm_actor m = a))
           (team_members (committed c))\<rparr>)"
  using assms
  apply (clarsimp simp: remove_team_member_def run_simps dest!: visible_organization_SomeD)
  apply (auto simp: delete_team_member_run filter_empty_conv)
  done

end
