(* ===== verification/Channels.thy ===== *)
theory Channels
  imports Teams
begin

text \<open>\<open>crates/db/src/operations/channels.rs\<close>: creating a channel and adding a member to a team channel.\<close>

definition channel_row_of :: "organization_id \<Rightarrow> channel_id \<Rightarrow> session \<Rightarrow> db \<Rightarrow> channel_row option" where
  "channel_row_of org channel s d =
     fetch_optional (filter (\<lambda>c. sees_channel s d c \<and> ch_org c = org \<and> ch_id c = channel) (channels d))"

definition create_channel ::
    "actor_id \<Rightarrow> organization_id \<Rightarrow> channel_scope \<Rightarrow> ustring \<Rightarrow> (create_channel_error, channel_id) tx" where
  "create_channel performed_by organization_id scope name =
     attempt create_channel_error.Database (begin_tx (Actor performed_by)) (\<lambda>_.
     attempt create_channel_error.Database (lock_actor performed_by performed_by) (\<lambda>_.
     attempt create_channel_error.Database (lock_organization organization_id Update) (\<lambda>found.
     if \<not> found then throw create_channel_error.NotFound
     else
       attempt id (case scope of
           OrganizationScope \<Rightarrow> ok None
         | TeamScope team \<Rightarrow>
             attempt create_channel_error.Database (query (team_row_of organization_id team)) (\<lambda>row.
             if row = None then throw create_channel_error.NotFound else ok (Some team))) (\<lambda>team_id.
       attempt id now_v7 (\<lambda>channel.
       attempt (\<lambda>error.
           if constraint error ''channels_team_name_key'' \<or> constraint error ''channels_organization_name_key''
           then create_channel_error.NameTaken else create_channel_error.Database error)
         (execute (\<lambda>s. insert_channel s channel organization_id team_id scope name)) (\<lambda>_.
       attempt create_channel_error.Database
         (write_event (channel_created channel scope) organization_id performed_by) (\<lambda>_.
       attempt create_channel_error.Database commit (\<lambda>_.
       ok channel))))))))"

definition add_channel_member ::
    "actor_id \<Rightarrow> organization_id \<Rightarrow> channel_id \<Rightarrow> actor_id \<Rightarrow> (add_channel_member_error, unit) tx" where
  "add_channel_member performed_by organization_id channel_id actor_id =
     attempt add_channel_member_error.Database (begin_tx (Actor performed_by)) (\<lambda>_.
     attempt add_channel_member_error.Database (lock_actor actor_id performed_by) (\<lambda>departed.
     attempt add_channel_member_error.Database (lock_organization organization_id Update) (\<lambda>found.
     if \<not> found then throw add_channel_member_error.NotFound
     else
       attempt add_channel_member_error.Database (query (channel_row_of organization_id channel_id)) (\<lambda>row.
       require add_channel_member_error.NotFound row (\<lambda>row.
       if ch_scope row = scope_str OrganizationScope
       then throw add_channel_member_error.OrganizationScoped
       else (case departed of
           None \<Rightarrow> throw add_channel_member_error.NotFound
         | Some departed \<Rightarrow>
             if departed then throw add_channel_member_error.ActorDeparted
             else
               attempt (\<lambda>error. if constraint error ''channel_members_pkey''
                          then add_channel_member_error.AlreadyMember
                          else add_channel_member_error.Database error)
                 (execute (\<lambda>s. insert_channel_member s organization_id channel_id actor_id)) (\<lambda>_.
               attempt add_channel_member_error.Database
                 (write_event (channel_member_added actor_id channel_id) organization_id performed_by) (\<lambda>_.
               attempt add_channel_member_error.Database commit (\<lambda>_.
               ok ())))))))))"

section \<open>All or nothing\<close>

lemma steady_scope [steady_intros]:
  "steady m \<Longrightarrow> (\<And>t. steady (k t)) \<Longrightarrow>
    steady (case scope of OrganizationScope \<Rightarrow> m | TeamScope t \<Rightarrow> k t)"
  by (simp split: channel_scope.split)

context step_relation
begin

lemma moves_scope [keeps_intros]:
  "moves R m \<Longrightarrow> (\<And>t. moves R (k t)) \<Longrightarrow>
    moves R (case scope of OrganizationScope \<Rightarrow> m | TeamScope t \<Rightarrow> k t)"
  by (simp split: channel_scope.split)

end

interpretation create_channel: operation "create_channel p org sc n" for p org sc n
  by unfold_locales
    (unfold create_channel_def, intro atomic_intros steady_intros, intro keeps_intros)

interpretation add_channel_member: operation "add_channel_member p org ch a" for p org ch a
  by unfold_locales
    (unfold add_channel_member_def, intro atomic_intros steady_intros, intro keeps_intros)

section \<open>What a successful run did\<close>

lemma run_scope [run_simps]:
  "attempt f (case scope of OrganizationScope \<Rightarrow> m | TeamScope t \<Rightarrow> n t) k c = (Inr b, c') \<longleftrightarrow>
     scope = OrganizationScope \<and> attempt f m k c = (Inr b, c')
     \<or> (\<exists>t. scope = TeamScope t \<and> attempt f (n t) k c = (Inr b, c'))"
  by (cases scope) auto

definition scope_team :: "channel_scope \<Rightarrow> team_id option" where
  "scope_team scope = (case scope of OrganizationScope \<Rightarrow> None | TeamScope t \<Rightarrow> Some t)"

lemma create_channel_run:
  assumes "wire c = Healthy" "create_channel p org scope name c = (Inr ch, c')"
  shows "ch = uuids c (drawn c) \<and> in_active (session_for (Actor p) c) (committed c) org
    \<and> ch \<notin> key_set ch_id (channels (committed c))
    \<and> committed c' = audited (uuids c (Suc (drawn c))) (channel_created ch scope) org p
        ((committed c)\<lparr>channels := channels (committed c)
           @ [\<lparr>ch_id = ch, ch_org = org, ch_team = scope_team scope, ch_scope = scope_str scope,
               ch_name = name, ch_next_seq = 0\<rparr>]\<rparr>)"
  using assms
  by (auto simp: create_channel_def run_simps insert_channel_def checked_Inr Let_def scope_team_def
      dest!: visible_organization_SomeD)

lemma channel_row_of_SomeD:
  "channel_row_of org ch s d = Some row \<Longrightarrow> row \<in> set (channels d) \<and> sees_channel s d row
     \<and> ch_org row = org \<and> ch_id row = ch"
  by (auto simp: channel_row_of_def dest!: fetch_optional_SomeD)

lemma insert_channel_member_run:
  "insert_channel_member s org ch a d = Inr (u, d') \<Longrightarrow> channel_row_of org ch s d = Some row \<Longrightarrow>
     ch_scope row = ''team'' \<and> d' = d\<lparr>channel_members := channel_members d
       @ [\<lparr>cm_channel = ch, cm_scope = ''team'', cm_org = org, cm_actor = a\<rparr>]\<rparr>"
  by (frule channel_row_of_SomeD)
    (auto simp: insert_channel_member_def channel_row_of_def fetch_optional_def checked_Inr Let_def
      split: list.splits)

lemma add_channel_member_run:
  assumes "wire c = Healthy" "add_channel_member p org ch a c = (Inr u, c')"
  shows "in_active (session_for (Actor p) c) (committed c) org
    \<and> departed_state (session_for (Actor p) c) (committed c) a = Some False
    \<and> (\<exists>row \<in> set (channels (committed c)). ch_org row = org \<and> ch_id row = ch \<and> ch_scope row = ''team'')
    \<and> committed c' = audited (uuids c (drawn c)) (channel_member_added a ch) org p
        ((committed c)\<lparr>channel_members := channel_members (committed c)
           @ [\<lparr>cm_channel = ch, cm_scope = ''team'', cm_org = org, cm_actor = a\<rparr>]\<rparr>)"
  using assms
  apply (clarsimp simp: add_channel_member_def run_simps dest!: visible_organization_SomeD)
  apply (frule (1) insert_channel_member_run)
  apply (drule channel_row_of_SomeD)
  apply auto
  done

end
