(* ===== verification/Messages.thy ===== *)
theory Messages
  imports Locks
begin

text \<open>
  \<open>crates/db/src/operations/messages.rs\<close>: posting with a client-chosen id, and reading pages of a channel.
\<close>

record message =
  msg_id :: message_id
  msg_channel_id :: channel_id
  msg_channel_seq :: channel_seq
  msg_sender_actor_id :: actor_id
  msg_body :: ustring
  msg_created_at :: instant

datatype post_message_result = Posted message | AlreadyPosted message

text \<open>\<open>TryFrom<StoredMessage> for Message\<close>\<close>

definition try_from :: "uuid_api \<Rightarrow> message_row \<Rightarrow> sqlx_error + message" where
  "try_from api row =
     (case from_client api (m_id row) of
        Inl _ \<Rightarrow> Inl (Protocol ''invalid stored message id'')
      | Inr i \<Rightarrow>
          (case channel_seq_new (m_seq row) of
             Inl _ \<Rightarrow> Inl (Protocol ''invalid stored message sequence'')
           | Inr q \<Rightarrow> Inr \<lparr>msg_id = i, msg_channel_id = m_channel row, msg_channel_seq = q,
               msg_sender_actor_id = m_sender row, msg_body = m_body row,
               msg_created_at = m_created_at row\<rparr>))"

text \<open>\<open>collect::<Result<_, _>>()\<close>: the first error, or every value.\<close>

fun collect_results :: "('e + 'a) list \<Rightarrow> 'e + 'a list" where
  "collect_results [] = Inr []"
| "collect_results (Inl e # rs) = Inl e"
| "collect_results (Inr a # rs) = (case collect_results rs of Inl e \<Rightarrow> Inl e | Inr as \<Rightarrow> Inr (a # as))"

definition stored_post ::
    "message_id \<Rightarrow> organization_id \<Rightarrow> channel_id \<Rightarrow> actor_id \<Rightarrow> session \<Rightarrow> db \<Rightarrow> message_row option" where
  "stored_post i org channel sender s d =
     fetch_optional (filter (\<lambda>m. sees_message s d m \<and> m_id m = as_uuid i \<and> m_org m = org
       \<and> m_channel m = channel \<and> m_sender m = sender) (messages d))"

text \<open>\<open>SET TRANSACTION READ ONLY\<close>: nothing is written after it.\<close>

definition set_transaction_read_only :: "(sqlx_error, unit) tx" where
  "set_transaction_read_only = tick"

definition post_message ::
    "uuid_api \<Rightarrow> organization_id \<Rightarrow> channel_id \<Rightarrow> actor_id \<Rightarrow> message_id \<Rightarrow> ustring
       \<Rightarrow> (post_message_error, post_message_result) tx" where
  "post_message api organization_id channel_id sender i body =
     (if \<not> (1 \<le> length body \<and> length body \<le> 4000) then throw post_message_error.InvalidBody
      else
        attempt post_message_error.Database (begin_tx (Actor sender)) (\<lambda>_.
        attempt post_message_error.Database
          (execute (\<lambda>s. bump_channel s channel_id organization_id)) (\<lambda>counter.
        require post_message_error.NotFound counter (\<lambda>next_message_seq.
        attempt post_message_error.Database
          (execute (\<lambda>s. insert_message s \<lparr>m_id = as_uuid i, m_org = organization_id, m_channel = channel_id,
             m_seq = next_message_seq, m_sender = sender, m_body = body, m_created_at = tx_now s\<rparr>))
          (\<lambda>inserted.
        (case inserted of
           Some row \<Rightarrow>
             require_ok post_message_error.Database (try_from api row) (\<lambda>message.
             attempt post_message_error.Database commit (\<lambda>_.
             ok (Posted message)))
         | None \<Rightarrow>
             attempt post_message_error.Database rollback (\<lambda>_.
             attempt post_message_error.Database (begin_tx (Actor sender)) (\<lambda>_.
             attempt post_message_error.Database set_transaction_read_only (\<lambda>_.
             attempt post_message_error.Database
               (query (stored_post i organization_id channel_id sender)) (\<lambda>stored.
             require post_message_error.IdConflict stored (\<lambda>stored.
             require_ok post_message_error.Database (try_from api stored) (\<lambda>message.
             attempt post_message_error.Database commit (\<lambda>_.
             ok (AlreadyPosted message))))))))))))))"

definition channel_exists :: "organization_id \<Rightarrow> channel_id \<Rightarrow> (sqlx_error, bool) tx" where
  "channel_exists organization channel =
     attempt id (query (\<lambda>s d. fetch_optional
       (filter (\<lambda>c. sees_channel s d c \<and> ch_org c = organization \<and> ch_id c = channel) (channels d))))
     (\<lambda>row. ok (row \<noteq> None))"

definition clamp_limit :: "16 word \<Rightarrow> nat" where
  "clamp_limit limit = max 1 (min 200 (unat limit))"

definition page_before ::
    "organization_id \<Rightarrow> channel_id \<Rightarrow> channel_seq option \<Rightarrow> nat \<Rightarrow> session \<Rightarrow> db \<Rightarrow> message_row list" where
  "page_before org channel before_seq limit s d =
     (case before_seq of
        Some before_seq \<Rightarrow> take limit (rev (sort_key m_seq (filter (\<lambda>m. sees_message s d m \<and> m_org m = org
          \<and> m_channel m = channel \<and> m_seq m < seq_get before_seq) (messages d))))
      | None \<Rightarrow> take limit (rev (sort_key m_seq (filter (\<lambda>m. sees_message s d m \<and> m_org m = org
          \<and> m_channel m = channel) (messages d)))))"

definition page_after ::
    "organization_id \<Rightarrow> channel_id \<Rightarrow> channel_seq \<Rightarrow> nat \<Rightarrow> session \<Rightarrow> db \<Rightarrow> message_row list" where
  "page_after org channel after limit s d =
     take limit (sort_key m_seq (filter (\<lambda>m. sees_message s d m \<and> m_org m = org
       \<and> m_channel m = channel \<and> seq_get after < m_seq m) (messages d)))"

definition messages_before ::
    "uuid_api \<Rightarrow> actor_id \<Rightarrow> organization_id \<Rightarrow> channel_id \<Rightarrow> channel_seq option \<Rightarrow> 16 word
       \<Rightarrow> (messages_before_error, message list) tx" where
  "messages_before api actor organization_id channel_id before_seq limit =
     attempt messages_before_error.Database (begin_tx (Actor actor)) (\<lambda>_.
     attempt messages_before_error.Database (channel_exists organization_id channel_id) (\<lambda>found.
     if \<not> found then throw messages_before_error.NotFound
     else
       (let limit = clamp_limit limit
        in attempt messages_before_error.Database
             (query (page_before organization_id channel_id before_seq limit)) (\<lambda>rows.
           require_ok messages_before_error.Database (collect_results (map (try_from api) rows)) (\<lambda>messages.
           attempt messages_before_error.Database commit (\<lambda>_.
           ok messages))))))"

definition messages_after ::
    "uuid_api \<Rightarrow> actor_id \<Rightarrow> organization_id \<Rightarrow> channel_id \<Rightarrow> channel_seq \<Rightarrow> 16 word
       \<Rightarrow> (messages_after_error, message list) tx" where
  "messages_after api actor organization_id channel_id after limit =
     attempt messages_after_error.Database (begin_tx (Actor actor)) (\<lambda>_.
     attempt messages_after_error.Database (channel_exists organization_id channel_id) (\<lambda>found.
     if \<not> found then throw messages_after_error.NotFound
     else
       (let limit = clamp_limit limit
        in attempt messages_after_error.Database
             (query (page_after organization_id channel_id after limit)) (\<lambda>rows.
           require_ok messages_after_error.Database (collect_results (map (try_from api) rows)) (\<lambda>messages.
           attempt messages_after_error.Database commit (\<lambda>_.
           ok messages))))))"

section \<open>All or nothing\<close>

lemma steady_channel_exists [steady_intros]: "steady (channel_exists org ch)"
  unfolding channel_exists_def by (intro steady_intros)

lemma steady_set_transaction_read_only [steady_intros]: "steady set_transaction_read_only"
  unfolding set_transaction_read_only_def by (rule steady_tick)

context step_relation
begin

lemma moves_channel_exists [keeps_intros]: "moves R (channel_exists org ch)"
  unfolding channel_exists_def by (intro keeps_intros)

lemma moves_set_transaction_read_only [keeps_intros]: "moves R set_transaction_read_only"
  unfolding set_transaction_read_only_def by (rule moves_tick)

end

interpretation post_message: operation "post_message api org ch a i b" for api org ch a i b
  by unfold_locales
    (unfold post_message_def, intro atomic_intros steady_intros, intro keeps_intros)

interpretation messages_before: operation "messages_before api a org ch q l" for api a org ch q l
  by unfold_locales
    (unfold messages_before_def, intro atomic_intros steady_intros, intro keeps_intros)

interpretation messages_after: operation "messages_after api a org ch q l" for api a org ch q l
  by unfold_locales
    (unfold messages_after_def, intro atomic_intros steady_intros, intro keeps_intros)

section \<open>What a successful run did\<close>

definition bumped :: "channel_id \<Rightarrow> organization_id \<Rightarrow> channel_row list \<Rightarrow> channel_row list" where
  "bumped ch org = update_where (\<lambda>r. ch_id r = ch \<and> ch_org r = org)
     (\<lambda>r. r\<lparr>ch_next_seq := ch_next_seq r + 1\<rparr>)"

lemma bump_channel_None:
  "bump_channel s ch org d = Inr (None, d') \<Longrightarrow> \<not> (\<exists>r \<in> set (channels d). sees_channel s d r \<and> ch_id r = ch \<and> ch_org r = org)"
  by (auto simp: bump_channel_def Let_def rls_update_Inr filter_empty_conv split: if_splits sum.splits)

lemma bump_channel_Some:
  assumes "bump_channel s ch org d = Inr (Some q, d')"
  shows "in_active s d org \<and> (\<exists>r \<in> set (channels d). ch_id r = ch \<and> ch_org r = org \<and> q = ch_next_seq r + 1)
    \<and> d' = d\<lparr>channels := bumped ch org (channels d)\<rparr>"
proof -
  let ?hit = "\<lambda>r. sees_channel s d r \<and> ch_id r = ch \<and> ch_org r = org"
  let ?f = "\<lambda>r. r\<lparr>ch_next_seq := ch_next_seq r + 1\<rparr>"
  obtain news where q: "map_option ch_next_seq (fetch_optional news) = Some q"
    and news: "news = map ?f (filter ?hit (channels d))"
    and d': "d' = d\<lparr>channels := update_where ?hit ?f (channels d)\<rparr>"
    using assms by (auto simp: bump_channel_def Let_def rls_update_Inr split: if_splits sum.splits)
  from q obtain n where n: "n \<in> set news" "q = ch_next_seq n" by (auto dest: fetch_optional_SomeD)
  then obtain r where r: "r \<in> set (channels d)" "?hit r" "q = ch_next_seq r + 1"
    unfolding news by auto
  then have act: "in_active s d org" by (auto simp: sees_channel_def)
  then have "?hit = (\<lambda>r. ch_id r = ch \<and> ch_org r = org)" by (auto simp: sees_channel_def)
  with r act d' show ?thesis by (auto simp: bumped_def)
qed

lemma insert_message_Some:
  "insert_message s row d = Inr (Some row', d') \<Longrightarrow> row' = row \<and> m_id row \<notin> key_set m_id (messages d)
     \<and> d' = d\<lparr>messages := messages d @ [row]\<rparr>"
  by (auto simp: insert_message_def checked_Inr split: sum.splits if_splits)

lemma insert_message_None:
  "insert_message s row d = Inr (None, d') \<Longrightarrow> m_id row \<in> key_set m_id (messages d) \<and> d' = d"
  by (auto simp: insert_message_def checked_Inr split: sum.splits if_splits)

definition posted_row ::
    "message_id \<Rightarrow> organization_id \<Rightarrow> channel_id \<Rightarrow> int \<Rightarrow> actor_id \<Rightarrow> ustring \<Rightarrow> instant \<Rightarrow> message_row" where
  "posted_row i org ch q sender body t =
     \<lparr>m_id = as_uuid i, m_org = org, m_channel = ch, m_seq = q, m_sender = sender, m_body = body,
      m_created_at = t\<rparr>"

lemma post_message_Posted:
  assumes "wire c = Healthy" "post_message api org ch a i body c = (Inr (Posted msg), c')"
  shows "in_active (session_for (Actor a) c) (committed c) org
    \<and> as_uuid i \<notin> key_set m_id (messages (committed c))
    \<and> (\<exists>r \<in> set (channels (committed c)). ch_id r = ch \<and> ch_org r = org
       \<and> try_from api (posted_row i org ch (ch_next_seq r + 1) a body (clock c)) = Inr msg
       \<and> committed c' = (committed c)\<lparr>channels := bumped ch org (channels (committed c)),
           messages := messages (committed c)
             @ [posted_row i org ch (ch_next_seq r + 1) a body (clock c)]\<rparr>)"
  using assms
  by (auto simp: post_message_def run_simps posted_row_def set_transaction_read_only_def
      dest!: bump_channel_Some insert_message_Some)

lemma stored_post_Some:
  "stored_post i org ch a s d = Some r \<Longrightarrow> r \<in> set (messages d) \<and> m_id r = as_uuid i \<and> m_org r = org
     \<and> m_channel r = ch \<and> m_sender r = a"
  by (auto simp: stored_post_def dest!: fetch_optional_SomeD)

lemma post_message_AlreadyPosted:
  assumes "wire c = Healthy" "post_message api org ch a i body c = (Inr (AlreadyPosted msg), c')"
  shows "committed c' = committed c
    \<and> (\<exists>r \<in> set (messages (committed c)). m_id r = as_uuid i \<and> m_org r = org \<and> m_channel r = ch
       \<and> m_sender r = a \<and> try_from api r = Inr msg)"
  using assms
  by (auto simp: post_message_def run_simps set_transaction_read_only_def
      dest!: bump_channel_Some insert_message_None stored_post_Some)

lemma post_message_effect:
  assumes "post_message api org ch a i body c = (Inr x, c')" "wire c = Healthy"
  shows "committed c' = committed c
    \<or> (as_uuid i \<notin> key_set m_id (messages (committed c))
       \<and> (\<exists>r \<in> set (channels (committed c)). ch_id r = ch \<and> ch_org r = org
          \<and> committed c' = (committed c)\<lparr>channels := bumped ch org (channels (committed c)),
              messages := messages (committed c)
                @ [posted_row i org ch (ch_next_seq r + 1) a body (clock c)]\<rparr>))"
proof (cases x)
  case (Posted m)
  with post_message_Posted assms show ?thesis by metis
next
  case (AlreadyPosted m)
  with post_message_AlreadyPosted assms show ?thesis by metis
qed

lemma attempt_channel_exists [tx_simps]:
  "wire c = Healthy \<Longrightarrow> attempt f (channel_exists org ch) k c =
     k (\<exists>r \<in> set (channels (view c)). sees_channel (session c) (view c) r \<and> ch_org r = org \<and> ch_id r = ch) c"
  by (simp add: channel_exists_def tx_simps filter_empty_conv conj_ac del: not_None_eq)

lemma run_channel_exists [run_simps]:
  "wire c = Healthy \<Longrightarrow> attempt f (channel_exists org ch) k c = (Inr b, c') \<longleftrightarrow>
     k (\<exists>r \<in> set (channels (view c)). sees_channel (session c) (view c) r \<and> ch_org r = org \<and> ch_id r = ch) c = (Inr b, c')"
  by (simp add: attempt_channel_exists)

end
