(* ===== verification/Identity.thy ===== *)
theory Identity
  imports Locks
begin

text \<open>
  \<open>crates/db/src/operations/identity.rs\<close>: a person is created inside a savepoint of the caller's
  transaction, an organization in a transaction of its own.
\<close>

definition create_person ::
    "ustring \<Rightarrow> string \<Rightarrow> ustring \<Rightarrow> (create_person_error, actor_id) tx" where
  "create_person email password_hash display_name =
     savepoint create_person_error.Database (
       attempt id now_v7 (\<lambda>actor.
       attempt create_person_error.Database (execute (\<lambda>s. insert_actor s actor display_name)) (\<lambda>_.
       attempt create_person_error.Database (set_context (Actor actor)) (\<lambda>_.
       attempt (\<lambda>error. if constraint error ''users_email_lower_key'' then create_person_error.EmailTaken
                        else create_person_error.Database error)
         (execute (\<lambda>s. insert_user s actor email password_hash)) (\<lambda>_.
       attempt create_person_error.Database release_savepoint (\<lambda>_.
       ok actor))))))"

definition create_organization ::
    "actor_id \<Rightarrow> ustring \<Rightarrow> ustring \<Rightarrow> (create_organization_error, organization_id) tx" where
  "create_organization creator name slug =
     attempt create_organization_error.Database (begin_tx (Actor creator)) (\<lambda>_.
     attempt create_organization_error.Database (lock_actor creator creator) (\<lambda>departed.
     (case departed of
        None \<Rightarrow> throw create_organization_error.ActorNotFound
      | Some departed \<Rightarrow>
          if departed then throw create_organization_error.ActorDeparted
          else
            attempt id now_v7 (\<lambda>organization.
            attempt (\<lambda>error.
                if constraint error ''organizations_slug_format'' then create_organization_error.InvalidSlug
                else if constraint error ''organizations_slug_key'' then create_organization_error.SlugTaken
                else create_organization_error.Database error)
              (execute (\<lambda>s. insert_organization s organization name slug)) (\<lambda>_.
            attempt create_organization_error.Database
              (execute (\<lambda>s. insert_member s organization creator ''owner'' ''active'')) (\<lambda>_.
            attempt create_organization_error.Database
              (write_event (organization_created organization) organization creator) (\<lambda>_.
            attempt create_organization_error.Database
              (write_event (member_added creator Owner) organization creator) (\<lambda>_.
            attempt create_organization_error.Database commit (\<lambda>_.
            ok organization)))))))))"

lemma steady_create_person [steady_intros]: "steady (create_person e h n)"
  unfolding create_person_def by (intro steady_intros)

lemma traced_create_person [keeps_intros]: "traced (create_person e h n)"
  unfolding create_person_def by (intro keeps_intros steady_intros)

lemma atomic_create_organization [atomic_intros]: "atomic (create_organization a n sl)"
  unfolding create_organization_def by (intro atomic_intros steady_intros)

interpretation create_organization: operation "create_organization a n sl" for a n sl
  by unfold_locales (intro atomic_intros, unfold create_organization_def, intro keeps_intros)

section \<open>What a successful run did\<close>

definition person_rows :: "actor_id \<Rightarrow> ustring \<Rightarrow> string \<Rightarrow> ustring \<Rightarrow> db \<Rightarrow> db" where
  "person_rows i email password_hash display_name d =
     d\<lparr>actors := actors d @ [\<lparr>a_id = i, a_type = ''human'', a_display_name = Some display_name,
         a_deleted_at = None\<rparr>],
       users := users d @ [\<lparr>u_actor_id = i, u_actor_type = ''human'', u_email = email,
         u_password_hash = password_hash\<rparr>]\<rparr>"

lemma create_person_run:
  assumes "wire c = Healthy"
  shows "create_person email h name c = (Inr a, c') \<longleftrightarrow>
    a = uuids c (drawn c) \<and> bindable name \<and> bindable email \<and> bindable_str h
    \<and> a \<notin> key_set a_id (actors (view c)) \<and> a \<notin> key_set u_actor_id (users (view c))
    \<and> ascii_lower email \<notin> key_set (\<lambda>u. ascii_lower (u_email u)) (users (view c))
    \<and> c' = c\<lparr>view := person_rows a email h name (view c),
            session := apply_context (Actor a) (session c), drawn := Suc (drawn c)\<rparr>"
proof -
  have "create_person email h name c = (Inr a, c') \<longleftrightarrow>
      attempt id (create_person email h name) ok c = (Inr a, c')"
    by (auto simp: attempt_def ok_def split: prod.splits sum.splits)
  also have "\<dots> \<longleftrightarrow> a = uuids c (drawn c) \<and> bindable name \<and> bindable email \<and> bindable_str h
    \<and> a \<notin> key_set a_id (actors (view c)) \<and> a \<notin> key_set u_actor_id (users (view c))
    \<and> ascii_lower email \<notin> key_set (\<lambda>u. ascii_lower (u_email u)) (users (view c))
    \<and> c' = c\<lparr>view := person_rows a email h name (view c),
            session := apply_context (Actor a) (session c), drawn := Suc (drawn c)\<rparr>"
    using assms
    by (auto simp: create_person_def run_simps insert_actor_def insert_user_def checked_Inr
        is_self_def person_rows_def)
  finally show ?thesis .
qed

lemma run_create_person [run_simps]:
  "wire c = Healthy \<Longrightarrow> attempt f (create_person email h name) k c = (Inr b, c') \<longleftrightarrow>
     (\<exists>c1. create_person email h name c = (Inr (uuids c (drawn c)), c1)
       \<and> k (uuids c (drawn c)) c1 = (Inr b, c'))"
  unfolding attempt_Inr by (metis create_person_run)

lemma create_organization_run:
  assumes "wire c = Healthy" "create_organization creator name slug c = (Inr org, c')"
  shows "org = uuids c (drawn c)
    \<and> departed_state (session_for (Actor creator) c) (committed c) creator = Some False
    \<and> org \<notin> key_set o_id (organizations (committed c))
    \<and> committed c' = audited (uuids c (Suc (Suc (drawn c)))) (member_added creator Owner) org creator
        (audited (uuids c (Suc (drawn c))) (organization_created org) org creator
          ((committed c)\<lparr>organizations := organizations (committed c)
               @ [\<lparr>o_id = org, o_name = name, o_slug = slug\<rparr>],
             organization_members := organization_members (committed c)
               @ [\<lparr>om_org = org, om_actor = creator, om_role = ''owner'', om_status = ''active'',
                   om_display_name = None\<rparr>]\<rparr>))"
  using assms
  by (auto simp: create_organization_def run_simps insert_organization_def insert_member_def
      checked_Inr Let_def)

end
