(* ===== verification/Invites.thy ===== *)
theory Invites
  imports Identity
begin

text \<open>
  \<open>crates/db/src/operations/invites.rs\<close>: creating and revoking an invite, looking one up, and joining with
  one. \<open>new_token\<close> is the caller's closure: the token and its hash, or \<open>None\<close> when the random source fails.
\<close>

definition create_invite ::
    "actor_id \<Rightarrow> organization_id \<Rightarrow> ('t \<times> token_hash) option \<Rightarrow> instant \<Rightarrow> int
       \<Rightarrow> (create_invite_error, invite_id \<times> 't) tx" where
  "create_invite performed_by organization new_token expires_at max_uses =
     attempt create_invite_error.Database (begin_tx (Actor performed_by)) (\<lambda>_.
     attempt create_invite_error.Database (lock_actor performed_by performed_by) (\<lambda>_.
     attempt create_invite_error.Database (lock_organization organization Share) (\<lambda>found.
     if \<not> found then throw create_invite_error.NotAMember
     else
       attempt create_invite_error.Database (authorize performed_by organization InviteMember) (\<lambda>access.
       (case access of
          Allowed \<Rightarrow>
            require create_invite_error.TokenUnavailable new_token (\<lambda>(token, token_hash).
            attempt id now_v7 (\<lambda>i.
            attempt create_invite_error.Database
              (execute (\<lambda>s. insert_invite s i organization token_hash expires_at max_uses performed_by))
              (\<lambda>inserted.
            if inserted = None then throw create_invite_error.NotAMember
            else
              attempt create_invite_error.Database
                (write_event (invite_created organization i max_uses) organization performed_by) (\<lambda>_.
              attempt create_invite_error.Database commit (\<lambda>_.
              ok (i, token))))))
        | Forbidden \<Rightarrow> throw create_invite_error.Forbidden
        | NotAMember \<Rightarrow> throw create_invite_error.NotAMember)))))"

definition invite_row_of :: "organization_id \<Rightarrow> invite_id \<Rightarrow> session \<Rightarrow> db \<Rightarrow> invite_row option" where
  "invite_row_of org invite s d =
     fetch_optional (filter (\<lambda>i. sees_invite s d i \<and> i_org i = org \<and> i_id i = invite) (invites d))"

definition revoke_invite ::
    "actor_id \<Rightarrow> organization_id \<Rightarrow> invite_id option \<Rightarrow> (revoke_invite_error, unit) tx" where
  "revoke_invite performed_by organization invite =
     attempt revoke_invite_error.Database (begin_tx (Actor performed_by)) (\<lambda>_.
     attempt revoke_invite_error.Database (lock_actor performed_by performed_by) (\<lambda>_.
     attempt revoke_invite_error.Database (lock_organization organization Share) (\<lambda>found.
     if \<not> found then throw revoke_invite_error.NotAMember
     else
       attempt revoke_invite_error.Database (authorize performed_by organization InviteMember) (\<lambda>access.
       (case access of
          Allowed \<Rightarrow>
            require revoke_invite_error.NotFound invite (\<lambda>invite.
            attempt revoke_invite_error.Database (query (invite_row_of organization invite)) (\<lambda>row.
            require revoke_invite_error.NotFound row (\<lambda>row.
            if i_revoked_at row = None
            then
              attempt revoke_invite_error.Database
                (execute (\<lambda>s. set_invite_revoked s organization invite)) (\<lambda>_.
              attempt revoke_invite_error.Database
                (write_event (invite_revoked organization invite) organization performed_by) (\<lambda>_.
              attempt revoke_invite_error.Database commit (\<lambda>_.
              ok ())))
            else attempt revoke_invite_error.Database commit (\<lambda>_. ok ()))))
        | Forbidden \<Rightarrow> throw revoke_invite_error.Forbidden
        | NotAMember \<Rightarrow> throw revoke_invite_error.NotAMember)))))"

definition usable_invite :: "token_hash \<Rightarrow> session \<Rightarrow> db \<Rightarrow> invite_row option" where
  "usable_invite th s d =
     fetch_optional (filter (\<lambda>i. sees_invite s d i \<and> i_token_hash i = hash_str th
       \<and> i_kind i = ''organization'' \<and> i_used_count i < i_max_uses i \<and> i_revoked_at i = None
       \<and> i_expires_at i > tx_now s) (invites d))"

definition invite_is_usable :: "token_hash \<Rightarrow> (access_error, bool) tx" where
  "invite_is_usable token_hash =
     attempt access_error.Database (begin_tx (InviteTokenContext token_hash)) (\<lambda>_.
     attempt access_error.Database (query (usable_invite token_hash)) (\<lambda>row.
     attempt access_error.Database commit (\<lambda>_.
     ok (row \<noteq> None))))"

definition accepts_new_person :: "string \<Rightarrow> bool" where
  "accepts_new_person kind =
     (case invite_kind_parse kind of
        Some OrganizationInvite \<Rightarrow> True
      | Some TeamInvite \<Rightarrow> False
      | None \<Rightarrow> False)"

definition accept_person_error :: "create_person_error \<Rightarrow> accept_invite_error" where
  "accept_person_error error =
     (case error of
        create_person_error.EmailTaken \<Rightarrow> accept_invite_error.EmailTaken
      | create_person_error.Database error \<Rightarrow> accept_invite_error.Database error)"

definition accept_invite ::
    "token_hash \<Rightarrow> ustring \<Rightarrow> string \<Rightarrow> ustring \<Rightarrow> (accept_invite_error, actor_id \<times> organization_id) tx" where
  "accept_invite token_hash email password_hash display_name =
     attempt accept_invite_error.Database (begin_tx (InviteTokenContext token_hash)) (\<lambda>_.
     attempt accept_invite_error.Database (execute (\<lambda>s. use_invite s token_hash)) (\<lambda>row.
     require accept_invite_error.InviteUnusable row (\<lambda>row.
     if \<not> accepts_new_person (i_kind row) then throw accept_invite_error.InviteUnusable
     else
       (let organization = i_org row
        in attempt accept_person_error (create_person email password_hash display_name) (\<lambda>actor.
           attempt accept_invite_error.Database
             (execute (\<lambda>s. insert_member s organization actor ''member'' ''active'')) (\<lambda>_.
           attempt accept_invite_error.Database
             (write_event (member_invited actor (i_id row)) organization actor) (\<lambda>_.
           attempt accept_invite_error.Database commit (\<lambda>_.
           ok (actor, organization)))))))))"

section \<open>All or nothing\<close>

interpretation create_invite: operation "create_invite p org t ex n" for p org t ex n
  by unfold_locales
    (unfold create_invite_def, intro atomic_intros steady_intros, intro keeps_intros)

interpretation revoke_invite: operation "revoke_invite p org i" for p org i
  by unfold_locales
    (unfold revoke_invite_def, intro atomic_intros steady_intros, intro keeps_intros)

interpretation invite_is_usable: operation "invite_is_usable th" for th
  by unfold_locales
    (unfold invite_is_usable_def, intro atomic_intros steady_intros, intro keeps_intros)

interpretation accept_invite: operation "accept_invite th e h n" for th e h n
  by unfold_locales
    (unfold accept_invite_def, intro atomic_intros steady_intros, intro keeps_intros)

section \<open>What a successful run did\<close>

lemma run_access [run_simps]:
  "(case x of Allowed \<Rightarrow> m | Forbidden \<Rightarrow> throw e1 | NotAMember \<Rightarrow> throw e2) c = (Inr b, c') \<longleftrightarrow>
     x = Allowed \<and> m c = (Inr b, c')"
  by (cases x) (auto simp: throw_def)

lemma run_authorize [run_simps]:
  "wire c = Healthy \<Longrightarrow> attempt f (authorize a org cap) k c = (Inr b, c') \<longleftrightarrow>
     (\<exists>x. access_of (session c) (view c) org a cap = Inr x \<and> k x c = (Inr b, c'))"
  by (auto simp: attempt_authorize split: sum.splits)

lemma access_of_Allowed:
  "access_of s d org a cap = Inr Allowed \<longleftrightarrow>
     (\<exists>row ro. active_membership org a s d = Some row \<and> om_role row = role_str ro \<and> holds ro cap)"
  by (auto simp: access_of_def role.parse_iff split: option.splits)

definition new_invite_row ::
    "invite_id \<Rightarrow> organization_id \<Rightarrow> token_hash \<Rightarrow> instant \<Rightarrow> int \<Rightarrow> actor_id \<Rightarrow> nat \<Rightarrow> invite_row" where
  "new_invite_row i org th expires_at max_uses creator x =
     \<lparr>i_id = i, i_org = org, i_kind = ''organization'', i_target_team = None, i_token_hash = hash_str th,
      i_expires_at = expires_at, i_max_uses = max_uses, i_used_count = 0, i_revoked_at = None,
      i_created_by = creator, i_xmin = x\<rparr>"

lemma insert_invite_Some:
  "insert_invite s i org th ex mu cr d = Inr (Some j, d') \<Longrightarrow>
     j = i \<and> d' = d\<lparr>invites := invites d @ [new_invite_row i org th ex mu cr (xid s)]\<rparr>
     \<and> hash_str th \<notin> key_set i_token_hash (invites d) \<and> 0 < mu"
proof -
  assume r: "insert_invite s i org th ex mu cr d = Inr (Some j, d')"
  then obtain r rs where f: "filter (\<lambda>r. sees_organization s d r \<and> o_id r = org) (organizations d) = r # rs"
    by (cases "filter (\<lambda>r. sees_organization s d r \<and> o_id r = org) (organizations d)")
      (auto simp: insert_invite_def)
  then have "o_id r = org" by (metis (mono_tags) filter_eq_ConsD)
  with r f show ?thesis
    by (auto simp: insert_invite_def checked_Inr Let_def new_invite_row_def)
qed

lemma create_invite_run:
  assumes "wire c = Healthy" "create_invite p org t ex n c = (Inr (i, tok), c')"
  shows "i = uuids c (drawn c) \<and> in_active (session_for (Actor p) c) (committed c) org
    \<and> access_of (session_for (Actor p) c) (committed c) org p InviteMember = Inr Allowed
    \<and> (\<exists>th. t = Some (tok, th) \<and> hash_str th \<notin> key_set i_token_hash (invites (committed c)) \<and> 0 < n
      \<and> committed c' = audited (uuids c (Suc (drawn c))) (invite_created org i n) org p
        ((committed c)\<lparr>invites := invites (committed c)
            @ [new_invite_row i org th ex n p (Suc (xid (session c)))]\<rparr>))"
  using assms
  by (auto simp: create_invite_def run_simps dest!: visible_organization_SomeD insert_invite_Some)

lemma sees_invite_in_active:
  "in_active s d org \<Longrightarrow> (\<lambda>i. sees_invite s d i \<and> i_org i = org \<and> i_id i = x) = (\<lambda>i. i_org i = org \<and> i_id i = x)"
  by (auto simp: sees_invite_def)

lemma set_invite_revoked_run:
  "set_invite_revoked s org x d = Inr (u, d') \<Longrightarrow> in_active s d org \<Longrightarrow>
     d' = d\<lparr>invites := update_where (\<lambda>i. i_org i = org \<and> i_id i = x)
        (\<lambda>i. i\<lparr>i_revoked_at := Some (tx_now s), i_xmin := xid s\<rparr>) (invites d)\<rparr>"
  by (auto simp: set_invite_revoked_def rls_update_Inr sees_invite_in_active split: sum.splits)

lemma revoke_invite_run:
  assumes "wire c = Healthy" "revoke_invite p org x c = (Inr u, c')"
  shows "in_active (session_for (Actor p) c) (committed c) org
    \<and> access_of (session_for (Actor p) c) (committed c) org p InviteMember = Inr Allowed
    \<and> (\<exists>i row. x = Some i \<and> invite_row_of org i (session_for (Actor p) c) (committed c) = Some row
       \<and> (if i_revoked_at row \<noteq> None then committed c' = committed c
          else committed c' = audited (uuids c (drawn c)) (invite_revoked org i) org p
            ((committed c)\<lparr>invites := update_where (\<lambda>r. i_org r = org \<and> i_id r = i)
               (\<lambda>r. r\<lparr>i_revoked_at := Some (clock c), i_xmin := Suc (xid (session c))\<rparr>)
               (invites (committed c))\<rparr>)))"
  using assms
  apply (clarsimp simp: revoke_invite_def run_simps dest!: visible_organization_SomeD)
  apply (elim disjE conjE exE)
   apply (auto dest!: set_invite_revoked_run)
  done

lemma accepts_new_person_iff: "accepts_new_person kind \<longleftrightarrow> kind = ''organization''"
  by (simp add: accepts_new_person_def invite_kind_parse_def)

definition admits :: "conn \<Rightarrow> token_hash \<Rightarrow> invite_row \<Rightarrow> bool" where
  "admits c th i \<longleftrightarrow> i_token_hash i = hash_str th \<and> i_used_count i < i_max_uses i \<and> i_revoked_at i = None
     \<and> i_expires_at i > clock c"

lemma use_invite_run:
  assumes use: "use_invite s th d = Inr (Some row, d')"
    and token: "invite_token_setting s = Some (hash_str th)"
  shows "(\<exists>i \<in> set (invites d). usable s (hash_str th) i
        \<and> row = i\<lparr>i_used_count := i_used_count i + 1, i_xmin := xid s\<rparr>)
     \<and> d' = d\<lparr>invites := update_where (usable s (hash_str th))
          (\<lambda>i. i\<lparr>i_used_count := i_used_count i + 1, i_xmin := xid s\<rparr>) (invites d)\<rparr>"
proof -
  let ?f = "\<lambda>i. i\<lparr>i_used_count := i_used_count i + 1, i_xmin := xid s\<rparr>"
  let ?upd = "rls_update (usable s (hash_str th)) (guard_invite_use s) (sees_invite s d) ?f (invites d)"
  have hit: "(\<lambda>i. sees_invite s d i \<and> usable s (hash_str th) i) = usable s (hash_str th)"
    unfolding sees_invite_def usable_def token by (intro ext) (metis option.inject)
  show ?thesis
  proof (cases ?upd)
    case (Inl e)
    with use show ?thesis unfolding use_invite_def hit by simp
  next
    case (Inr nr)
    obtain news rows where nr: "nr = (news, rows)" by fastforce
    have row: "fetch_optional news = Some row" and d': "d' = d\<lparr>invites := rows\<rparr>"
      using use unfolding use_invite_def hit Inr nr by simp_all
    have news: "news = map ?f (filter (usable s (hash_str th)) (invites d))"
      and rows: "rows = update_where (usable s (hash_str th)) ?f (invites d)"
      using Inr unfolding nr rls_update_Inr by simp_all
    have "row \<in> ?f ` set (filter (usable s (hash_str th)) (invites d))"
      using fetch_optional_SomeD [OF row] unfolding news by simp
    then show ?thesis unfolding d' rows by auto
  qed
qed

lemma accept_invite_run:
  assumes "wire c = Healthy" "accept_invite th email h name c = (Inr (a, org), c')"
  shows "a = uuids c (drawn c) \<and> a \<notin> key_set a_id (actors (committed c))
    \<and> (\<exists>i \<in> set (invites (committed c)). i_org i = org \<and> i_kind i = ''organization'' \<and> admits c th i
       \<and> committed c' = audited (uuids c (Suc (drawn c))) (member_invited a (i_id i)) org a
          ((person_rows a email h name (committed c))\<lparr>
             invites := update_where (admits c th)
               (\<lambda>i. i\<lparr>i_used_count := i_used_count i + 1, i_xmin := Suc (xid (session c))\<rparr>)
               (invites (committed c)),
             organization_members := organization_members (committed c)
               @ [\<lparr>om_org = org, om_actor = a, om_role = ''member'', om_status = ''active'',
                   om_display_name = None\<rparr>]\<rparr>))"
proof -
  have u: "usable (session_for ctx c) (hash_str th) = admits c th" for ctx
    by (auto simp: usable_def admits_def)
  show ?thesis
    using assms
    apply (clarsimp simp: accept_invite_def run_simps Let_def create_person_run accepts_new_person_iff
        insert_member_def checked_Inr)
    apply (drule use_invite_run, simp)
    apply (elim conjE bexE)
    apply (rule conjI, simp add: person_rows_def)
    apply (rule_tac x = i in bexI)
     apply (simp_all add: u person_rows_def)
    done
qed

end
