(* ===== verification/Sessions.thy ===== *)
theory Sessions
  imports Locks
begin

text \<open>
  \<open>crates/db/src/operations/sessions.rs\<close>: signing in, resolving and revoking a session, and reading oneself.
  \<open>verify\<close> is the caller's password check, run on a blocking thread: \<open>None\<close> is a crashed worker.
\<close>

definition person_by_email :: "ustring \<Rightarrow> session \<Rightarrow> db \<Rightarrow> user_row option" where
  "person_by_email email s d =
     fetch_optional (filter (\<lambda>u. sees_user s d u \<and> ascii_lower (u_email u) = ascii_lower email) (users d))"

definition user_exists :: "actor_id \<Rightarrow> session \<Rightarrow> db \<Rightarrow> bool" where
  "user_exists actor s d = list_ex (\<lambda>u. sees_user s d u \<and> u_actor_id u = actor) (users d)"

definition sign_in ::
    "ustring \<Rightarrow> (string \<Rightarrow> bool option) \<Rightarrow> ('t \<times> token_hash) option \<Rightarrow> instant
       \<Rightarrow> (sign_in_error, actor_id \<times> 't) tx" where
  "sign_in email verify new_token expires_at =
     attempt sign_in_error.Database (begin_tx (SignInEmail email)) (\<lambda>_.
     attempt sign_in_error.Database (query (person_by_email email)) (\<lambda>person.
     (let phc = (case person of None \<Rightarrow> dummy_password_hash | Some person \<Rightarrow> u_password_hash person)
      in require (sign_in_error.Database WorkerCrashed) (verify phc) (\<lambda>verified.
         require sign_in_error.InvalidCredentials (if verified then person else None) (\<lambda>person.
         (let actor = u_actor_id person
          in attempt sign_in_error.Database (set_context (Actor actor)) (\<lambda>_.
             attempt sign_in_error.Database (lock_actor actor actor) (\<lambda>departed.
             if departed \<noteq> Some False then throw sign_in_error.InvalidCredentials
             else
               attempt sign_in_error.Database (query (user_exists actor)) (\<lambda>still_a_person.
               if \<not> still_a_person then throw sign_in_error.InvalidCredentials
               else
                 require sign_in_error.TokenUnavailable new_token (\<lambda>(token, token_hash).
                 attempt id now_v7 (\<lambda>i.
                 attempt sign_in_error.Database
                   (execute (\<lambda>s. insert_session s i actor token_hash expires_at)) (\<lambda>_.
                 attempt sign_in_error.Database commit (\<lambda>_.
                 ok (actor, token))))))))))))))"

definition live_session :: "token_hash \<Rightarrow> session \<Rightarrow> db \<Rightarrow> session_row option" where
  "live_session th s d =
     fetch_optional (filter (\<lambda>r. sees_session s d r \<and> s_token_hash r = hash_str th
       \<and> s_revoked_at r = None \<and> s_expires_at r > tx_now s) (sessions d))"

definition resolve_session :: "token_hash \<Rightarrow> (session_error, actor_id) tx" where
  "resolve_session token_hash =
     attempt session_error.Database (begin_tx (SessionTokenContext token_hash)) (\<lambda>_.
     attempt session_error.Database (query (live_session token_hash)) (\<lambda>row.
     require session_error.NoSession row (\<lambda>row.
     attempt session_error.Database commit (\<lambda>_.
     ok (s_actor row)))))"

definition revoke_session :: "actor_id \<Rightarrow> token_hash \<Rightarrow> (session_error, unit) tx" where
  "revoke_session actor token_hash =
     attempt session_error.Database (begin_tx (Actor actor)) (\<lambda>_.
     attempt session_error.Database (execute (\<lambda>s. set_session_revoked s actor token_hash)) (\<lambda>rows_affected.
     if rows_affected = 0 then throw session_error.NoSession
     else
       attempt session_error.Database commit (\<lambda>_.
       ok ())))"

record me_row =
  me_actor_id :: actor_id
  me_actor_type :: actor_type
  me_display_name :: "ustring option"
  me_email :: "ustring option"

definition self_with_user :: "actor_id \<Rightarrow> session \<Rightarrow> db \<Rightarrow> (actor_row \<times> ustring option) option" where
  "self_with_user actor s d =
     map_option (\<lambda>a. (a, map_option u_email
         (fetch_optional (filter (\<lambda>u. sees_user s d u \<and> u_actor_id u = a_id a) (users d)))))
       (fetch_optional (filter (\<lambda>a. sees_actor s d a \<and> a_id a = actor \<and> a_deleted_at a = None) (actors d)))"

definition me :: "actor_id \<Rightarrow> (session_error, me_row) tx" where
  "me actor =
     attempt session_error.Database (begin_tx (Actor actor)) (\<lambda>_.
     attempt session_error.Database (query (self_with_user actor)) (\<lambda>row.
     require session_error.NoSession row (\<lambda>(row, email).
     require (session_error.Database (Decode ''invalid actor type''))
       (actor_type_parse (a_type row)) (\<lambda>actor_type.
     attempt session_error.Database commit (\<lambda>_.
     ok \<lparr>me_actor_id = a_id row, me_actor_type = actor_type,
         me_display_name = a_display_name row, me_email = email\<rparr>)))))"

section \<open>All or nothing\<close>

interpretation sign_in: operation "sign_in e v t ex" for e v t ex
  by unfold_locales
    (unfold sign_in_def, intro atomic_intros steady_intros, intro keeps_intros)

interpretation resolve_session: operation "resolve_session th" for th
  by unfold_locales
    (unfold resolve_session_def, intro atomic_intros steady_intros, intro keeps_intros)

interpretation revoke_session: operation "revoke_session a th" for a th
  by unfold_locales
    (unfold revoke_session_def, intro atomic_intros steady_intros, intro keeps_intros)

interpretation me: operation "me a" for a
  by unfold_locales
    (unfold me_def, intro atomic_intros steady_intros, intro keeps_intros)

section \<open>What a successful run did\<close>

lemma sign_in_run:
  assumes "wire c = Healthy" "sign_in email verify t ex c = (Inr (a, tok), c')"
  shows "\<exists>u th. u \<in> set (users (committed c)) \<and> u_actor_id u = a
    \<and> ascii_lower (u_email u) = ascii_lower email \<and> verify (u_password_hash u) = Some True
    \<and> t = Some (tok, th) \<and> hash_str th \<notin> key_set s_token_hash (sessions (committed c))
    \<and> committed c' = (committed c)\<lparr>sessions := sessions (committed c)
        @ [\<lparr>s_id = uuids c (drawn c), s_actor = a, s_token_hash = hash_str th, s_expires_at = ex,
            s_revoked_at = None\<rparr>]\<rparr>"
  using assms
  by (auto simp: sign_in_def run_simps Let_def insert_session_def checked_Inr person_by_email_def
      split: if_splits option.splits dest!: fetch_optional_SomeD)

lemma resolve_session_run:
  assumes "wire c = Healthy"
  shows "resolve_session th c = (Inr a, c') \<longleftrightarrow>
    (\<exists>r. live_session th (session_for (SessionTokenContext th) c) (committed c) = Some r \<and> a = s_actor r
      \<and> c' = c\<lparr>view := committed c, session := session_for (SessionTokenContext th) c\<rparr>)"
  using assms by (auto simp: resolve_session_def run_simps)

lemma revoke_session_run:
  assumes "wire c = Healthy" "revoke_session a th c = (Inr u, c')"
  shows "(\<exists>r \<in> set (sessions (committed c)). s_actor r = a \<and> s_token_hash r = hash_str th)
    \<and> committed c' = (committed c)\<lparr>sessions :=
        update_where (\<lambda>r. s_actor r = a \<and> s_token_hash r = hash_str th)
          (\<lambda>r. r\<lparr>s_revoked_at := Some (case s_revoked_at r of Some t \<Rightarrow> t | None \<Rightarrow> clock c)\<rparr>)
          (sessions (committed c))\<rparr>"
proof -
  have "(\<lambda>r. sees_session (session_for (Actor a) c) d r \<and> is_self (session_for (Actor a) c) (s_actor r)
      \<and> s_actor r = a \<and> s_token_hash r = hash_str th) = (\<lambda>r. s_actor r = a \<and> s_token_hash r = hash_str th)" for d
    by (auto simp: sees_session_def)
  then show ?thesis
    using assms
    by (auto simp: revoke_session_def run_simps set_session_revoked_def rls_update_Inr filter_empty_conv
        split: sum.splits cong: option.case_cong)
qed

lemma me_run:
  assumes "wire c = Healthy" "me a c = (Inr m, c')"
  shows "me_actor_id m = a \<and> committed c' = committed c
    \<and> (\<exists>r \<in> set (actors (committed c)). a_id r = a \<and> a_deleted_at r = None
        \<and> me_display_name m = a_display_name r)"
  using assms
  by (auto simp: me_def run_simps self_with_user_def dest!: fetch_optional_SomeD)

end
