(* ===== verification/Leaving.thy ===== *)
theory Leaving
  imports Locks
begin

text \<open>
  \<open>crates/db/src/operations/leaving.rs\<close>: leaving the service. Every owner check comes first, then the audit
  records and the deletions organization by organization, then the memberships, the person and the actor.
\<close>

definition own_actor :: "actor_id \<Rightarrow> session \<Rightarrow> db \<Rightarrow> actor_row option" where
  "own_actor actor s d = fetch_optional (filter (\<lambda>a. sees_actor s d a \<and> a_id a = actor) (actors d))"

definition organizations_active_in :: "actor_id \<Rightarrow> session \<Rightarrow> db \<Rightarrow> organization_id list" where
  "organizations_active_in actor s d = map o_id (sort_key o_id (filter (\<lambda>r. sees_organization s d r
     \<and> list_ex (\<lambda>m. sees_member s d m \<and> om_org m = o_id r \<and> om_actor m = actor
          \<and> om_status m = ''active'') (organization_members d)) (organizations d)))"

definition memberships_of :: "actor_id \<Rightarrow> session \<Rightarrow> db \<Rightarrow> (organization_id \<times> string) list" where
  "memberships_of actor s d = map (\<lambda>m. (om_org m, om_status m))
     (sort_key om_org (filter (\<lambda>m. sees_member s d m \<and> om_actor m = actor) (organization_members d)))"

definition channel_organizations_of :: "actor_id \<Rightarrow> session \<Rightarrow> db \<Rightarrow> organization_id list" where
  "channel_organizations_of actor s d = sort (remdups (map cm_org
     (filter (\<lambda>m. sees_channel_member s d m \<and> cm_actor m = actor) (channel_members d))))"

definition channel_listings :: "organization_id \<Rightarrow> actor_id \<Rightarrow> session \<Rightarrow> db \<Rightarrow> channel_id list" where
  "channel_listings org actor s d = sort (map cm_channel
     (filter (\<lambda>m. sees_channel_member s d m \<and> cm_org m = org \<and> cm_actor m = actor) (channel_members d)))"

definition leave_organization :: "organization_id \<Rightarrow> actor_id \<Rightarrow> (sqlx_error, unit) tx" where
  "leave_organization organization actor =
     attempt id (execute (\<lambda>s. delete_team_memberships s organization actor)) (\<lambda>removed.
     for_each removed (\<lambda>team.
       write_event (team_member_removed actor team LeftService) organization actor))"

definition leave_channels :: "organization_id \<Rightarrow> actor_id \<Rightarrow> (sqlx_error, unit) tx" where
  "leave_channels organization actor =
     attempt id (query (channel_listings organization actor)) (\<lambda>listings.
     attempt id (for_each listings (\<lambda>channel.
       write_event (channel_member_left actor channel) organization actor)) (\<lambda>_.
     execute (\<lambda>s. delete_channel_memberships s organization actor)))"

definition leave_service :: "actor_id \<Rightarrow> (leave_service_error, unit) tx" where
  "leave_service actor_id =
     attempt leave_service_error.Database (begin_tx (Actor actor_id)) (\<lambda>_.
     attempt leave_service_error.Database (query (own_actor actor_id)) (\<lambda>row.
     require leave_service_error.NotFound row (\<lambda>actor.
     if a_deleted_at actor \<noteq> None then throw leave_service_error.NotFound
     else
       attempt leave_service_error.Database (query (organizations_active_in actor_id)) (\<lambda>organizations.
       attempt id (for_each organizations (\<lambda>organization.
         attempt leave_service_error.Database (active_owners organization) (\<lambda>owners.
         require_ok (\<lambda>_. leave_service_error.LastOwner organization)
           (check_owner_change owners (Leave actor_id)) ok))) (\<lambda>_.
       attempt leave_service_error.Database (query (memberships_of actor_id)) (\<lambda>memberships.
       attempt leave_service_error.Database (query (channel_organizations_of actor_id))
         (\<lambda>channel_organizations.
       attempt id (for_each memberships (\<lambda>(organization, stored_status).
         attempt leave_service_error.Database (leave_organization organization actor_id) (\<lambda>_.
         require (leave_service_error.Database (Protocol ''invalid stored membership status''))
           (status_parse stored_status) (\<lambda>status.
         if status \<noteq> Left
         then attempt leave_service_error.Database
                (write_event (member_left actor_id) organization actor_id) ok
         else ok ())))) (\<lambda>_.
       attempt id (for_each channel_organizations (\<lambda>organization.
         attempt leave_service_error.Database (leave_channels organization actor_id) ok)) (\<lambda>_.
       attempt id (for_each memberships (\<lambda>(organization, _).
         attempt leave_service_error.Database
           (execute (\<lambda>s. set_member_left s organization actor_id)) ok)) (\<lambda>_.
       attempt leave_service_error.Database (execute (\<lambda>s. delete_user s actor_id)) (\<lambda>_.
       attempt leave_service_error.Database (execute (\<lambda>s. erase_actor s actor_id)) (\<lambda>_.
       attempt leave_service_error.Database commit (\<lambda>_.
       ok ())))))))))))))"

section \<open>All or nothing\<close>

lemma steady_leaving [steady_intros]:
  "steady (leave_organization org a)" "steady (leave_channels org a)"
  unfolding leave_organization_def leave_channels_def by (intro steady_intros)+

lemma traced_leaving [keeps_intros]:
  "traced (leave_organization org a)" "traced (leave_channels org a)"
  unfolding leave_organization_def leave_channels_def by (intro keeps_intros)+

interpretation leave_service: operation "leave_service a" for a
  by unfold_locales
    (unfold leave_service_def, intro atomic_intros steady_intros, intro keeps_intros)

end
