(* ===== verification/Departure.thy ===== *)
theory Departure
  imports Leaving Membership "HOL-Library.Multiset"
begin

text \<open>
  What a successful \<open>leave_service\<close> did, loop by loop: the rows it removed or emptied and the audit records
  it wrote.
\<close>

section \<open>Audit records written in a loop\<close>

text \<open>A departure's events in the order they are written, each with the organization it is recorded in.\<close>

type_synonym placed_event = "organization_id \<times> event"

definition records :: "actor_id \<Rightarrow> audit_row list \<Rightarrow> placed_event list \<Rightarrow> bool" where
  "records p es evs \<longleftrightarrow> list_all2 (\<lambda>e (org, ev). e = audit_row_of (ae_id e) ev org p) es evs"

lemma records_Nil [simp]: "records p [] []"
  by (simp add: records_def)

lemma records_append: "records p es evs \<Longrightarrow> records p es' evs' \<Longrightarrow> records p (es @ es') (evs @ evs')"
  by (simp add: records_def list_all2_appendI)

lemma records_single: "records p [audit_row_of i ev org p] [(org, ev)]"
  by (simp add: records_def audit_row_of_def)

text \<open>\<open>grown c es v c'\<close>: only the view changed, to \<open>v\<close> with the records \<open>es\<close> appended, and ids were drawn.\<close>

definition grown :: "conn \<Rightarrow> audit_row list \<Rightarrow> db \<Rightarrow> conn \<Rightarrow> bool" where
  "grown c es v c' \<longleftrightarrow> (\<exists>n. c' = c\<lparr>drawn := n, view := v\<lparr>audit_events := audit_events v @ es\<rparr>\<rparr>)"

lemma grown_simps:
  "grown c es v c' \<Longrightarrow> wire c' = wire c" "grown c es v c' \<Longrightarrow> session c' = session c"
  "grown c es v c' \<Longrightarrow> committed c' = committed c" "grown c es v c' \<Longrightarrow> clock c' = clock c"
  "grown c es v c' \<Longrightarrow> view c' = v\<lparr>audit_events := audit_events v @ es\<rparr>"
  by (auto simp: grown_def)

lemma tx_end: "m c = (Inr a, c') \<longleftrightarrow> attempt id m ok c = (Inr a, c')"
  by (auto simp: attempt_Inr ok_def)

lemma write_event_grown:
  assumes "write_event ev org a c = (Inr u, c')" "wire c = Healthy" "event_ok ev"
  shows "\<exists>es. grown c es (view c) c' \<and> records a es [(org, ev)]"
  using assms records_single
  by (auto simp: tx_end [of "write_event ev org a"] run_simps grown_def audited_def)

lemma for_each_Cons_Inr:
  "for_each (x # xs) body c = (Inr u, c') \<longleftrightarrow>
     (\<exists>c1. body x c = (Inr (), c1) \<and> for_each xs body c1 = (Inr u, c'))"
  by (simp add: attempt_Inr)

lemma for_each_Nil_Inr: "for_each [] body c = (Inr u, c') \<longleftrightarrow> c' = c"
  by (auto simp: ok_def)

lemma audit_loop:
  assumes "for_each xs (\<lambda>x. write_event (ev x) org a) c = (Inr u, c')" "wire c = Healthy"
    and "\<And>x. event_ok (ev x)"
  shows "\<exists>es. grown c es (view c) c' \<and> records a es (map (\<lambda>x. (org, ev x)) xs)"
  using assms(1,2)
proof (induction xs arbitrary: c)
  case Nil
  then have "grown c [] (view c) c'" by (auto simp: ok_def grown_def intro: exI [of _ "drawn c"])
  then show ?case by fastforce
next
  case (Cons x xs)
  from Cons.prems(1) obtain c1 where b: "write_event (ev x) org a c = (Inr (), c1)"
    and rest: "for_each xs (\<lambda>x. write_event (ev x) org a) c1 = (Inr u, c')"
    unfolding for_each_Cons_Inr by blast
  from write_event_grown [OF b Cons.prems(2) assms(3)] obtain e1 where
    g1: "grown c e1 (view c) c1" and r1: "records a e1 [(org, ev x)]" by blast
  from Cons.IH [OF rest] g1 Cons.prems(2) obtain e2 where
    g2: "grown c1 e2 (view c1) c'" and r2: "records a e2 (map (\<lambda>x. (org, ev x)) xs)"
    by (auto simp: grown_simps)
  from g1 g2 have "grown c (e1 @ e2) (view c) c'" by (auto simp: grown_def)
  moreover from records_append [OF r1 r2] have "records a (e1 @ e2) (map (\<lambda>x. (org, ev x)) (x # xs))" by simp
  ultimately show ?case by blast
qed

section \<open>The loops\<close>

definition team_memberships_left :: "db \<Rightarrow> actor_id \<Rightarrow> organization_id \<Rightarrow> team_id list" where
  "team_memberships_left d a org =
     map tm_team (filter (\<lambda>m. tm_org m = org \<and> tm_actor m = a) (team_members d))"

definition without_team_members :: "actor_id \<Rightarrow> organization_id set \<Rightarrow> db \<Rightarrow> db" where
  "without_team_members a orgs d =
     d\<lparr>team_members := filter (\<lambda>m. \<not> (tm_actor m = a \<and> tm_org m \<in> orgs)) (team_members d)\<rparr>"

lemma delete_team_memberships_self:
  assumes "is_self s a" "delete_team_memberships s org a d = Inr (r, d')"
  shows "r = team_memberships_left d a org \<and> d' = without_team_members a {org} d"
proof -
  have "(\<lambda>m. sees_team_member s d m \<and> tm_org m = org \<and> tm_actor m = a)
      = (\<lambda>m. tm_org m = org \<and> tm_actor m = a)"
    using assms(1) by (auto simp: sees_team_member_def)
  then show ?thesis
    using assms(2)
    by (auto simp: delete_team_memberships_def Let_def team_memberships_left_def
        without_team_members_def fun_eq_iff intro!: arg_cong [where f = "\<lambda>x. d\<lparr>team_members := x\<rparr>"] filter_cong)
qed

lemma execute_Inr:
  "wire c = Healthy \<Longrightarrow> execute f c = (Inr a, c') \<longleftrightarrow>
     (\<exists>d. f (session c) (view c) = Inr (a, d) \<and> c' = c\<lparr>view := d\<rparr>)"
  by (auto simp: tx_end [of "execute f"] run_simps)

lemma leave_organization_grown:
  assumes run: "leave_organization org a c = (Inr u, c')" and h: "wire c = Healthy"
    and self: "is_self (session c) a"
  shows "\<exists>es. grown c es (without_team_members a {org} (view c)) c'
    \<and> records a es (map (\<lambda>t. (org, team_member_removed a t LeftService))
        (team_memberships_left (view c) a org))"
proof -
  from run obtain r c1 where del: "execute (\<lambda>s. delete_team_memberships s org a) c = (Inr r, c1)"
    and loop: "for_each r (\<lambda>t. write_event (team_member_removed a t LeftService) org a) c1 = (Inr u, c')"
    unfolding leave_organization_def attempt_Inr by blast
  from del h have r: "r = team_memberships_left (view c) a org"
    and c1: "c1 = c\<lparr>view := without_team_members a {org} (view c)\<rparr>"
    by (auto simp: execute_Inr dest!: delete_team_memberships_self [OF self])
  from audit_loop [OF loop] h c1 r show ?thesis
    by (auto simp: grown_def)
qed

text \<open>What the departure records in one organization: each team membership, then the membership itself.\<close>

definition organization_departure :: "db \<Rightarrow> actor_id \<Rightarrow> organization_id \<times> string \<Rightarrow> placed_event list" where
  "organization_departure d a m =
     map (\<lambda>t. (fst m, team_member_removed a t LeftService)) (team_memberships_left d a (fst m))
     @ (if snd m = ''left'' then [] else [(fst m, member_left a)])"

lemma without_team_members_audit [simp]:
  "without_team_members a orgs (d\<lparr>audit_events := es\<rparr>) = (without_team_members a orgs d)\<lparr>audit_events := es\<rparr>"
  "audit_events (without_team_members a orgs d) = audit_events d"
  by (simp_all add: without_team_members_def)

lemma without_team_members_twice:
  "without_team_members a orgs' (without_team_members a orgs d) = without_team_members a (orgs \<union> orgs') d"
  by (auto simp: without_team_members_def intro!: arg_cong [where f = "\<lambda>x. d\<lparr>team_members := x\<rparr>"] filter_cong)

lemma team_memberships_left_elsewhere:
  "org \<notin> orgs \<Longrightarrow> team_memberships_left (without_team_members a orgs d) a org = team_memberships_left d a org"
  by (auto simp: team_memberships_left_def without_team_members_def
      intro!: arg_cong [where f = "map tm_team"] filter_cong)

lemma team_memberships_left_audit [simp]:
  "team_memberships_left (d\<lparr>audit_events := es\<rparr>) a org = team_memberships_left d a org"
  by (simp add: team_memberships_left_def)

lemma grown_trans:
  "grown c e1 (without_team_members a o1 (view c)) c1 \<Longrightarrow> grown c1 e2 (without_team_members a o2 (view c1)) c2
    \<Longrightarrow> grown c (e1 @ e2) (without_team_members a (o1 \<union> o2) (view c)) c2"
  by (auto simp: grown_def without_team_members_twice)

lemma without_no_team_members [simp]: "without_team_members a {} d = d"
  by (simp add: without_team_members_def)

definition leave_body :: "actor_id \<Rightarrow> organization_id \<times> string \<Rightarrow> (leave_service_error, unit) tx" where
  "leave_body a = (\<lambda>(organization, stored_status).
     attempt leave_service_error.Database (leave_organization organization a) (\<lambda>_.
     require (leave_service_error.Database (Protocol ''invalid stored membership status''))
       (status_parse stored_status) (\<lambda>status.
     if status \<noteq> Left
     then attempt leave_service_error.Database (write_event (member_left a) organization a) ok
     else ok ())))"

lemma leave_body_grown:
  assumes run: "leave_body a m c = (Inr u, c')" and h: "wire c = Healthy" and self: "is_self (session c) a"
  shows "\<exists>es. grown c es (without_team_members a {fst m} (view c)) c'
    \<and> records a es (organization_departure (view c) a m)"
proof -
  obtain org st where m: "m = (org, st)" by fastforce
  from run obtain u1 c1 status where leave: "leave_organization org a c = (Inr u1, c1)"
    and st: "st = status_str status"
    and fin: "(if status \<noteq> Left then attempt leave_service_error.Database (write_event (member_left a) org a) ok
        else ok ()) c1 = (Inr u, c')"
    by (auto simp: leave_body_def m attempt_Inr run_require status.parse_iff)
  from leave_organization_grown [OF leave h self] obtain e1 where
    g1: "grown c e1 (without_team_members a {org} (view c)) c1"
    and r1: "records a e1 (map (\<lambda>t. (org, team_member_removed a t LeftService))
        (team_memberships_left (view c) a org))"
    by blast
  have h1: "wire c1 = Healthy" using g1 h by (simp add: grown_simps)
  show ?thesis
  proof (cases "status = Left")
    case True
    with fin have "c' = c1" by (auto simp: ok_def)
    with g1 r1 True st m show ?thesis by (auto simp: organization_departure_def)
  next
    case False
    with fin have "write_event (member_left a) org a c1 = (Inr u, c')"
      by (auto simp: attempt_Inr ok_def)
    from write_event_grown [OF this h1] obtain e2 where
      g2: "grown c1 e2 (view c1) c'" and r2: "records a e2 [(org, member_left a)]" by auto
    from g1 g2 have "grown c (e1 @ e2) (without_team_members a {org} (view c)) c'"
      by (auto simp: grown_def)
    with records_append [OF r1 r2] False st m show ?thesis
      by (auto simp: organization_departure_def)
  qed
qed

lemma leave_loop:
  assumes "for_each ms (leave_body a) c = (Inr u, c')" "wire c = Healthy" "is_self (session c) a"
    and "distinct (map fst ms)"
  shows "\<exists>es. grown c es (without_team_members a (fst ` set ms) (view c)) c'
    \<and> records a es (concat (map (organization_departure (view c) a) ms))"
  using assms
proof (induction ms arbitrary: c)
  case Nil
  then have "grown c [] (view c) c'" by (auto simp: ok_def grown_def intro: exI [of _ "drawn c"])
  then show ?case by fastforce
next
  case (Cons m ms)
  from Cons.prems(1) obtain c1 where b: "leave_body a m c = (Inr (), c1)"
    and rest: "for_each ms (leave_body a) c1 = (Inr u, c')"
    unfolding for_each_Cons_Inr by blast
  from leave_body_grown [OF b Cons.prems(2,3)] obtain e1 where
    g1: "grown c e1 (without_team_members a {fst m} (view c)) c1"
    and r1: "records a e1 (organization_departure (view c) a m)" by blast
  from Cons.IH [OF rest] g1 Cons.prems obtain e2 where
    g2: "grown c1 e2 (without_team_members a (fst ` set ms) (view c1)) c'"
    and r2: "records a e2 (concat (map (organization_departure (view c1) a) ms))"
    by (auto simp: grown_simps)
  have "organization_departure (view c1) a x = organization_departure (view c) a x" if "x \<in> set ms" for x
  proof -
    have "fst x \<notin> {fst m}" using Cons.prems(4) that by (auto intro: rev_image_eqI)
    then show ?thesis
      by (simp add: organization_departure_def grown_simps(5) [OF g1] team_memberships_left_elsewhere)
  qed
  then have "map (organization_departure (view c1) a) ms = map (organization_departure (view c) a) ms"
    by simp
  with records_append [OF r1 r2] have
    "records a (e1 @ e2) (concat (map (organization_departure (view c) a) (m # ms)))" by simp
  moreover have "grown c (e1 @ e2) (without_team_members a (fst ` set (m # ms)) (view c)) c'"
    using grown_trans [OF g1 g2] by simp
  ultimately show ?case by blast
qed

section \<open>Channel memberships\<close>

definition listed_channels :: "db \<Rightarrow> actor_id \<Rightarrow> organization_id \<Rightarrow> channel_id list" where
  "listed_channels d a org =
     sort (map cm_channel (filter (\<lambda>m. cm_org m = org \<and> cm_actor m = a) (channel_members d)))"

definition channel_departure :: "db \<Rightarrow> actor_id \<Rightarrow> organization_id \<Rightarrow> placed_event list" where
  "channel_departure d a org = map (\<lambda>ch. (org, channel_member_left a ch)) (listed_channels d a org)"

definition without_channel_members :: "actor_id \<Rightarrow> organization_id set \<Rightarrow> db \<Rightarrow> db" where
  "without_channel_members a orgs d =
     d\<lparr>channel_members := filter (\<lambda>m. \<not> (cm_actor m = a \<and> cm_org m \<in> orgs)) (channel_members d)\<rparr>"

lemma without_channel_members_simps [simp]:
  "without_channel_members a orgs (d\<lparr>audit_events := es\<rparr>) = (without_channel_members a orgs d)\<lparr>audit_events := es\<rparr>"
  "audit_events (without_channel_members a orgs d) = audit_events d"
  "without_channel_members a {} d = d"
  "channel_departure (d\<lparr>audit_events := es\<rparr>) a org = channel_departure d a org"
  by (simp_all add: without_channel_members_def channel_departure_def listed_channels_def)

lemma without_channel_members_twice:
  "without_channel_members a orgs' (without_channel_members a orgs d) = without_channel_members a (orgs \<union> orgs') d"
  by (auto simp: without_channel_members_def intro!: arg_cong [where f = "\<lambda>x. d\<lparr>channel_members := x\<rparr>"] filter_cong)

lemma channel_departure_elsewhere:
  "org \<notin> orgs \<Longrightarrow> channel_departure (without_channel_members a orgs d) a org = channel_departure d a org"
  by (auto simp: channel_departure_def listed_channels_def without_channel_members_def
      intro!: arg_cong [where f = "\<lambda>x. map _ (sort (map _ x))"] filter_cong)

lemma delete_channel_memberships_self:
  assumes "is_self s a"
  shows "delete_channel_memberships s org a d = Inr ((), without_channel_members a {org} d)"
proof -
  have "(\<lambda>m. \<not> (sees_channel_member s d m \<and> cm_org m = org \<and> cm_actor m = a))
      = (\<lambda>m. \<not> (cm_actor m = a \<and> cm_org m \<in> {org}))"
    using assms by (auto simp: sees_channel_member_def)
  then show ?thesis by (simp only: delete_channel_memberships_def without_channel_members_def)
qed

lemma leave_channels_grown:
  assumes run: "leave_channels org a c = (Inr u, c')" and h: "wire c = Healthy"
    and self: "is_self (session c) a"
  shows "\<exists>es. grown c es (without_channel_members a {org} (view c)) c'
    \<and> records a es (channel_departure (view c) a org)"
proof -
  have sees: "sees_channel_member (session c) d m" if "cm_actor m = a" for d m
    using self that by (simp add: sees_channel_member_def)
  then have list: "channel_listings org a (session c) (view c) = listed_channels (view c) a org"
    by (auto simp: channel_listings_def listed_channels_def intro!: arg_cong [where f = "\<lambda>x. sort (map _ x)"] filter_cong)
  from run obtain c1 where
    loop: "for_each (listed_channels (view c) a org)
        (\<lambda>ch. write_event (channel_member_left a ch) org a) c = (Inr (), c1)"
    and del: "execute (\<lambda>s. delete_channel_memberships s org a) c1 = (Inr u, c')"
    using h by (auto simp: leave_channels_def run_query list) (auto simp: attempt_Inr)
  from audit_loop [OF loop h] obtain es where g: "grown c es (view c) c1"
    and r: "records a es (channel_departure (view c) a org)"
    by (auto simp: channel_departure_def)
  have c': "c' = c1\<lparr>view := without_channel_members a {org} (view c1)\<rparr>"
    using del g h self by (auto simp: execute_Inr grown_simps delete_channel_memberships_self)
  with g have "grown c es (without_channel_members a {org} (view c)) c'" by (auto simp: grown_def)
  with r show ?thesis by blast
qed

lemma channel_loop:
  assumes "for_each orgs (\<lambda>org. attempt leave_service_error.Database (leave_channels org a) ok) c = (Inr u, c')"
    and "wire c = Healthy" "is_self (session c) a" "distinct orgs"
  shows "\<exists>es. grown c es (without_channel_members a (set orgs) (view c)) c'
    \<and> records a es (concat (map (channel_departure (view c) a) orgs))"
  using assms
proof (induction orgs arbitrary: c)
  case Nil
  then have "grown c [] (view c) c'" by (auto simp: ok_def grown_def intro: exI [of _ "drawn c"])
  then show ?case by fastforce
next
  case (Cons org orgs)
  from Cons.prems(1) obtain c1 where b: "leave_channels org a c = (Inr (), c1)"
    and rest: "for_each orgs (\<lambda>org. attempt leave_service_error.Database (leave_channels org a) ok) c1 = (Inr u, c')"
    unfolding for_each_Cons_Inr by (auto simp: attempt_Inr ok_def)
  from leave_channels_grown [OF b Cons.prems(2,3)] obtain e1 where
    g1: "grown c e1 (without_channel_members a {org} (view c)) c1"
    and r1: "records a e1 (channel_departure (view c) a org)" by blast
  have "wire c1 = Healthy" "is_self (session c1) a" "distinct orgs"
    using Cons.prems g1 by (simp_all add: grown_simps)
  from Cons.IH [OF rest this] obtain e2 where
    g2: "grown c1 e2 (without_channel_members a (set orgs) (view c1)) c'"
    and r2: "records a e2 (concat (map (channel_departure (view c1) a) orgs))"
    by blast
  have "channel_departure (view c1) a x = channel_departure (view c) a x" if "x \<in> set orgs" for x
    using Cons.prems(4) that
    by (simp add: grown_simps(5) [OF g1]) (rule channel_departure_elsewhere, auto)
  then have "map (channel_departure (view c1) a) orgs = map (channel_departure (view c) a) orgs" by simp
  with records_append [OF r1 r2] have
    "records a (e1 @ e2) (concat (map (channel_departure (view c) a) (org # orgs)))" by simp
  moreover have "grown c (e1 @ e2) (without_channel_members a (set (org # orgs)) (view c)) c'"
    using g1 g2 by (auto simp: grown_def without_channel_members_twice)
  ultimately show ?case by blast
qed

section \<open>Memberships\<close>

definition left_row :: "member_row \<Rightarrow> member_row" where
  "left_row m = m\<lparr>om_status := ''left'', om_display_name := None\<rparr>"

definition with_memberships_left :: "actor_id \<Rightarrow> organization_id set \<Rightarrow> db \<Rightarrow> db" where
  "with_memberships_left a orgs d = d\<lparr>organization_members :=
     update_where (\<lambda>m. om_actor m = a \<and> om_org m \<in> orgs) left_row (organization_members d)\<rparr>"

lemma with_memberships_left_twice:
  "with_memberships_left a orgs' (with_memberships_left a orgs d) = with_memberships_left a (orgs \<union> orgs') d"
  by (auto simp: with_memberships_left_def update_where_def left_row_def
      intro!: arg_cong [where f = "\<lambda>x. d\<lparr>organization_members := x\<rparr>"] map_cong)

lemma set_member_left_self:
  assumes "is_self s a" "set_member_left s org a d = Inr (u, d')"
  shows "d' = with_memberships_left a {org} d"
proof -
  have "(\<lambda>m. sees_member s d m \<and> om_org m = org \<and> om_actor m = a)
      = (\<lambda>m. om_actor m = a \<and> om_org m \<in> {org})"
    using assms(1) by (auto simp: sees_member_def)
  moreover have "(\<lambda>m. m\<lparr>om_status := ''left'', om_display_name := None\<rparr>) = left_row"
    by (rule ext) (simp add: left_row_def)
  ultimately show ?thesis
    using assms(2) by (simp add: set_member_left_def update_member_Inr with_memberships_left_def)
qed

lemma membership_loop:
  assumes "for_each ms (\<lambda>(org, _). attempt leave_service_error.Database
        (execute (\<lambda>s. set_member_left s org a)) ok) c = (Inr u, c')"
    and "wire c = Healthy" "is_self (session c) a"
  shows "c' = c\<lparr>view := with_memberships_left a (fst ` set ms) (view c)\<rparr>"
  using assms
proof (induction ms arbitrary: c)
  case Nil
  then show ?case by (simp add: ok_def with_memberships_left_def update_where_none)
next
  case (Cons m ms)
  then obtain c1 where "execute (\<lambda>s. set_member_left s (fst m) a) c = (Inr (), c1)"
    and rest: "for_each ms (\<lambda>(org, _). attempt leave_service_error.Database
        (execute (\<lambda>s. set_member_left s org a)) ok) c1 = (Inr u, c')"
    unfolding for_each_Cons_Inr by (auto simp: attempt_Inr ok_def split: prod.splits)
  then have "c1 = c\<lparr>view := with_memberships_left a {fst m} (view c)\<rparr>"
    using Cons.prems(2,3) by (auto simp: execute_Inr dest: set_member_left_self)
  with Cons.IH [OF rest] Cons.prems(2,3) show ?case
    by (simp add: with_memberships_left_twice)
qed

lemma owner_loop:
  assumes "for_each orgs (\<lambda>org. attempt leave_service_error.Database (active_owners org) (\<lambda>owners.
         require_ok (\<lambda>_. leave_service_error.LastOwner org) (check_owner_change owners (Leave a)) ok)) c
      = (Inr u, c')"
    and "wire c = Healthy"
  shows "c' = c \<and> (\<forall>org \<in> set orgs.
     check_owner_change (map om_actor (owner_rows org (session c) (view c))) (Leave a) = Inr ())"
  using assms
proof (induction orgs arbitrary: c)
  case (Cons org orgs)
  from Cons.prems(1) obtain c1 where
    b: "attempt leave_service_error.Database (active_owners org) (\<lambda>owners.
         require_ok (\<lambda>_. leave_service_error.LastOwner org) (check_owner_change owners (Leave a)) ok) c = (Inr (), c1)"
    and rest: "for_each orgs (\<lambda>org. attempt leave_service_error.Database (active_owners org) (\<lambda>owners.
         require_ok (\<lambda>_. leave_service_error.LastOwner org) (check_owner_change owners (Leave a)) ok)) c1
      = (Inr u, c')"
    unfolding for_each_Cons_Inr by blast
  from b have "c1 = c"
    and "check_owner_change (map om_actor (owner_rows org (session c) (view c))) (Leave a) = Inr ()"
    using Cons.prems(2) by (simp_all add: run_simps)
  with Cons.IH [of c] rest Cons.prems(2) show ?case by simp
qed (auto simp: ok_def)

section \<open>The whole departure\<close>

text \<open>The rows a departure leaves behind, and the events it records, read off the database before it.\<close>

definition departed_rows :: "actor_id \<Rightarrow> instant \<Rightarrow> db \<Rightarrow> db" where
  "departed_rows a t d = d\<lparr>
     actors := update_where (\<lambda>r. a_id r = a) (\<lambda>r. r\<lparr>a_display_name := None, a_deleted_at := Some t\<rparr>) (actors d),
     users := filter (\<lambda>u. u_actor_id u \<noteq> a) (users d),
     sessions := filter (\<lambda>r. s_actor r \<noteq> a) (sessions d),
     organization_members := update_where (\<lambda>m. om_actor m = a) left_row (organization_members d),
     team_members := filter (\<lambda>m. tm_actor m \<noteq> a) (team_members d),
     channel_members := filter (\<lambda>m. cm_actor m \<noteq> a) (channel_members d)\<rparr>"

definition own_memberships :: "db \<Rightarrow> actor_id \<Rightarrow> (organization_id \<times> string) list" where
  "own_memberships d a = map (\<lambda>m. (om_org m, om_status m))
     (sort_key om_org (filter (\<lambda>m. om_actor m = a) (organization_members d)))"

definition own_channel_organizations :: "db \<Rightarrow> actor_id \<Rightarrow> organization_id list" where
  "own_channel_organizations d a =
     sort (remdups (map cm_org (filter (\<lambda>m. cm_actor m = a) (channel_members d))))"

definition departure_events :: "db \<Rightarrow> actor_id \<Rightarrow> placed_event list" where
  "departure_events d a = concat (map (organization_departure d a) (own_memberships d a))
     @ concat (map (channel_departure d a) (own_channel_organizations d a))"

lemma memberships_of_self:
  "is_self s a \<Longrightarrow> memberships_of a s d = own_memberships d a"
  by (auto simp: memberships_of_def own_memberships_def sees_member_def
      intro!: arg_cong [where f = "\<lambda>x. map _ (sort_key om_org x)"] filter_cong)

lemma channel_organizations_of_self:
  "is_self s a \<Longrightarrow> channel_organizations_of a s d = own_channel_organizations d a"
  by (auto simp: channel_organizations_of_def own_channel_organizations_def sees_channel_member_def
      intro!: arg_cong [where f = "\<lambda>x. sort (remdups (map cm_org x))"] filter_cong)

lemma own_organizations: "fst ` set (own_memberships d a) = om_org ` {m \<in> set (organization_members d). om_actor m = a}"
  by (auto simp: own_memberships_def image_iff)

lemma distinct_own_memberships:
  assumes "schema_ok d"
  shows "distinct (map fst (own_memberships d a))"
proof -
  let ?mine = "filter (\<lambda>m. om_actor m = a) (organization_members d)"
  have "distinct (map (\<lambda>m. (om_org m, om_actor m)) ?mine)"
    using assms by (simp add: schema_ok_def members_ok_def uniq_def distinct_map_filter)
  then have "distinct (map om_org ?mine)"
    by (auto simp: distinct_map inj_on_def)
  moreover have "mset (map fst (own_memberships d a)) = mset (map om_org ?mine)"
    by (simp add: own_memberships_def comp_def)
  ultimately show ?thesis by (metis mset_eq_imp_distinct_iff)
qed

lemma departed_team_members:
  assumes "schema_ok d"
  shows "filter (\<lambda>m. \<not> (tm_actor m = a \<and> tm_org m \<in> fst ` set (own_memberships d a))) (team_members d)
    = filter (\<lambda>m. tm_actor m \<noteq> a) (team_members d)"
proof (rule filter_cong)
  fix m assume "m \<in> set (team_members d)"
  then have "(tm_org m, tm_actor m) \<in> key_set (\<lambda>x. (om_org x, om_actor x)) (organization_members d)"
    using assms by (simp add: schema_ok_def team_members_ok_def)
  then show "(\<not> (tm_actor m = a \<and> tm_org m \<in> fst ` set (own_memberships d a))) = (tm_actor m \<noteq> a)"
    by (force simp: own_organizations key_set_def)
qed simp

lemma departed_channel_members:
  "filter (\<lambda>m. \<not> (cm_actor m = a \<and> cm_org m \<in> set (own_channel_organizations d a))) (channel_members d)
    = filter (\<lambda>m. cm_actor m \<noteq> a) (channel_members d)"
  by (rule filter_cong) (auto simp: own_channel_organizations_def)

lemma departed_members:
  "update_where (\<lambda>m. om_actor m = a \<and> om_org m \<in> fst ` set (own_memberships d a)) left_row (organization_members d)
    = update_where (\<lambda>m. om_actor m = a) left_row (organization_members d)"
  unfolding own_organizations by (auto simp: update_where_def)

lemma delete_user_self:
  assumes "is_self s a" "sessions_ok (sessions d) (users d)"
  shows "delete_user s a d = Inr ((), d\<lparr>users := filter (\<lambda>u. u_actor_id u \<noteq> a) (users d),
     sessions := filter (\<lambda>r. s_actor r \<noteq> a) (sessions d)\<rparr>)"
proof -
  have gone: "(\<lambda>u. sees_user s d u \<and> is_self s (u_actor_id u) \<and> u_actor_id u = a) = (\<lambda>u. u_actor_id u = a)"
    using assms(1) by (auto simp: sees_user_def)
  have "filter (\<lambda>r. s_actor r \<notin> key_set u_actor_id (filter (\<lambda>u. u_actor_id u = a) (users d))) (sessions d)
      = filter (\<lambda>r. s_actor r \<noteq> a) (sessions d)"
    using assms(2) by (auto simp: sessions_ok_def key_set_def intro!: filter_cong)
  then show ?thesis by (simp add: delete_user_def gone Let_def)
qed

lemma erase_actor_self:
  assumes "is_self s a" "erase_actor s a d = Inr (u, d')"
  shows "d' = d\<lparr>actors := update_where (\<lambda>r. a_id r = a)
    (\<lambda>r. r\<lparr>a_display_name := None, a_deleted_at := Some (tx_now s)\<rparr>) (actors d)\<rparr>"
proof -
  have "(\<lambda>r. sees_actor s d r \<and> a_id r = a) = (\<lambda>r. a_id r = a)"
    using assms(1) by (auto simp: sees_actor_def)
  then show ?thesis
    using assms(2) by (auto simp: erase_actor_def rls_update_Inr split: sum.splits)
qed

lemma organizations_active_in_self:
  assumes "schema_ok d" "actor_setting s = Some a"
  shows "set (organizations_active_in a s d) = {org. in_active s d org}"
proof -
  have "in_active s d org \<Longrightarrow> org \<in> key_set o_id (organizations d)" for org
    using assms by (auto simp: in_active_iff schema_ok_def members_ok_def)
  then show ?thesis
    using assms(2)
    by (force simp: organizations_active_in_def sees_organization_def in_active_iff list_ex_iff
        sees_member_def key_set_def image_iff is_self_def)
qed

text \<open>What \<open>leave_service\<close> does once the owners are checked.\<close>

definition leave_rest :: "actor_id \<Rightarrow> (leave_service_error, unit) tx" where
  "leave_rest a = attempt leave_service_error.Database (query (memberships_of a)) (\<lambda>memberships.
       attempt leave_service_error.Database (query (channel_organizations_of a))
         (\<lambda>channel_organizations.
       attempt id (for_each memberships (leave_body a)) (\<lambda>_.
       attempt id (for_each channel_organizations (\<lambda>organization.
         attempt leave_service_error.Database (leave_channels organization a) ok)) (\<lambda>_.
       attempt id (for_each memberships (\<lambda>(organization, _).
         attempt leave_service_error.Database
           (execute (\<lambda>s. set_member_left s organization a)) ok)) (\<lambda>_.
       attempt leave_service_error.Database (execute (\<lambda>s. delete_user s a)) (\<lambda>_.
       attempt leave_service_error.Database (execute (\<lambda>s. erase_actor s a)) (\<lambda>_.
       attempt leave_service_error.Database commit (\<lambda>_.
       ok ()))))))))"

lemma departure_checked:
  fixes c :: conn
  assumes h: "wire c = Healthy" and run: "leave_service a c = (Inr u, c')"
  defines "s \<equiv> session_for (Actor a) c"
  obtains row where "own_actor a s (committed c) = Some row" "a_deleted_at row = None"
    "\<forall>org \<in> set (organizations_active_in a s (committed c)).
       check_owner_change (map om_actor (owner_rows org s (committed c))) (Leave a) = Inr ()"
    "leave_rest a (c\<lparr>view := committed c, session := s\<rparr>) = (Inr u, c')"
proof -
  from h run obtain row c1 where row: "own_actor a s (committed c) = Some row" "a_deleted_at row = None"
    and owners: "for_each (organizations_active_in a s (committed c)) (\<lambda>org.
         attempt leave_service_error.Database (active_owners org) (\<lambda>owners.
         require_ok (\<lambda>_. leave_service_error.LastOwner org) (check_owner_change owners (Leave a)) ok))
         (c\<lparr>view := committed c, session := s\<rparr>) = (Inr (), c1)"
    and rest: "leave_rest a c1 = (Inr u, c')"
    unfolding s_def leave_service_def leave_body_def leave_rest_def
    by (auto simp: run_begin run_query run_require run_if run_throw_end attempt_Inr [where m = "for_each _ _"])
  from owner_loop [OF owners] h have "c1 = c\<lparr>view := committed c, session := s\<rparr>"
    "\<forall>org \<in> set (organizations_active_in a s (committed c)).
       check_owner_change (map om_actor (owner_rows org s (committed c))) (Leave a) = Inr ()" by auto
  with row rest show thesis by (intro that) simp_all
qed

text \<open>The rows a departure takes away before it erases the person.\<close>

definition withdrawn :: "actor_id \<Rightarrow> db \<Rightarrow> db" where
  "withdrawn a d = with_memberships_left a (fst ` set (own_memberships d a))
     (without_channel_members a (set (own_channel_organizations d a)) (without_team_members a (fst ` set (own_memberships d a)) d))"

lemmas withdrawn_defs = withdrawn_def with_memberships_left_def without_channel_members_def without_team_members_def

lemma departure_loops:
  fixes c :: conn
  assumes run: "leave_rest a c = (Inr u, c')" and h: "wire c = Healthy" and self: "is_self (session c) a"
    and sch: "schema_ok (view c)"
  obtains es c4 where "records a es (departure_events (view c) a)"
    "view c4 = (withdrawn a (view c))\<lparr>audit_events := audit_events (view c) @ es\<rparr>"
    "wire c4 = Healthy" "session c4 = session c"
    "attempt leave_service_error.Database (execute (\<lambda>s. delete_user s a)) (\<lambda>_.
     attempt leave_service_error.Database (execute (\<lambda>s. erase_actor s a)) (\<lambda>_.
     attempt leave_service_error.Database commit (\<lambda>_. ok ()))) c4 = (Inr u, c')"
proof -
  let ?d = "view c"
  let ?ms = "own_memberships ?d a" and ?chs = "own_channel_organizations ?d a"
  have q: "memberships_of a (session c) ?d = ?ms" "channel_organizations_of a (session c) ?d = ?chs"
    by (simp_all add: memberships_of_self channel_organizations_of_self self)
  from run obtain c2 c3 c4 where
    loop2: "for_each ?ms (leave_body a) c = (Inr (), c2)"
    and loop3: "for_each ?chs (\<lambda>organization.
         attempt leave_service_error.Database (leave_channels organization a) ok) c2 = (Inr (), c3)"
    and loop4: "for_each ?ms (\<lambda>(organization, _). attempt leave_service_error.Database
         (execute (\<lambda>s. set_member_left s organization a)) ok) c3 = (Inr (), c4)"
    and fin: "attempt leave_service_error.Database (execute (\<lambda>s. delete_user s a)) (\<lambda>_.
       attempt leave_service_error.Database (execute (\<lambda>s. erase_actor s a)) (\<lambda>_.
       attempt leave_service_error.Database commit (\<lambda>_. ok ()))) c4 = (Inr u, c')"
    by (auto simp: leave_rest_def run_query h q attempt_Inr [where m = "for_each _ _"])
  from leave_loop [OF loop2 h self] distinct_own_memberships [OF sch] obtain e2 where
    g2: "grown c e2 (without_team_members a (fst ` set ?ms) ?d) c2"
    and r2: "records a e2 (concat (map (organization_departure ?d a) ?ms))" by auto
  have c2: "wire c2 = Healthy" "is_self (session c2) a" using g2 h self by (simp_all add: grown_simps)
  have "distinct ?chs" by (simp add: own_channel_organizations_def)
  from channel_loop [OF loop3 c2 this] obtain e3 where
    g3: "grown c2 e3 (without_channel_members a (set ?chs) (view c2)) c3"
    and r3: "records a e3 (concat (map (channel_departure (view c2) a) ?chs))" by blast
  have "channel_departure (view c2) a = channel_departure ?d a"
    by (rule ext) (simp add: grown_simps(5) [OF g2] channel_departure_def listed_channels_def without_team_members_def)
  with r3 have r3: "records a e3 (concat (map (channel_departure ?d a) ?chs))" by simp
  have c3: "wire c3 = Healthy" "is_self (session c3) a" using g3 c2 by (simp_all add: grown_simps)
  have c4: "c4 = c3\<lparr>view := with_memberships_left a (fst ` set ?ms) (view c3)\<rparr>"
    by (rule membership_loop [OF loop4 c3])
  show thesis
  proof (rule that [OF _ _ _ _ fin])
    show "records a (e2 @ e3) (departure_events ?d a)" using records_append [OF r2 r3] by (simp add: departure_events_def)
    show "view c4 = (withdrawn a ?d)\<lparr>audit_events := audit_events ?d @ e2 @ e3\<rparr>"
      by (simp add: c4 withdrawn_defs grown_simps(5) [OF g2] grown_simps(5) [OF g3])
    show "session c4 = session c" using g2 g3 by (simp add: c4 grown_simps)
    show "wire c4 = Healthy" using c3 by (simp add: c4)
  qed
qed

lemma departure_erased:
  fixes c c4 :: conn
  assumes sch: "schema_ok d" and self: "is_self (session c4) a" and h: "wire c4 = Healthy"
    and view: "view c4 = (withdrawn a d)\<lparr>audit_events := audit_events d @ es\<rparr>"
    and fin: "attempt leave_service_error.Database (execute (\<lambda>s. delete_user s a)) (\<lambda>_.
       attempt leave_service_error.Database (execute (\<lambda>s. erase_actor s a)) (\<lambda>_.
       attempt leave_service_error.Database commit (\<lambda>_. ok ()))) c4 = (Inr u, c')"
  shows "committed c' = (departed_rows a (tx_now (session c4)) d)\<lparr>audit_events := audit_events d @ es\<rparr>"
proof -
  have sess: "sessions_ok (sessions (view c4)) (users (view c4))"
    using sch by (simp add: view withdrawn_defs schema_ok_def)
  from fin h obtain d5 where
    del: "delete_user (session c4) a (view c4) = Inr ((), d5)" and era: "erase_actor (session c4) a d5 = Inr ((), committed c')"
    by (auto simp: run_simps)
  have d5: "d5 = (view c4)\<lparr>users := filter (\<lambda>u. u_actor_id u \<noteq> a) (users (view c4)),
     sessions := filter (\<lambda>r. s_actor r \<noteq> a) (sessions (view c4))\<rparr>"
    using del delete_user_self [OF self sess] by simp
  show ?thesis
    unfolding erase_actor_self [OF self era] d5 view departed_rows_def withdrawn_defs
    using departed_team_members [OF sch] departed_channel_members [of a d] departed_members [of a d] by simp
qed

theorem leave_service_run:
  assumes h: "wire c = Healthy" and run: "leave_service a c = (Inr u, c')"
    and sch: "schema_ok (committed c)"
  shows "(\<exists>r \<in> set (actors (committed c)). a_id r = a \<and> a_deleted_at r = None)
    \<and> (\<forall>org. in_active (session_for (Actor a) c) (committed c) org \<longrightarrow> other_owner (committed c) org a)
    \<and> (\<exists>es. committed c' = (departed_rows a (clock c) (committed c))\<lparr>audit_events :=
          audit_events (committed c) @ es\<rparr> \<and> records a es (departure_events (committed c) a))"
proof (intro conjI allI impI)
  let ?d = "committed c" and ?s = "session_for (Actor a) c"
  let ?c = "c\<lparr>view := ?d, session := ?s\<rparr>"
  obtain row where row: "own_actor a ?s ?d = Some row" "a_deleted_at row = None"
    and checked: "\<forall>org \<in> set (organizations_active_in a ?s ?d).
       check_owner_change (map om_actor (owner_rows org ?s ?d)) (Leave a) = Inr ()"
    and rest: "leave_rest a ?c = (Inr u, c')" by (rule departure_checked [OF h run])
  show "\<exists>r \<in> set (actors ?d). a_id r = a \<and> a_deleted_at r = None"
    using row by (auto simp: own_actor_def dest!: fetch_optional_SomeD)
  show "other_owner ?d org a" if "in_active ?s ?d org" for org
    using that checked organizations_active_in_self [of ?d ?s a] sch check_owner_change_other [of ?s ?d org "Leave a"] by auto
  obtain es c4 where "records a es (departure_events ?d a)" "view c4 = (withdrawn a ?d)\<lparr>audit_events := audit_events ?d @ es\<rparr>"
    "wire c4 = Healthy" "session c4 = ?s"
    "attempt leave_service_error.Database (execute (\<lambda>s. delete_user s a)) (\<lambda>_.
     attempt leave_service_error.Database (execute (\<lambda>s. erase_actor s a)) (\<lambda>_.
     attempt leave_service_error.Database commit (\<lambda>_. ok ()))) c4 = (Inr u, c')"
    using departure_loops [OF rest] h sch by auto
  then show "\<exists>es. committed c' = (departed_rows a (clock c) ?d)\<lparr>audit_events := audit_events ?d @ es\<rparr>
      \<and> records a es (departure_events ?d a)"
    using departure_erased [OF sch, of c4 a es u c'] by (intro exI [of _ es]) simp
qed

end
