(* ===== verification/System.thy ===== *)
theory System
  imports Teams Channels Messages Invites Sessions Departure
begin

text \<open>
  The operations of \<open>db\<close> as requests against one database, the databases they can reach whatever the
  connections do, and the invariants of those databases.
\<close>

section \<open>Requests\<close>

text \<open>
  \<open>create_person\<close> runs in its caller's transaction; besides \<open>accept_invite\<close> the smallest caller is one that
  begins, creates and commits.
\<close>

definition register ::
    "ustring \<Rightarrow> string \<Rightarrow> ustring \<Rightarrow> (create_person_error, actor_id) tx" where
  "register email password_hash display_name =
     attempt create_person_error.Database pool_begin (\<lambda>_.
     attempt id (create_person email password_hash display_name) (\<lambda>actor.
     attempt create_person_error.Database commit (\<lambda>_.
     ok actor)))"

datatype request =
    Register ustring string ustring
  | CreateOrganization actor_id ustring ustring
  | ChangeMemberRole actor_id organization_id actor_id organization_role
  | SuspendMember actor_id organization_id actor_id
  | ReactivateMember actor_id organization_id actor_id
  | CreateTeam actor_id organization_id ustring
  | AddTeamMember actor_id organization_id team_id actor_id team_role
  | ChangeTeamMemberRole actor_id organization_id team_id actor_id team_role
  | RemoveTeamMember actor_id organization_id team_id actor_id
  | CreateChannel actor_id organization_id channel_scope ustring
  | AddChannelMember actor_id organization_id channel_id actor_id
  | PostMessage organization_id channel_id actor_id message_id ustring
  | MessagesBefore actor_id organization_id channel_id "channel_seq option" "16 word"
  | MessagesAfter actor_id organization_id channel_id channel_seq "16 word"
  | CreateInvite actor_id organization_id "(string \<times> token_hash) option" instant int
  | RevokeInvite actor_id organization_id "invite_id option"
  | InviteIsUsable token_hash
  | AcceptInvite token_hash ustring string ustring
  | SignIn ustring "string \<Rightarrow> bool option" "(string \<times> token_hash) option" instant
  | ResolveSession token_hash
  | RevokeSession actor_id token_hash
  | WhoAmI actor_id
  | LeaveService actor_id

fun run_request :: "uuid_api \<Rightarrow> request \<Rightarrow> conn \<Rightarrow> conn" where
  "run_request api (Register e h n) c = snd (register e h n c)"
| "run_request api (CreateOrganization a n sl) c = snd (create_organization a n sl c)"
| "run_request api (ChangeMemberRole p org a r) c = snd (change_member_role p org a r c)"
| "run_request api (SuspendMember p org a) c = snd (suspend_member p org a c)"
| "run_request api (ReactivateMember p org a) c = snd (reactivate_member p org a c)"
| "run_request api (CreateTeam p org n) c = snd (create_team p org n c)"
| "run_request api (AddTeamMember p org t a r) c = snd (add_team_member p org t a r c)"
| "run_request api (ChangeTeamMemberRole p org t a r) c = snd (change_team_member_role p org t a r c)"
| "run_request api (RemoveTeamMember p org t a) c = snd (remove_team_member p org t a c)"
| "run_request api (CreateChannel p org sc n) c = snd (create_channel p org sc n c)"
| "run_request api (AddChannelMember p org ch a) c = snd (add_channel_member p org ch a c)"
| "run_request api (PostMessage org ch a i b) c = snd (post_message api org ch a i b c)"
| "run_request api (MessagesBefore a org ch q l) c = snd (messages_before api a org ch q l c)"
| "run_request api (MessagesAfter a org ch q l) c = snd (messages_after api a org ch q l c)"
| "run_request api (CreateInvite p org t ex n) c = snd (create_invite p org t ex n c)"
| "run_request api (RevokeInvite p org i) c = snd (revoke_invite p org i c)"
| "run_request api (InviteIsUsable th) c = snd (invite_is_usable th c)"
| "run_request api (AcceptInvite th e h n) c = snd (accept_invite th e h n c)"
| "run_request api (SignIn e v t ex) c = snd (sign_in e v t ex c)"
| "run_request api (ResolveSession th) c = snd (resolve_session th c)"
| "run_request api (RevokeSession a th) c = snd (revoke_session a th c)"
| "run_request api (WhoAmI a) c = snd (me a c)"
| "run_request api (LeaveService a) c = snd (leave_service a c)"

text \<open>Does the request report success?\<close>

fun request_ok :: "uuid_api \<Rightarrow> request \<Rightarrow> conn \<Rightarrow> bool" where
  "request_ok api (Register e h n) c = (\<not> isl (fst (register e h n c)))"
| "request_ok api (CreateOrganization a n sl) c = (\<not> isl (fst (create_organization a n sl c)))"
| "request_ok api (ChangeMemberRole p org a r) c = (\<not> isl (fst (change_member_role p org a r c)))"
| "request_ok api (SuspendMember p org a) c = (\<not> isl (fst (suspend_member p org a c)))"
| "request_ok api (ReactivateMember p org a) c = (\<not> isl (fst (reactivate_member p org a c)))"
| "request_ok api (CreateTeam p org n) c = (\<not> isl (fst (create_team p org n c)))"
| "request_ok api (AddTeamMember p org t a r) c = (\<not> isl (fst (add_team_member p org t a r c)))"
| "request_ok api (ChangeTeamMemberRole p org t a r) c = (\<not> isl (fst (change_team_member_role p org t a r c)))"
| "request_ok api (RemoveTeamMember p org t a) c = (\<not> isl (fst (remove_team_member p org t a c)))"
| "request_ok api (CreateChannel p org sc n) c = (\<not> isl (fst (create_channel p org sc n c)))"
| "request_ok api (AddChannelMember p org ch a) c = (\<not> isl (fst (add_channel_member p org ch a c)))"
| "request_ok api (PostMessage org ch a i b) c = (\<not> isl (fst (post_message api org ch a i b c)))"
| "request_ok api (MessagesBefore a org ch q l) c = (\<not> isl (fst (messages_before api a org ch q l c)))"
| "request_ok api (MessagesAfter a org ch q l) c = (\<not> isl (fst (messages_after api a org ch q l c)))"
| "request_ok api (CreateInvite p org t ex n) c = (\<not> isl (fst (create_invite p org t ex n c)))"
| "request_ok api (RevokeInvite p org i) c = (\<not> isl (fst (revoke_invite p org i c)))"
| "request_ok api (InviteIsUsable th) c = (\<not> isl (fst (invite_is_usable th c)))"
| "request_ok api (AcceptInvite th e h n) c = (\<not> isl (fst (accept_invite th e h n c)))"
| "request_ok api (SignIn e v t ex) c = (\<not> isl (fst (sign_in e v t ex c)))"
| "request_ok api (ResolveSession th) c = (\<not> isl (fst (resolve_session th c)))"
| "request_ok api (RevokeSession a th) c = (\<not> isl (fst (revoke_session a th c)))"
| "request_ok api (WhoAmI a) c = (\<not> isl (fst (me a c)))"
| "request_ok api (LeaveService a) c = (\<not> isl (fst (leave_service a c)))"

text \<open>
  A database is reachable when requests lead to it from the empty one, each on a connection with any clock,
  any supply of ids and any loss.
\<close>

inductive reachable :: "uuid_api \<Rightarrow> db \<Rightarrow> bool" for api :: uuid_api where
  start: "reachable api empty_db"
| request: "reachable api (committed c) \<Longrightarrow> reachable api (committed (run_request api r c))"

interpretation register: operation "register e h n" for e h n
  by unfold_locales
    (unfold register_def, intro atomic_intros steady_intros, intro keeps_intros)

lemma register_run:
  assumes "wire c = Healthy" "register e h n c = (Inr a, c')"
  shows "a \<notin> key_set a_id (actors (committed c)) \<and> committed c' = person_rows a e h n (committed c)"
  using assms by (auto simp: register_def run_simps create_person_run)

lemma request_path: "path (committed c) (committed (run_request api r c))"
  by (cases r) (simp_all add: register.op_traced create_organization.op_traced
      change_member_role.op_traced suspend_member.op_traced reactivate_member.op_traced
      create_team.op_traced add_team_member.op_traced change_team_member_role.op_traced
      remove_team_member.op_traced create_channel.op_traced add_channel_member.op_traced
      post_message.op_traced messages_before.op_traced messages_after.op_traced
      create_invite.op_traced revoke_invite.op_traced invite_is_usable.op_traced
      accept_invite.op_traced sign_in.op_traced resolve_session.op_traced revoke_session.op_traced
      me.op_traced leave_service.op_traced)

lemma request_contract:
  "(committed (run_request api r c) = committed c
     \<or> committed (run_request api r c) = committed (run_request api r (heal c)))
   \<and> (request_ok api r c \<longrightarrow> request_ok api r (heal c)
        \<and> committed (run_request api r c) = committed (run_request api r (heal c)))
   \<and> (wire c = Healthy \<and> \<not> request_ok api r c \<longrightarrow> committed (run_request api r c) = committed c)"
  by (cases r; simp only: run_request.simps request_ok.simps not_not;
      rule register.contract create_organization.contract
      change_member_role.contract suspend_member.contract reactivate_member.contract
      create_team.contract add_team_member.contract change_team_member_role.contract
      remove_team_member.contract create_channel.contract add_channel_member.contract
      post_message.contract messages_before.contract messages_after.contract
      create_invite.contract revoke_invite.contract invite_is_usable.contract
      accept_invite.contract sign_in.contract resolve_session.contract revoke_session.contract
      me.contract leave_service.contract)

end
