(* ===== verification/Invariants.thy ===== *)
theory Invariants
  imports System
begin

text \<open>
  The invariants of every reachable database: the declared constraints, an active owner in every
  organization, nothing left of the departed, and message numbers without gaps.
\<close>

section \<open>From successful runs to all runs\<close>

text \<open>
  An invariant that every successful run on a healthy connection keeps is kept by every request, whatever
  happens to the connection.
\<close>

definition kept_on_success :: "(db \<Rightarrow> bool) \<Rightarrow> ('e, 'a) tx \<Rightarrow> bool" where
  "kept_on_success P m \<longleftrightarrow> (\<forall>c x c'. wire c = Healthy \<longrightarrow> m c = (Inr x, c') \<longrightarrow>
     schema_ok (committed c) \<longrightarrow> P (committed c) \<longrightarrow> P (committed c'))"

lemma kept_on_successI:
  "(\<And>c x c'. wire c = Healthy \<Longrightarrow> m c = (Inr x, c') \<Longrightarrow> schema_ok (committed c) \<Longrightarrow> P (committed c)
    \<Longrightarrow> P (committed c')) \<Longrightarrow> kept_on_success P m"
  by (auto simp: kept_on_success_def)

lemma kept_on_successD:
  "kept_on_success P m \<Longrightarrow> wire c = Healthy \<Longrightarrow> m c = (Inr x, c') \<Longrightarrow> schema_ok (committed c) \<Longrightarrow>
     P (committed c) \<Longrightarrow> P (committed c')"
  unfolding kept_on_success_def by blast

context operation
begin

lemma kept:
  assumes "kept_on_success P op" "schema_ok (committed c)" "P (committed c)"
  shows "P (committed (snd (op c)))"
proof -
  have "schema_ok (committed (snd (op c))) \<and> P (committed (snd (op c)))"
  proof (rule keeps_on_success [where P = "\<lambda>d. schema_ok d \<and> P d"])
    show "schema_ok (committed c) \<and> P (committed c)" using assms by blast
  next
    fix c x c'
    assume h: "wire c = Healthy" and run: "op c = (Inr x, c')"
      and inv: "schema_ok (committed c) \<and> P (committed c)"
    have "schema_ok (committed c')" using keeps_schema [of c] run inv by simp
    with kept_on_successD [OF assms(1) h run] inv show "schema_ok (committed c') \<and> P (committed c')"
      by blast
  qed
  then show ?thesis by blast
qed

end

text \<open>One proof obligation per operation that writes.\<close>

definition kept_by_operations :: "uuid_api \<Rightarrow> (db \<Rightarrow> bool) \<Rightarrow> bool" where
  "kept_by_operations api P \<longleftrightarrow>
     (\<forall>e h n. kept_on_success P (register e h n))
     \<and> (\<forall>a n sl. kept_on_success P (create_organization a n sl))
     \<and> (\<forall>p org a r. kept_on_success P (change_member_role p org a r))
     \<and> (\<forall>p org a. kept_on_success P (suspend_member p org a))
     \<and> (\<forall>p org a. kept_on_success P (reactivate_member p org a))
     \<and> (\<forall>p org n. kept_on_success P (create_team p org n))
     \<and> (\<forall>p org t a r. kept_on_success P (add_team_member p org t a r))
     \<and> (\<forall>p org t a r. kept_on_success P (change_team_member_role p org t a r))
     \<and> (\<forall>p org t a. kept_on_success P (remove_team_member p org t a))
     \<and> (\<forall>p org sc n. kept_on_success P (create_channel p org sc n))
     \<and> (\<forall>p org ch a. kept_on_success P (add_channel_member p org ch a))
     \<and> (\<forall>org ch a i b. kept_on_success P (post_message api org ch a i b))
     \<and> (\<forall>p org t ex n. kept_on_success P (create_invite p org t ex n :: (create_invite_error, invite_id \<times> string) tx))
     \<and> (\<forall>p org i. kept_on_success P (revoke_invite p org i))
     \<and> (\<forall>th e h n. kept_on_success P (accept_invite th e h n))
     \<and> (\<forall>e v t ex. kept_on_success P (sign_in e v t ex :: (sign_in_error, actor_id \<times> string) tx))
     \<and> (\<forall>a th. kept_on_success P (revoke_session a th))
     \<and> (\<forall>a. kept_on_success P (leave_service a))"

lemma reading_runs:
  "wire c = Healthy \<Longrightarrow> messages_before api a org ch q l c = (Inr r1, c') \<Longrightarrow> committed c' = committed c"
  "wire c = Healthy \<Longrightarrow> messages_after api a org ch s l c = (Inr r2, c') \<Longrightarrow> committed c' = committed c"
  "wire c = Healthy \<Longrightarrow> invite_is_usable th c = (Inr r3, c') \<Longrightarrow> committed c' = committed c"
  "wire c = Healthy \<Longrightarrow> resolve_session th c = (Inr r4, c') \<Longrightarrow> committed c' = committed c"
  "wire c = Healthy \<Longrightarrow> me a c = (Inr r5, c') \<Longrightarrow> committed c' = committed c"
  by (auto simp: messages_before_def messages_after_def invite_is_usable_def resolve_session_def me_def
      run_simps Let_def)

lemma kept_by_readers:
  "kept_on_success P (messages_before api a org ch q l)" "kept_on_success P (messages_after api a org ch s l)"
  "kept_on_success P (invite_is_usable th)" "kept_on_success P (resolve_session th)" "kept_on_success P (me a)"
  by (rule kept_on_successI, drule (1) reading_runs, simp)+

lemma kept_by_request:
  assumes "kept_by_operations api P" "schema_ok (committed c)" "P (committed c)"
  shows "P (committed (run_request api r c))"
  using assms kept_by_readers [of P]
  by (cases r) (simp_all add: kept_by_operations_def register.kept create_organization.kept
      change_member_role.kept suspend_member.kept reactivate_member.kept
      create_team.kept add_team_member.kept change_team_member_role.kept
      remove_team_member.kept create_channel.kept add_channel_member.kept
      post_message.kept messages_before.kept messages_after.kept
      create_invite.kept revoke_invite.kept invite_is_usable.kept
      accept_invite.kept sign_in.kept resolve_session.kept revoke_session.kept
      me.kept leave_service.kept)

lemma reachable_schema: "reachable api d \<Longrightarrow> schema_ok d"
  by (induction rule: reachable.induct) (auto intro: schema_ok_empty path_schema request_path)

lemma reachable_invariant:
  assumes "reachable api d" "P empty_db" "kept_by_operations api P"
  shows "P d"
  using assms(1)
proof (induction rule: reachable.induct)
  case (request c r)
  with assms(3) kept_by_request reachable_schema show ?case by blast
qed (rule assms(2))

section \<open>Every organization has an active owner\<close>

definition active_owner :: "member_row \<Rightarrow> bool" where
  "active_owner m \<longleftrightarrow> om_role m = ''owner'' \<and> om_status m = ''active''"

definition owned :: "db \<Rightarrow> bool" where
  "owned d \<longleftrightarrow> (\<forall>r \<in> set (organizations d). \<exists>m \<in> set (organization_members d).
     om_org m = o_id r \<and> active_owner m)"

lemma member_row_unique:
  assumes "schema_ok d" "m \<in> set (organization_members d)" "m' \<in> set (organization_members d)"
    "is_member org a m" "is_member org a m'"
  shows "m = m'"
proof (rule distinct_key_unique [where key = "\<lambda>m. (om_org m, om_actor m)"])
  show "distinct (map (\<lambda>m. (om_org m, om_actor m)) (organization_members d))"
    using assms(1) by (simp add: schema_ok_def members_ok_def uniq_def)
qed (use assms in \<open>auto simp: is_member_def\<close>)

lemma member_state_unique:
  "member_state s d org a ro st \<Longrightarrow> schema_ok d \<Longrightarrow> m \<in> set (organization_members d) \<Longrightarrow> is_member org a m
    \<Longrightarrow> om_role m = role_str ro \<and> om_status m = status_str st"
  using member_stateD member_row_unique by metis

lemma owned_congs:
  "owned (audited i ev org p d) = owned d"
  "organizations d' = organizations d \<Longrightarrow> organization_members d' = organization_members d \<Longrightarrow> owned d \<Longrightarrow> owned d'"
  by (simp_all add: owned_def)

lemma owned_rewrite:
  assumes "owned d" and f: "\<And>m. om_org (f m) = om_org m"
    and keep: "other_owner d org a \<or> (\<forall>m \<in> set (organization_members d). is_member org a m \<longrightarrow>
       active_owner m \<longrightarrow> active_owner (f m))"
  shows "owned (rewrite_member org a f d)"
  unfolding owned_def
proof
  fix r assume "r \<in> set (organizations (rewrite_member org a f d))"
  then obtain m where m: "m \<in> set (organization_members d)" "om_org m = o_id r" "active_owner m"
    using assms(1) by (auto simp: owned_def)
  show "\<exists>m \<in> set (organization_members (rewrite_member org a f d)). om_org m = o_id r \<and> active_owner m"
  proof (cases "is_member org a m")
    case False
    with m show ?thesis by (auto simp: set_update_where)
  next
    case True
    from keep show ?thesis
    proof
      assume "other_owner d org a"
      then obtain m' where "m' \<in> set (organization_members d)" "om_org m' = org" "om_actor m' \<noteq> a" "active_owner m'"
        by (auto simp: other_owner_def active_owner_def)
      with True m(2) show ?thesis by (auto simp: set_update_where is_member_def)
    next
      assume "\<forall>m \<in> set (organization_members d). is_member org a m \<longrightarrow> active_owner m \<longrightarrow> active_owner (f m)"
      with m True have "active_owner (f m)" by blast
      moreover have "f m \<in> set (organization_members (rewrite_member org a f d))"
        using m(1) True by (auto simp: set_update_where)
      ultimately show ?thesis using m(2) f by metis
    qed
  qed
qed

lemma owned_append:
  "owned d \<Longrightarrow> organizations d' = organizations d \<Longrightarrow>
     organization_members d' = organization_members d @ ms \<Longrightarrow> owned d'"
  by (auto simp: owned_def)

lemma owned_kept_membership:
  "kept_on_success owned (change_member_role p org a r)"
  "kept_on_success owned (suspend_member p org a)"
  "kept_on_success owned (reactivate_member p org a)"
proof -
  show "kept_on_success owned (change_member_role p org a r)"
  proof (rule kept_on_successI)
    fix c x c' assume h: "wire c = Healthy" and run: "change_member_role p org a r c = (Inr x, c')"
      and sch: "schema_ok (committed c)" and inv: "owned (committed c)"
    from change_member_role_run [OF h run] obtain ro st where
      ms: "member_state (session_for (Actor p) c) (committed c) org a ro st" and
      eff: "if ro = r then committed c' = committed c
           else (st = Active \<and> ro = Owner \<longrightarrow> other_owner (committed c) org a)
             \<and> committed c' = audited (uuids c (drawn c)) (member_role_changed a ro r) org p
                 (rewrite_member org a (\<lambda>m. m\<lparr>om_role := role_str r\<rparr>) (committed c))" by blast
    have "active_owner m \<Longrightarrow> st = Active \<and> ro = Owner"
      if "m \<in> set (organization_members (committed c))" "is_member org a m" for m
      using member_state_unique [OF ms sch that] by (simp add: active_owner_def)
    with eff inv show "owned (committed c')"
      by (auto simp: owned_congs intro!: owned_rewrite split: if_splits)
  qed
next
  show "kept_on_success owned (suspend_member p org a)"
  proof (rule kept_on_successI)
    fix c x c' assume h: "wire c = Healthy" and run: "suspend_member p org a c = (Inr x, c')"
      and sch: "schema_ok (committed c)" and inv: "owned (committed c)"
    from suspend_member_run [OF h run] obtain ro where
      ms: "member_state (session_for (Actor p) c) (committed c) org a ro Active" and
      other: "ro = Owner \<longrightarrow> other_owner (committed c) org a" and
      eff: "committed c' = audited (uuids c (drawn c)) (member_suspended a) org p
        (rewrite_member org a (\<lambda>m. m\<lparr>om_status := ''suspended''\<rparr>) (committed c))" by blast
    have "active_owner m \<Longrightarrow> ro = Owner"
      if "m \<in> set (organization_members (committed c))" "is_member org a m" for m
      using member_state_unique [OF ms sch that] by (simp add: active_owner_def)
    with eff inv other show "owned (committed c')"
      by (auto simp: owned_congs intro!: owned_rewrite)
  qed
next
  show "kept_on_success owned (reactivate_member p org a)"
    by (rule kept_on_successI)
      (auto dest!: reactivate_member_run simp: owned_congs active_owner_def intro!: owned_rewrite)
qed

lemma owned_departure:
  assumes inv: "owned d" and sch: "schema_ok d" and self: "actor_setting s = Some a"
    and other: "\<forall>org. in_active s d org \<longrightarrow> other_owner d org a"
  shows "owned (departed_rows a t d)"
  unfolding owned_def
proof
  fix r assume "r \<in> set (organizations (departed_rows a t d))"
  then obtain m where m: "m \<in> set (organization_members d)" "om_org m = o_id r" "active_owner m"
    using inv by (auto simp: owned_def departed_rows_def)
  have "\<exists>m \<in> set (organization_members d). om_org m = o_id r \<and> active_owner m \<and> om_actor m \<noteq> a"
  proof (cases "om_actor m = a")
    case True
    with m self have "in_active s d (o_id r)" by (auto simp: in_active_iff active_owner_def)
    with other show ?thesis by (auto simp: other_owner_def active_owner_def)
  qed (use m in blast)
  then show "\<exists>m \<in> set (organization_members (departed_rows a t d)). om_org m = o_id r \<and> active_owner m"
    by (auto simp: departed_rows_def set_update_where)
qed

text \<open>The operations that do not write memberships or organizations.\<close>

lemma members_untouched:
  "wire c = Healthy \<Longrightarrow> register e h n c = (Inr a1, c') \<Longrightarrow>
     organizations (committed c') = organizations (committed c)
     \<and> organization_members (committed c') = organization_members (committed c)"
  "wire c = Healthy \<Longrightarrow> create_team p org n c = (Inr a2, c') \<Longrightarrow>
     organizations (committed c') = organizations (committed c)
     \<and> organization_members (committed c') = organization_members (committed c)"
  "wire c = Healthy \<Longrightarrow> add_team_member p org t a r c = (Inr a3, c') \<Longrightarrow>
     organizations (committed c') = organizations (committed c)
     \<and> organization_members (committed c') = organization_members (committed c)"
  "wire c = Healthy \<Longrightarrow> change_team_member_role p org t a r c = (Inr a4, c') \<Longrightarrow>
     organizations (committed c') = organizations (committed c)
     \<and> organization_members (committed c') = organization_members (committed c)"
  "wire c = Healthy \<Longrightarrow> remove_team_member p org t a c = (Inr a5, c') \<Longrightarrow>
     organizations (committed c') = organizations (committed c)
     \<and> organization_members (committed c') = organization_members (committed c)"
  "wire c = Healthy \<Longrightarrow> create_channel p org sc n c = (Inr a6, c') \<Longrightarrow>
     organizations (committed c') = organizations (committed c)
     \<and> organization_members (committed c') = organization_members (committed c)"
  "wire c = Healthy \<Longrightarrow> add_channel_member p org ch a c = (Inr a7, c') \<Longrightarrow>
     organizations (committed c') = organizations (committed c)
     \<and> organization_members (committed c') = organization_members (committed c)"
  "wire c = Healthy \<Longrightarrow> create_invite p org nt ex mu c = (Inr a8, c') \<Longrightarrow>
     organizations (committed c') = organizations (committed c)
     \<and> organization_members (committed c') = organization_members (committed c)"
  "wire c = Healthy \<Longrightarrow> revoke_invite p org i c = (Inr a9, c') \<Longrightarrow>
     organizations (committed c') = organizations (committed c)
     \<and> organization_members (committed c') = organization_members (committed c)"
  "wire c = Healthy \<Longrightarrow> sign_in e v nt ex c = (Inr a10, c') \<Longrightarrow>
     organizations (committed c') = organizations (committed c)
     \<and> organization_members (committed c') = organization_members (committed c)"
  "wire c = Healthy \<Longrightarrow> revoke_session a th c = (Inr a11, c') \<Longrightarrow>
     organizations (committed c') = organizations (committed c)
     \<and> organization_members (committed c') = organization_members (committed c)"
          apply (drule (1) register_run, simp add: person_rows_def)
         apply (drule (1) create_team_run, simp)
        apply (drule (1) add_team_member_run, simp)
       apply (drule (1) change_team_member_role_run, auto)[1]
      apply (drule (1) remove_team_member_run, simp)
     apply (drule (1) create_channel_run, simp)
    apply (drule (1) add_channel_member_run, simp)
   apply (cases a8, simp, drule (1) create_invite_run, auto)[1]
  apply (drule (1) revoke_invite_run, auto split: if_splits)[1]
   apply (cases a10, simp, drule (1) sign_in_run, auto)[1]
  apply (drule (1) revoke_session_run, simp)
  done

lemma owned_kept: "kept_by_operations api owned"
  unfolding kept_by_operations_def
proof (intro conjI allI)
  show "kept_on_success owned (leave_service a)" for a
  proof (rule kept_on_successI)
    fix c x c' assume h: "wire c = Healthy" and run: "leave_service a c = (Inr x, c')"
      and sch: "schema_ok (committed c)" and inv: "owned (committed c)"
    from leave_service_run [OF h run sch] obtain es where
      other: "\<forall>org. in_active (session_for (Actor a) c) (committed c) org \<longrightarrow> other_owner (committed c) org a" and
      eff: "committed c' = (departed_rows a (clock c) (committed c))\<lparr>audit_events := es\<rparr>"
      by blast
    have "owned (departed_rows a (clock c) (committed c))"
      by (rule owned_departure [OF inv sch _ other]) simp
    with eff
    show "owned (committed c')" by (simp add: owned_def)
  qed
  show "kept_on_success owned (create_organization a n sl)" for a n sl
    by (rule kept_on_successI) (auto dest!: create_organization_run simp: owned_congs owned_def active_owner_def)
  show "kept_on_success owned (accept_invite th e h n)" for th e h n
    by (rule kept_on_successI) (auto dest!: accept_invite_run simp: owned_congs person_rows_def elim!: owned_append)
  show "kept_on_success owned (post_message api org ch a i b)" for org ch a i b
    by (rule kept_on_successI) (drule (1) post_message_effect, auto simp: owned_def)
qed (rule owned_kept_membership | rule kept_on_successI, drule (1) members_untouched, simp add: owned_def)+

end
