(* ===== verification/Erasure.thy ===== *)
theory Erasure
  imports Invariants
begin

text \<open>
  Departure is complete and final: in every reachable database an actor that has left the service has no
  name, no user row, no session, no team or channel membership, and only memberships with status \<open>left\<close>.
\<close>

definition erased :: "db \<Rightarrow> actor_id \<Rightarrow> bool" where
  "erased d a \<longleftrightarrow> a \<notin> key_set u_actor_id (users d) \<and> a \<notin> key_set s_actor (sessions d)
     \<and> a \<notin> key_set tm_actor (team_members d) \<and> a \<notin> key_set cm_actor (channel_members d)
     \<and> (\<forall>m \<in> set (organization_members d). om_actor m = a \<longrightarrow>
          om_status m = ''left'' \<and> om_display_name m = None)"

definition departed_clean :: "db \<Rightarrow> bool" where
  "departed_clean d \<longleftrightarrow> (\<forall>r \<in> set (actors d). a_deleted_at r \<noteq> None \<longrightarrow>
     a_display_name r = None \<and> erased d (a_id r))"

lemma departed_clean_audited [simp]: "departed_clean (audited i ev org p d) = departed_clean d"
  by (simp add: departed_clean_def erased_def)

lemma actor_row_unique:
  assumes "schema_ok d" "r \<in> set (actors d)" "r' \<in> set (actors d)" "a_id r = a_id r'"
  shows "r = r'"
  using assms by (auto simp: schema_ok_def actors_ok_def uniq_def intro: distinct_key_unique)

lemma departed_state_False:
  assumes "departed_state s d a = Some False" "schema_ok d" "r \<in> set (actors d)" "a_id r = a"
  shows "a_deleted_at r = None"
proof -
  from assms(1) obtain r' where "r' \<in> set (actors d)" "a_id r' = a" "a_deleted_at r' = None"
    by (auto simp: departed_state_def dest!: fetch_optional_SomeD)
  with actor_row_unique [OF assms(2,3)] assms(4) show ?thesis by metis
qed

text \<open>A change of one person's rows keeps the invariant when that person has not departed.\<close>

definition present :: "db \<Rightarrow> actor_id \<Rightarrow> bool" where
  "present d a \<longleftrightarrow> (\<forall>r \<in> set (actors d). a_id r = a \<longrightarrow> a_deleted_at r = None)"

lemma present_if_member:
  "departed_clean d \<Longrightarrow> m \<in> set (organization_members d) \<Longrightarrow> om_status m \<noteq> ''left'' \<Longrightarrow> present d (om_actor m)"
  unfolding departed_clean_def present_def erased_def by metis

lemma present_if_user:
  "departed_clean d \<Longrightarrow> u \<in> set (users d) \<Longrightarrow> present d (u_actor_id u)"
  unfolding departed_clean_def present_def erased_def using key_set_member [of u "users d" u_actor_id] by metis

lemma present_if_state: "departed_state s d a = Some False \<Longrightarrow> schema_ok d \<Longrightarrow> present d a"
  using departed_state_False by (auto simp: present_def)

lemma present_if_new: "a \<notin> key_set a_id (actors d) \<Longrightarrow> present d a"
  by (auto simp: present_def key_set_def)

definition same_elsewhere :: "actor_id \<Rightarrow> db \<Rightarrow> db \<Rightarrow> bool" where
  "same_elsewhere a d d' \<longleftrightarrow> (\<forall>b. b \<noteq> a \<longrightarrow> erased d b \<longrightarrow> erased d' b)"

lemma departed_clean_person:
  assumes "departed_clean d" "present d a" "same_elsewhere a d d'" "actors d' = actors d @ new"
    and "\<forall>r \<in> set new. a_deleted_at r = None"
  shows "departed_clean d'"
  using assms unfolding departed_clean_def present_def same_elsewhere_def
  by (metis UnE set_append)

lemma departed_clean_rewrite:
  assumes clean: "departed_clean d" and ok: "present d a \<or> (\<forall>m. om_status (f m) = om_status m)"
    and f: "\<And>m. om_actor (f m) = om_actor m" "\<And>m. om_display_name (f m) = om_display_name m"
  shows "departed_clean (rewrite_member org a f d)"
  using ok
proof
  assume "present d a"
  moreover have "same_elsewhere a d (rewrite_member org a f d)"
    using f by (auto simp: same_elsewhere_def erased_def set_update_where is_member_def)
  ultimately show ?thesis
    using departed_clean_person [OF clean, of a _ "[]"] by simp
next
  assume st: "\<forall>m. om_status (f m) = om_status m"
  have "erased d b \<Longrightarrow> erased (rewrite_member org a f d) b" for b
    using f st by (auto simp: erased_def set_update_where)
  with clean show ?thesis by (auto simp: departed_clean_def)
qed

lemma departed_clean_same:
  "departed_clean d \<Longrightarrow> actors d' = actors d \<Longrightarrow> users d' = users d \<Longrightarrow> sessions d' = sessions d \<Longrightarrow>
     organization_members d' = organization_members d \<Longrightarrow> team_members d' = team_members d \<Longrightarrow>
     channel_members d' = channel_members d \<Longrightarrow> departed_clean d'"
  by (simp add: departed_clean_def erased_def)

lemma departed_clean_membership:
  "kept_on_success departed_clean (change_member_role p org a r)"
  "kept_on_success departed_clean (suspend_member p org a)"
  "kept_on_success departed_clean (reactivate_member p org a)"
proof -
  show "kept_on_success departed_clean (change_member_role p org a r)"
    by (rule kept_on_successI)
      (auto dest!: change_member_role_run split: if_splits intro!: departed_clean_rewrite)
  have member: "present d a"
    if "member_state s d org a ro st" "st \<noteq> Left" "departed_clean d" for s d ro st
  proof -
    from member_stateD [OF that(1)] obtain m where "m \<in> set (organization_members d)" "om_actor m = a"
      "om_status m = status_str st"
      by (auto simp: is_member_def)
    with present_if_member [OF that(3)] that(2) show ?thesis by auto
  qed
  show "kept_on_success departed_clean (suspend_member p org a)"
    by (rule kept_on_successI)
      (drule (1) suspend_member_run, auto intro!: departed_clean_rewrite dest: member)
  show "kept_on_success departed_clean (reactivate_member p org a)"
    by (rule kept_on_successI)
      (drule (1) reactivate_member_run, auto intro!: departed_clean_rewrite dest: member)
qed

lemma departed_clean_change:
  "departed_clean d \<Longrightarrow> present d a \<Longrightarrow> same_elsewhere a d d' \<Longrightarrow> actors d' = actors d \<Longrightarrow> departed_clean d'"
  by (rule departed_clean_person [where new = "[]"]) simp_all

lemma departed_clean_people:
  "kept_on_success departed_clean (register e h n)"
  "kept_on_success departed_clean (create_organization a on sl)"
  "kept_on_success departed_clean (accept_invite th e h n)"
  "kept_on_success departed_clean (sign_in e v nt ex)"
proof -
  have se: "same_elsewhere b d (person_rows b e h n d)" for b d
    by (simp add: same_elsewhere_def erased_def person_rows_def)
  show "kept_on_success departed_clean (register e h n)"
  proof (rule kept_on_successI)
    fix c a c' assume h: "wire c = Healthy" and run: "register e h n c = (Inr a, c')"
      and clean: "departed_clean (committed c)"
    from register_run [OF h run] have new: "a \<notin> key_set a_id (actors (committed c))"
      and eff: "committed c' = person_rows a e h n (committed c)" by auto
    from clean present_if_new [OF new] se show "departed_clean (committed c')"
      unfolding eff by (rule departed_clean_person) (simp add: person_rows_def, simp)
  qed
  show "kept_on_success departed_clean (create_organization a on sl)"
  proof (rule kept_on_successI)
    fix c x c' assume h: "wire c = Healthy" and run: "create_organization a on sl c = (Inr x, c')"
      and clean: "departed_clean (committed c)" and sch: "schema_ok (committed c)"
    note eff = create_organization_run [OF h run]
    from clean have "present (committed c) a \<Longrightarrow> departed_clean (committed c')"
      by (rule departed_clean_change) (use eff in \<open>auto simp: same_elsewhere_def erased_def\<close>)
    with eff present_if_state sch show "departed_clean (committed c')" by blast
  qed
  show "kept_on_success departed_clean (accept_invite th e h n)"
  proof (rule kept_on_successI)
    fix c x c' assume h: "wire c = Healthy" and run: "accept_invite th e h n c = (Inr x, c')"
      and clean: "departed_clean (committed c)"
    obtain a org where x: "x = (a, org)" by fastforce
    note eff = accept_invite_run [OF h run [unfolded x]]
    then have "present (committed c) a" using present_if_new by blast
    with clean show "departed_clean (committed c')"
      by (rule departed_clean_person) (use eff in \<open>auto simp: same_elsewhere_def erased_def person_rows_def\<close>)
  qed
  show "kept_on_success departed_clean (sign_in e v nt ex)"
  proof (rule kept_on_successI)
    fix c x c' assume h: "wire c = Healthy" and run: "sign_in e v nt ex c = (Inr x, c')"
      and clean: "departed_clean (committed c)"
    obtain a tok where x: "x = (a, tok)" by fastforce
    note eff = sign_in_run [OF h run [unfolded x]]
    then have "present (committed c) a" using present_if_user [OF clean] by blast
    with clean show "departed_clean (committed c')"
      by (rule departed_clean_change) (use eff in \<open>auto simp: same_elsewhere_def erased_def\<close>)
  qed
qed

lemma departed_clean_places:
  "kept_on_success departed_clean (add_team_member p org t a r)"
  "kept_on_success departed_clean (change_team_member_role p org t a r)"
  "kept_on_success departed_clean (remove_team_member p org t a)"
  "kept_on_success departed_clean (add_channel_member p org ch a)"
proof -
  show "kept_on_success departed_clean (add_team_member p org t a r)"
  proof (rule kept_on_successI)
    fix c x c' assume h: "wire c = Healthy" and run: "add_team_member p org t a r c = (Inr x, c')"
      and clean: "departed_clean (committed c)"
    note eff = add_team_member_run [OF h run]
    then have "present (committed c) a"
      using present_if_member [OF clean] by (auto simp: is_member_def)
    with clean show "departed_clean (committed c')"
      by (rule departed_clean_change) (use eff in \<open>auto simp: same_elsewhere_def erased_def\<close>)
  qed
  show "kept_on_success departed_clean (add_channel_member p org ch a)"
  proof (rule kept_on_successI)
    fix c x c' assume h: "wire c = Healthy" and run: "add_channel_member p org ch a c = (Inr x, c')"
      and clean: "departed_clean (committed c)" and sch: "schema_ok (committed c)"
    note eff = add_channel_member_run [OF h run]
    then have "present (committed c) a" using present_if_state sch by blast
    with clean show "departed_clean (committed c')"
      by (rule departed_clean_change) (use eff in \<open>auto simp: same_elsewhere_def erased_def\<close>)
  qed
  have mono: "departed_clean d \<Longrightarrow> actors d' = actors d \<Longrightarrow> (\<And>b. erased d b \<Longrightarrow> erased d' b) \<Longrightarrow> departed_clean d'"
    for d d'
    by (simp add: departed_clean_def)
  show "kept_on_success departed_clean (change_team_member_role p org t a r)"
  proof (rule kept_on_successI)
    fix c x c' assume h: "wire c = Healthy" and run: "change_team_member_role p org t a r c = (Inr x, c')"
      and clean: "departed_clean (committed c)"
    from change_team_member_role_run [OF h run] show "departed_clean (committed c')"
      by (auto intro!: mono [OF clean] simp: clean erased_def key_set_update_where)
  qed
  show "kept_on_success departed_clean (remove_team_member p org t a)"
  proof (rule kept_on_successI)
    fix c x c' assume h: "wire c = Healthy" and run: "remove_team_member p org t a c = (Inr x, c')"
      and clean: "departed_clean (committed c)"
    from remove_team_member_run [OF h run] show "departed_clean (committed c')"
      by (auto intro!: mono [OF clean] simp: erased_def key_set_def)
  qed
qed

lemma left_row_simps [simp]:
  "om_actor (left_row m) = om_actor m" "om_org (left_row m) = om_org m"
  "om_status (left_row m) = ''left''" "om_display_name (left_row m) = None"
  by (simp_all add: left_row_def)

lemma key_set_without: "key_set key (filter (\<lambda>r. key r \<noteq> a) rows) = key_set key rows - {a}"
  by (auto simp: key_set_def)

lemma erased_departed_rows:
  assumes "erased d b \<or> b = a"
  shows "erased (departed_rows a t d) b"
proof -
  have "om_status m = ''left'' \<and> om_display_name m = None"
    if "m \<in> set (update_where (\<lambda>m. om_actor m = a) left_row (organization_members d))" "om_actor m = b" for m
    using that assms by (auto simp: set_update_where erased_def)
  then show ?thesis
    using assms by (auto simp: erased_def departed_rows_def key_set_without)
qed

lemma departed_clean_departure:
  assumes clean: "departed_clean d"
  shows "departed_clean (departed_rows a t d)"
  unfolding departed_clean_def
proof (intro ballI impI)
  fix r assume r: "r \<in> set (actors (departed_rows a t d))" and gone: "a_deleted_at r \<noteq> None"
  have "r \<in> set (update_where (\<lambda>r. a_id r = a)
      (\<lambda>r. r\<lparr>a_display_name := None, a_deleted_at := Some t\<rparr>) (actors d))"
    using r by (simp add: departed_rows_def)
  then consider x where "r = x\<lparr>a_display_name := None, a_deleted_at := Some t\<rparr>" "a_id x = a"
    | "r \<in> set (actors d)"
    unfolding set_update_where by blast
  then show "a_display_name r = None \<and> erased (departed_rows a t d) (a_id r)"
  proof cases
    case 1
    then show ?thesis using erased_departed_rows [of d a a t] by simp
  next
    case 2
    with clean gone erased_departed_rows show ?thesis unfolding departed_clean_def by blast
  qed
qed

text \<open>The operations that write none of the tables the invariant reads.\<close>

lemma departed_clean_others:
  "kept_on_success departed_clean (create_team p org n)"
  "kept_on_success departed_clean (create_channel p org sc n)"
  "kept_on_success departed_clean (post_message api org ch a i b)"
  "kept_on_success departed_clean (create_invite p org nt ex mu)"
  "kept_on_success departed_clean (revoke_invite p org iv)"
  "kept_on_success departed_clean (revoke_session a th)"
proof -
  show "kept_on_success departed_clean (create_team p org n)"
    by (rule kept_on_successI, drule (1) create_team_run) (simp add: departed_clean_def erased_def)
  show "kept_on_success departed_clean (create_channel p org sc n)"
    by (rule kept_on_successI, drule (1) create_channel_run) (simp add: departed_clean_def erased_def)
  show "kept_on_success departed_clean (post_message api org ch a i b)"
    by (rule kept_on_successI, drule (1) post_message_effect) (auto simp: departed_clean_def erased_def)
  show "kept_on_success departed_clean (create_invite p org nt ex mu)"
    by (rule kept_on_successI, case_tac x, simp, drule (1) create_invite_run)
      (auto simp: departed_clean_def erased_def)
  show "kept_on_success departed_clean (revoke_invite p org iv)"
    by (rule kept_on_successI, drule (1) revoke_invite_run)
      (auto simp: departed_clean_def erased_def split: if_splits)
  show "kept_on_success departed_clean (revoke_session a th)"
    by (rule kept_on_successI, drule (1) revoke_session_run)
      (simp add: departed_clean_def erased_def key_set_update_where)
qed

lemma departed_clean_kept: "kept_by_operations api departed_clean"
  unfolding kept_by_operations_def
proof (intro conjI allI)
  show "kept_on_success departed_clean (leave_service a)" for a
  proof (rule kept_on_successI)
    fix c x c' assume h: "wire c = Healthy" and run: "leave_service a c = (Inr x, c')"
      and sch: "schema_ok (committed c)" and clean: "departed_clean (committed c)"
    from leave_service_run [OF h run sch] obtain es where
      "committed c' = (departed_rows a (clock c) (committed c))\<lparr>audit_events := es\<rparr>" by blast
    with departed_clean_departure [OF clean] show "departed_clean (committed c')"
      by (simp add: departed_clean_def erased_def)
  qed
qed (rule departed_clean_membership departed_clean_people departed_clean_places departed_clean_others)+

lemma reachable_departed_clean: "reachable api d \<Longrightarrow> departed_clean d"
  by (rule reachable_invariant [OF _ _ departed_clean_kept]) (simp_all add: departed_clean_def empty_db_def)

end
