(* ===== verification/Sequences.thy ===== *)
theory Sequences
  imports Invariants
begin

text \<open>
  Message numbers: in every reachable database the messages of a channel, in the order they were posted, are
  numbered 1, 2, 3, ... up to the channel's counter.
\<close>

definition numbers :: "db \<Rightarrow> channel_id \<Rightarrow> int list" where
  "numbers d ch = map m_seq (filter (\<lambda>m. m_channel m = ch) (messages d))"

definition gapless :: "db \<Rightarrow> bool" where
  "gapless d \<longleftrightarrow> (\<forall>r \<in> set (channels d). numbers d (ch_id r) = [1..ch_next_seq r])"

lemma channel_row_unique:
  assumes "schema_ok d" "r \<in> set (channels d)" "r' \<in> set (channels d)" "ch_id r = ch_id r'"
  shows "r = r'"
  using assms by (auto simp: schema_ok_def channels_ok_def uniq_def intro: distinct_key_unique)

lemma channel_counter_nonneg: "schema_ok d \<Longrightarrow> r \<in> set (channels d) \<Longrightarrow> 0 \<le> ch_next_seq r"
  by (simp add: schema_ok_def channels_ok_def channel_row_ok_def)

lemma numbers_append:
  "messages d' = messages d @ [m] \<Longrightarrow>
     numbers d' ch = numbers d ch @ (if m_channel m = ch then [m_seq m] else [])"
  by (simp add: numbers_def)

lemma set_bumped:
  "x \<in> set (bumped ch org rows) \<Longrightarrow> (\<exists>r \<in> set rows. ch_id r = ch \<and> ch_org r = org
       \<and> ch_id x = ch \<and> ch_next_seq x = ch_next_seq r + 1)
     \<or> (x \<in> set rows \<and> \<not> (ch_id x = ch \<and> ch_org x = org))"
  by (auto simp: bumped_def set_update_where)

lemma gapless_post:
  assumes sch: "schema_ok d" and inv: "gapless d"
    and r: "r \<in> set (channels d)" "ch_id r = ch" "ch_org r = org"
    and d': "d' = d\<lparr>channels := bumped ch org (channels d),
         messages := messages d @ [posted_row i org ch (ch_next_seq r + 1) a b t]\<rparr>"
  shows "gapless d'"
  unfolding gapless_def
proof
  fix x assume "x \<in> set (channels d')"
  then have x: "x \<in> set (bumped ch org (channels d))" by (simp add: d')
  have new: "numbers d' k = numbers d k @ (if ch = k then [ch_next_seq r + 1] else [])" for k
    by (subst numbers_append [of d' d "posted_row i org ch (ch_next_seq r + 1) a b t"])
      (simp_all add: d' posted_row_def)
  show "numbers d' (ch_id x) = [1..ch_next_seq x]"
  proof (cases "ch_id x = ch")
    case True
    have "ch_next_seq x = ch_next_seq r + 1"
    proof -
      from set_bumped [OF x] True obtain y where "y \<in> set (channels d)" "ch_id y = ch"
        and "ch_next_seq x = ch_next_seq y + 1 \<or> x = y \<and> ch_org x \<noteq> org" by blast
      with channel_row_unique [OF sch r(1)] r show ?thesis by metis
    qed
    moreover have "numbers d ch = [1..ch_next_seq r]" using inv r by (auto simp: gapless_def)
    moreover have "[1..ch_next_seq r + 1] = [1..ch_next_seq r] @ [ch_next_seq r + 1]"
      using channel_counter_nonneg [OF sch r(1)] by (simp add: upto_rec2)
    ultimately show ?thesis using True by (simp add: new)
  next
    case False
    with set_bumped [OF x] have "x \<in> set (channels d)" by blast
    with inv False show ?thesis by (simp add: new gapless_def)
  qed
qed

lemma gapless_same:
  "gapless d \<Longrightarrow> channels d' = channels d \<Longrightarrow> messages d' = messages d \<Longrightarrow> gapless d'"
  by (simp add: gapless_def numbers_def)

lemma gapless_new_channel:
  assumes "schema_ok d" "gapless d" "ch_id r \<notin> key_set ch_id (channels d)" "ch_next_seq r = 0"
    "channels d' = channels d @ [r]" "messages d' = messages d"
  shows "gapless d'"
proof -
  have "m_channel m \<in> key_set ch_id (channels d)" if "m \<in> set (messages d)" for m
    using assms(1) that by (auto simp: schema_ok_def messages_ok_def key_set_def)
  then have "numbers d (ch_id r) = []"
    using assms(3) by (simp add: numbers_def filter_empty_conv) metis
  with assms show ?thesis by (auto simp: gapless_def numbers_def)
qed

text \<open>The operations that write neither channels nor messages.\<close>

definition leaves_messages :: "('e, 'a) tx \<Rightarrow> bool" where
  "leaves_messages m \<longleftrightarrow> (\<forall>c x c'. wire c = Healthy \<longrightarrow> m c = (Inr x, c') \<longrightarrow> schema_ok (committed c) \<longrightarrow>
     channels (committed c') = channels (committed c) \<and> messages (committed c') = messages (committed c))"

lemma leaves_messagesI:
  "(\<And>c x c'. wire c = Healthy \<Longrightarrow> m c = (Inr x, c') \<Longrightarrow> schema_ok (committed c) \<Longrightarrow>
     channels (committed c') = channels (committed c) \<and> messages (committed c') = messages (committed c))
    \<Longrightarrow> leaves_messages m"
  by (simp add: leaves_messages_def)

lemma leaves_kept:
  assumes "leaves_messages m" "\<And>d d'. P d \<Longrightarrow> channels d' = channels d \<Longrightarrow> messages d' = messages d \<Longrightarrow> P d'"
  shows "kept_on_success P m"
  by (rule kept_on_successI) (use assms in \<open>unfold leaves_messages_def, blast\<close>)

lemma channels_untouched:
  "leaves_messages (register e h n)"
  "leaves_messages (create_organization a n sl)"
  "leaves_messages (change_member_role p org a ro)"
  "leaves_messages (suspend_member p org a)"
  "leaves_messages (reactivate_member p org a)"
  "leaves_messages (create_team p org n)"
  "leaves_messages (add_team_member p org t a r)"
  "leaves_messages (change_team_member_role p org t a r)"
  "leaves_messages (remove_team_member p org t a)"
  "leaves_messages (add_channel_member p org ch a)"
  "leaves_messages (create_invite p org nt ex mu)"
  "leaves_messages (revoke_invite p org iv)"
  "leaves_messages (accept_invite th e h n)"
  "leaves_messages (sign_in e v nt ex)"
  "leaves_messages (revoke_session a th)"
  "leaves_messages (leave_service a)"
                 apply (rule leaves_messagesI, drule (1) register_run,
                   auto simp: person_rows_def)[1]
                apply (rule leaves_messagesI, drule (1) create_organization_run, auto)[1]
               apply (rule leaves_messagesI, drule (1) change_member_role_run,
                 auto split: if_splits)[1]
              apply (rule leaves_messagesI, drule (1) suspend_member_run, auto)[1]
             apply (rule leaves_messagesI, drule (1) reactivate_member_run, auto)[1]
            apply (rule leaves_messagesI, drule (1) create_team_run, auto)[1]
           apply (rule leaves_messagesI, drule (1) add_team_member_run, auto)[1]
          apply (rule leaves_messagesI, drule (1) change_team_member_role_run, auto)[1]
         apply (rule leaves_messagesI, drule (1) remove_team_member_run, elim conjE, simp)[1]
        apply (rule leaves_messagesI, drule (1) add_channel_member_run, auto)[1]
       apply (rule leaves_messagesI, case_tac x, simp, drule (1) create_invite_run, auto)[1]
      apply (rule leaves_messagesI, drule (1) revoke_invite_run, auto split: if_splits)[1]
     apply (rule leaves_messagesI, case_tac x, simp, drule (1) accept_invite_run, elim conjE bexE,
       simp add: person_rows_def)[1]
    apply (rule leaves_messagesI, case_tac x, simp, drule (1) sign_in_run, elim conjE exE, simp)[1]
   apply (rule leaves_messagesI, drule (1) revoke_session_run, elim conjE, simp)[1]
  apply (rule leaves_messagesI, drule (2) leave_service_run, elim conjE exE,
    simp add: departed_rows_def)[1]
  done

lemma gapless_kept: "kept_by_operations api gapless"
  unfolding kept_by_operations_def
proof (intro conjI allI)
  show "kept_on_success gapless (create_channel p org sc n)" for p org sc n
    by (rule kept_on_successI, drule (1) create_channel_run, elim conjE, erule (1) gapless_new_channel) simp_all
  show "kept_on_success gapless (post_message api org ch a i b)" for org ch a i b
  proof (rule kept_on_successI)
    fix c x c' assume h: "wire c = Healthy" and run: "post_message api org ch a i b c = (Inr x, c')"
      and sch: "schema_ok (committed c)" and inv: "gapless (committed c)"
    from post_message_effect [OF run h] gapless_post [OF sch inv] inv show "gapless (committed c')"
      by metis
  qed
qed (rule leaves_kept, rule channels_untouched, erule (2) gapless_same)+

section \<open>Stored ids\<close>

text \<open>A post reads its row back before it commits, so every stored id is one \<open>MessageId\<close> accepts.\<close>

definition known_ids :: "uuid_api \<Rightarrow> db \<Rightarrow> bool" where
  "known_ids api d \<longleftrightarrow> (\<forall>m \<in> set (messages d). from_client api (m_id m) = Inr (MessageId (m_id m)))"

lemma try_from_known: "try_from api r = Inr m \<Longrightarrow> from_client api (m_id r) = Inr (MessageId (m_id r))"
  by (auto simp: try_from_def from_client_def split: if_splits sum.splits)

lemma known_ids_kept: "kept_by_operations api (known_ids api)"
  unfolding kept_by_operations_def
proof (intro conjI allI)
  show "kept_on_success (known_ids api) (create_channel p org sc n)" for p org sc n
    by (rule kept_on_successI, drule (1) create_channel_run) (simp add: known_ids_def)
  show "kept_on_success (known_ids api) (post_message api org ch a i b)" for org ch a i b
  proof (rule kept_on_successI)
    fix c x c' assume h: "wire c = Healthy" and run: "post_message api org ch a i b c = (Inr x, c')"
      and inv: "known_ids api (committed c)"
    show "known_ids api (committed c')"
    proof (cases x)
      case (Posted m)
      from post_message_Posted [OF h run [unfolded Posted]] inv try_from_known
      show ?thesis by (auto simp: known_ids_def)
    next
      case (AlreadyPosted m)
      from post_message_AlreadyPosted [OF h run [unfolded AlreadyPosted]] inv show ?thesis by simp
    qed
  qed
qed (rule leaves_kept, rule channels_untouched, simp add: known_ids_def)+

lemma reachable_known_ids: "reachable api d \<Longrightarrow> known_ids api d"
  by (rule reachable_invariant [OF _ _ known_ids_kept]) (simp_all add: known_ids_def empty_db_def)

lemma reachable_gapless: "reachable api d \<Longrightarrow> gapless d"
  by (rule reachable_invariant [OF _ _ gapless_kept]) (simp_all add: gapless_def empty_db_def)

end
