(* ===== verification/Scenario.thy ===== *)
theory Scenario
  imports System
begin

text \<open>
  A concrete history, run by evaluation: Ann registers, founds an organization and invites Bob, who joins;
  a team and two channels are created, both post, and Bob signs in. The witnesses of the properties are
  taken on the database \<open>demo\<close> this leads to.
\<close>

definition any_v7 :: uuid_api where
  "any_v7 = \<lparr>version_is_sortrand = (\<lambda>i. i \<noteq> 0), variant_is_rfc4122 = (\<lambda>i. True)\<rparr>"

text \<open>A healthy connection at instant \<open>t\<close>; the ids it draws are \<open>1000 t, 1000 t + 1, ...\<close>.\<close>

definition conn_at :: "instant \<Rightarrow> db \<Rightarrow> conn" where
  "conn_at t d = \<lparr>committed = d, view = empty_db, session = fresh_session 0 0, clock = t,
     uuids = (\<lambda>n. of_int (1000 * t + int n)), drawn = 0, wire = Healthy\<rparr>"

lemma conn_at_simps [simp]:
  "committed (conn_at t d) = d" "wire (conn_at t d) = Healthy" "clock (conn_at t d) = t"
  by (simp_all add: conn_at_def)

definition demo_requests :: "request list" where
  "demo_requests =
    [Register (lit ''ann@x'') ''h1'' (lit ''Ann''),
     CreateOrganization 1000 (lit ''Org'') (lit ''org''),
     CreateInvite 1000 2000 (Some (''tok'', TokenHash ''ab'')) 100 2,
     AcceptInvite (TokenHash ''ab'') (lit ''bob@x'') ''h2'' (lit ''Bob''),
     CreateTeam 1000 2000 (lit ''Core''),
     AddTeamMember 1000 2000 5000 4000 TeamMember,
     CreateChannel 1000 2000 OrganizationScope (lit ''all''),
     CreateChannel 1000 2000 (TeamScope 5000) (lit ''core''),
     AddChannelMember 1000 2000 8000 4000,
     PostMessage 2000 7000 4000 (MessageId 77) (lit ''hi''),
     PostMessage 2000 7000 1000 (MessageId 78) (lit ''yo''),
     SignIn (lit ''BOB@x'') (\<lambda>h. Some (h = ''h2'')) (Some (''cookie'', TokenHash ''cd'')) 200]"

text \<open>The requests run one after another, each on a connection of its own, at instants 1, 2, 3, ...\<close>

fun run_all :: "instant \<Rightarrow> request list \<Rightarrow> db \<Rightarrow> db" where
  "run_all t [] d = d"
| "run_all t (r # rs) d = run_all (t + 1) rs (committed (run_request any_v7 r (conn_at t d)))"

lemma run_all_reachable: "reachable any_v7 d \<Longrightarrow> reachable any_v7 (run_all t rs d)"
proof (induction rs arbitrary: t d)
  case (Cons r rs)
  have "reachable any_v7 (committed (run_request any_v7 r (conn_at t d)))"
    by (rule reachable.request) (simp add: Cons.prems)
  then show ?case by (simp add: Cons.IH)
qed simp

definition demo :: db where
  "demo = \<lparr>actors =
    [\<lparr>a_id = 1000, a_type = ''human'', a_display_name = Some [65, 110, 110],
        a_deleted_at = None\<rparr>,
     \<lparr>a_id = 4000, a_type = ''human'', a_display_name = Some [66, 111, 98],
        a_deleted_at = None\<rparr>],
    users =
      [\<lparr>u_actor_id = 1000, u_actor_type = ''human'',
          u_email = [97, 110, 110, 64, 120], u_password_hash = ''h1''\<rparr>,
       \<lparr>u_actor_id = 4000, u_actor_type = ''human'',
          u_email = [98, 111, 98, 64, 120], u_password_hash = ''h2''\<rparr>],
    organizations =
      [\<lparr>o_id = 2000, o_name = [79, 114, 103], o_slug = [111, 114, 103]\<rparr>],
    organization_members =
      [\<lparr>om_org = 2000, om_actor = 1000, om_role = ''owner'',
          om_status = ''active'', om_display_name = None\<rparr>,
       \<lparr>om_org = 2000, om_actor = 4000, om_role = ''member'',
          om_status = ''active'', om_display_name = None\<rparr>],
    teams = [\<lparr>t_id = 5000, t_org = 2000, t_name = [67, 111, 114, 101]\<rparr>],
    team_members =
      [\<lparr>tm_team = 5000, tm_actor = 4000, tm_org = 2000,
          tm_role = ''member''\<rparr>],
    invites =
      [\<lparr>i_id = 3000, i_org = 2000, i_kind = ''organization'',
          i_target_team = None, i_token_hash = ''ab'', i_expires_at = 100,
          i_max_uses = 2, i_used_count = 1, i_revoked_at = None,
          i_created_by = 1000, i_xmin = 1\<rparr>],
    sessions =
      [\<lparr>s_id = 12000, s_actor = 4000, s_token_hash = ''cd'',
          s_expires_at = 200, s_revoked_at = None\<rparr>],
    channels =
      [\<lparr>ch_id = 7000, ch_org = 2000, ch_team = None,
          ch_scope = ''organization'', ch_name = [97, 108, 108],
          ch_next_seq = 2\<rparr>,
       \<lparr>ch_id = 8000, ch_org = 2000, ch_team = Some 5000,
          ch_scope = ''team'', ch_name = [99, 111, 114, 101],
          ch_next_seq = 0\<rparr>],
    channel_members =
      [\<lparr>cm_channel = 8000, cm_scope = ''team'', cm_org = 2000,
          cm_actor = 4000\<rparr>],
    messages =
      [\<lparr>m_id = 77, m_org = 2000, m_channel = 7000, m_seq = 1,
          m_sender = 4000, m_body = [104, 105], m_created_at = 10\<rparr>,
       \<lparr>m_id = 78, m_org = 2000, m_channel = 7000, m_seq = 2,
          m_sender = 1000, m_body = [121, 111], m_created_at = 11\<rparr>],
    audit_events =
      [\<lparr>ae_id = 2001, ae_org = 2000, ae_actor = 1000,
          ae_action = ''organization.created'',
          ae_target_type = ''organization'', ae_target_id = 2000,
          ae_metadata = []\<rparr>,
       \<lparr>ae_id = 2002, ae_org = 2000, ae_actor = 1000,
          ae_action = ''organization.member.added'',
          ae_target_type = ''actor'', ae_target_id = 1000,
          ae_metadata = [(''role'', MStr ''owner'')]\<rparr>,
       \<lparr>ae_id = 3001, ae_org = 2000, ae_actor = 1000,
          ae_action = ''invite.created'', ae_target_type = ''organization'',
          ae_target_id = 2000,
          ae_metadata =
            [(''invite_id'', MId 3000), (''kind'', MStr ''organization''),
             (''max_uses'', MInt 2)]\<rparr>,
       \<lparr>ae_id = 4001, ae_org = 2000, ae_actor = 4000,
          ae_action = ''organization.member.added'',
          ae_target_type = ''actor'', ae_target_id = 4000,
          ae_metadata =
            [(''role'', MStr ''member''), (''invite_id'', MId 3000)]\<rparr>,
       \<lparr>ae_id = 5001, ae_org = 2000, ae_actor = 1000,
          ae_action = ''team.created'', ae_target_type = ''team'',
          ae_target_id = 5000, ae_metadata = []\<rparr>,
       \<lparr>ae_id = 6000, ae_org = 2000, ae_actor = 1000,
          ae_action = ''team.member.added'', ae_target_type = ''actor'',
          ae_target_id = 4000,
          ae_metadata =
            [(''team_id'', MId 5000), (''role'', MStr ''member'')]\<rparr>,
       \<lparr>ae_id = 7001, ae_org = 2000, ae_actor = 1000,
          ae_action = ''channel.created'', ae_target_type = ''channel'',
          ae_target_id = 7000,
          ae_metadata = [(''scope'', MStr ''organization'')]\<rparr>,
       \<lparr>ae_id = 8001, ae_org = 2000, ae_actor = 1000,
          ae_action = ''channel.created'', ae_target_type = ''channel'',
          ae_target_id = 8000,
          ae_metadata =
            [(''scope'', MStr ''team''), (''team_id'', MId 5000)]\<rparr>,
       \<lparr>ae_id = 9000, ae_org = 2000, ae_actor = 1000,
          ae_action = ''channel.member.added'', ae_target_type = ''actor'',
          ae_target_id = 4000,
          ae_metadata = [(''channel_id'', MId 8000)]\<rparr>]\<rparr>"

lemma demo_run: "run_all 1 demo_requests empty_db = demo"
  by code_simp

lemma demo_reachable: "reachable any_v7 demo"
  unfolding demo_run [symmetric] by (intro run_all_reachable reachable.start)

text \<open>Bob leaves the service.\<close>

definition demo_left :: db where
  "demo_left = committed (run_request any_v7 (LeaveService 4000) (conn_at 13 demo))"

lemma demo_left_reachable: "reachable any_v7 demo_left"
  unfolding demo_left_def by (rule reachable.request) (simp add: demo_reachable)

end
