(* ===== verification/Tenancy.thy ===== *)
theory Tenancy
  imports Scenario
begin

text \<open>
  Isolation of organizations: an operation on one organization leaves the rows of every other as they were,
  and an actor that is not an active member of an organization is told that it does not exist.
\<close>

section \<open>The rows of one organization\<close>

record tenant =
  tn_organizations :: "organization_row list"
  tn_members :: "member_row list"
  tn_teams :: "team_row list"
  tn_team_members :: "team_member_row list"
  tn_invites :: "invite_row list"
  tn_channels :: "channel_row list"
  tn_channel_members :: "channel_member_row list"
  tn_messages :: "message_row list"
  tn_audit_events :: "audit_row list"

definition tenant_of :: "organization_id \<Rightarrow> db \<Rightarrow> tenant" where
  "tenant_of org d = \<lparr>
     tn_organizations = filter (\<lambda>r. o_id r = org) (organizations d),
     tn_members = filter (\<lambda>r. om_org r = org) (organization_members d),
     tn_teams = filter (\<lambda>r. t_org r = org) (teams d),
     tn_team_members = filter (\<lambda>r. tm_org r = org) (team_members d),
     tn_invites = filter (\<lambda>r. i_org r = org) (invites d),
     tn_channels = filter (\<lambda>r. ch_org r = org) (channels d),
     tn_channel_members = filter (\<lambda>r. cm_org r = org) (channel_members d),
     tn_messages = filter (\<lambda>r. m_org r = org) (messages d),
     tn_audit_events = filter (\<lambda>r. ae_org r = org) (audit_events d)\<rparr>"

text \<open>Only organization \<open>org\<close> may differ; people (actors, users, sessions) are not tenant rows.\<close>

definition only_touches :: "organization_id \<Rightarrow> db \<Rightarrow> db \<Rightarrow> bool" where
  "only_touches org d d' \<longleftrightarrow> (\<forall>other. other \<noteq> org \<longrightarrow> tenant_of other d' = tenant_of other d)"

interpretation tenant: step_relation "only_touches org" for org
  by unfold_locales (simp_all add: only_touches_def)

lemma filter_update_where:
  assumes "\<And>r. p r \<Longrightarrow> \<not> q r" "\<And>r. q (f r) = q r"
  shows "filter q (update_where p f rows) = filter q rows"
  by (induction rows) (use assms in auto)

lemma filter_deleted:
  assumes "\<And>r. q r \<Longrightarrow> p r"
  shows "filter (\<lambda>r. p r \<and> q r) rows = filter q rows"
  by (rule filter_cong) (use assms in auto)

lemma statements_stay_in_their_tenant:
  "set_member_role s org a ro d = Inr (u1, d') \<Longrightarrow> only_touches org d d'"
  "set_member_status s org a st d = Inr (u1, d') \<Longrightarrow> only_touches org d d'"
  "insert_team s i org n d = Inr (u1, d') \<Longrightarrow> only_touches org d d'"
  "insert_team_member s t a org tr d = Inr (u1, d') \<Longrightarrow> only_touches org d d'"
  "set_team_member_role s org t a tr d = Inr (u1, d') \<Longrightarrow> only_touches org d d'"
  "delete_team_member s org t a d = Inr (n2, d') \<Longrightarrow> only_touches org d d'"
  "insert_channel s i org tm sc n d = Inr (u1, d') \<Longrightarrow> only_touches org d d'"
  "bump_channel s ch org d = Inr (q, d') \<Longrightarrow> only_touches org d d'"
  "set_invite_revoked s org i d = Inr (u1, d') \<Longrightarrow> only_touches org d d'"
  by (auto simp: only_touches_def tenant_of_def set_member_role_def set_member_status_def update_member_def
      set_team_member_role_def insert_team_def insert_team_member_def delete_team_member_def insert_channel_def
      bump_channel_def set_invite_revoked_def rls_update_Inr checked_Inr Let_def
      intro!: filter_update_where filter_deleted split: sum.splits if_splits)

lemma inserts_stay_in_their_tenant:
  "insert_message s row d = Inr (r1, d') \<Longrightarrow> m_org row = org \<Longrightarrow> only_touches org d d'"
  "insert_audit s ar d = Inr (r2, d') \<Longrightarrow> ae_org ar = org \<Longrightarrow> only_touches org d d'"
  by (auto simp: only_touches_def tenant_of_def insert_message_def insert_audit_def checked_Inr
      split: sum.splits if_splits)

lemma selects_stay_in_their_tenant:
  "insert_channel_member s org ch a d = Inr (r1, d') \<Longrightarrow> only_touches org d d'"
  "insert_invite s i org th ex mu cr d = Inr (r2, d') \<Longrightarrow> only_touches org d d'"
  by (auto simp: only_touches_def tenant_of_def insert_channel_member_def insert_invite_def checked_Inr Let_def
      split: list.splits dest!: filter_eq_ConsD)

lemma tenant_statements [keeps_intros]:
  "moves (only_touches org) (execute (\<lambda>s. set_member_role s org a ro))"
  "moves (only_touches org) (execute (\<lambda>s. set_member_status s org a st))"
  "moves (only_touches org) (execute (\<lambda>s. insert_team s i org n))"
  "moves (only_touches org) (execute (\<lambda>s. insert_team_member s t a org tr))"
  "moves (only_touches org) (execute (\<lambda>s. set_team_member_role s org t a tr))"
  "moves (only_touches org) (execute (\<lambda>s. delete_team_member s org t a))"
  "moves (only_touches org) (execute (\<lambda>s. insert_channel s i org tm sc n))"
  "moves (only_touches org) (execute (\<lambda>s. bump_channel s ch org))"
  "moves (only_touches org) (execute (\<lambda>s. set_invite_revoked s org i))"
  "moves (only_touches org) (execute (\<lambda>s. insert_channel_member s org ch a))"
  "moves (only_touches org) (execute (\<lambda>s. insert_invite s i org th ex mu cr))"
  by (rule tenant.moves_execute, erule statements_stay_in_their_tenant selects_stay_in_their_tenant)+

lemma tenant_insert_message [keeps_intros]:
  "moves (only_touches org) (execute (\<lambda>s. insert_message s \<lparr>m_id = i, m_org = org, m_channel = ch,
     m_seq = q, m_sender = a, m_body = b, m_created_at = tx_now s\<rparr>))"
  by (rule tenant.moves_execute) (erule inserts_stay_in_their_tenant, simp)

lemma tenant_write_event [keeps_intros]: "moves (only_touches org) (write_event ev org a)"
  unfolding write_event_def
  by (intro keeps_intros tenant.moves_execute) (erule inserts_stay_in_their_tenant, simp add: audit_row_of_def)

lemma operations_stay_in_their_tenant:
  "only_touches org (committed c) (committed (snd (change_member_role p org a r c)))"
  "only_touches org (committed c) (committed (snd (suspend_member p org a c)))"
  "only_touches org (committed c) (committed (snd (reactivate_member p org a c)))"
  "only_touches org (committed c) (committed (snd (create_team p org n c)))"
  "only_touches org (committed c) (committed (snd (add_team_member p org t a tr c)))"
  "only_touches org (committed c) (committed (snd (change_team_member_role p org t a tr c)))"
  "only_touches org (committed c) (committed (snd (remove_team_member p org t a c)))"
  "only_touches org (committed c) (committed (snd (create_channel p org sc n c)))"
  "only_touches org (committed c) (committed (snd (add_channel_member p org ch a c)))"
  "only_touches org (committed c) (committed (snd (post_message api org ch p i b c)))"
  "only_touches org (committed c) (committed (snd (create_invite p org nt ex mu c)))"
  "only_touches org (committed c) (committed (snd (revoke_invite p org iv c)))"
  unfolding change_member_role_def suspend_member_def reactivate_member_def create_team_def
    add_team_member_def change_team_member_role_def remove_team_member_def create_channel_def
    add_channel_member_def post_message_def create_invite_def revoke_invite_def
  by (intro keeps_intros)+

text \<open>The organization a request names.\<close>

fun addressed :: "request \<Rightarrow> organization_id option" where
  "addressed (ChangeMemberRole p org a r) = Some org"
| "addressed (SuspendMember p org a) = Some org"
| "addressed (ReactivateMember p org a) = Some org"
| "addressed (CreateTeam p org n) = Some org"
| "addressed (AddTeamMember p org t a r) = Some org"
| "addressed (ChangeTeamMemberRole p org t a r) = Some org"
| "addressed (RemoveTeamMember p org t a) = Some org"
| "addressed (CreateChannel p org sc n) = Some org"
| "addressed (AddChannelMember p org ch a) = Some org"
| "addressed (PostMessage org ch a i b) = Some org"
| "addressed (CreateInvite p org t ex n) = Some org"
| "addressed (RevokeInvite p org i) = Some org"
| "addressed _ = None"

text \<open>C8: An operation that names an organization leaves every row of every other organization as it was,
  whether it succeeds, fails or loses its connection.\<close>

theorem requests_touch_only_their_tenant:
  assumes "addressed r = Some org" and "other \<noteq> org"
  shows "tenant_of other (committed (run_request api r c)) = tenant_of other (committed c)"
proof -
  have "only_touches org (committed c) (committed (run_request api r c))"
    using assms(1) by (cases r) (simp_all add: operations_stay_in_their_tenant)
  then show ?thesis using assms(2) by (simp add: only_touches_def)
qed

text \<open>Bob founds an organization of his own; a team created in Ann's leaves it alone.\<close>

definition demo_two :: db where
  "demo_two = committed (run_request any_v7 (CreateOrganization 4000 (lit ''Bobs'') (lit ''bobs'')) (conn_at 13 demo))"

theorem requests_touch_only_their_tenant_witness:
  "map om_actor (tn_members (tenant_of 13000
     (committed (run_request any_v7 (CreateTeam 1000 2000 (lit ''Ops'')) (conn_at 14 demo_two))))) = [4000]"
proof -
  have "tenant_of 13000 (committed (run_request any_v7 (CreateTeam 1000 2000 (lit ''Ops'')) (conn_at 14 demo_two)))
      = tenant_of 13000 demo_two"
    using requests_touch_only_their_tenant [of "CreateTeam 1000 2000 (lit ''Ops'')" 2000 13000] by simp
  moreover have "map om_actor (tn_members (tenant_of 13000 demo_two)) = [4000]" by code_simp
  ultimately show ?thesis by simp
qed

section \<open>Outsiders\<close>

definition active_member :: "db \<Rightarrow> organization_id \<Rightarrow> actor_id \<Rightarrow> bool" where
  "active_member d org a \<longleftrightarrow> list_ex (\<lambda>m. om_org m = org \<and> om_actor m = a \<and> om_status m = ''active'')
     (organization_members d)"

lemma in_active_session_for: "in_active (session_for (Actor a) c) d org \<longleftrightarrow> active_member d org a"
  by (auto simp: in_active_iff active_member_def list_ex_iff)

lemma no_channels_outside:
  "\<not> in_active s d org \<Longrightarrow> filter (\<lambda>x. sees_channel s d x \<and> ch_id x = ch \<and> ch_org x = org) (channels d) = []"
  by (auto simp: filter_empty_conv sees_channel_def)

lemma bump_outside:
  assumes "\<not> in_active s d org"
  shows "bump_channel s ch org d = Inr (None, d)"
proof -
  have "\<not> sees_channel s d r \<or> ch_org r \<noteq> org" for r
    using assms by (auto simp: sees_channel_def)
  then have none: "\<not> (ch_id r = ch \<and> ch_org r = org \<and> sees_channel s d r)"
    "\<not> (sees_channel s d r \<and> ch_id r = ch \<and> ch_org r = org)" for r
    by blast+
  show ?thesis
    by (auto simp: bump_channel_def rls_update_def Let_def list_ex_iff none update_where_none filter_empty_conv)
qed

text \<open>C9: To an actor that is not an active member, an organization does not exist: every operation on it,
  reading or writing, answers not found (the invite operations: not a member), whatever its other arguments.
  Only a post whose body has a length no message may have is refused for that, before anything is looked up.\<close>

theorem outsiders_learn_nothing:
  assumes "wire c = Healthy" and "\<not> active_member (committed c) org p"
  shows "fst (change_member_role p org a r c) = Inl change_member_role_error.NotFound
    \<and> fst (suspend_member p org a c) = Inl suspend_member_error.NotFound
    \<and> fst (reactivate_member p org a c) = Inl reactivate_member_error.NotFound
    \<and> fst (create_team p org n c) = Inl create_team_error.NotFound
    \<and> fst (add_team_member p org t a tr c) = Inl add_team_member_error.NotFound
    \<and> fst (change_team_member_role p org t a tr c) = Inl change_team_member_role_error.NotFound
    \<and> fst (remove_team_member p org t a c) = Inl remove_team_member_error.NotFound
    \<and> fst (create_channel p org sc n c) = Inl create_channel_error.NotFound
    \<and> fst (add_channel_member p org ch a c) = Inl add_channel_member_error.NotFound
    \<and> fst (post_message api org ch p i body c) = Inl (if 1 \<le> length body \<and> length body \<le> 4000
        then post_message_error.NotFound else post_message_error.InvalidBody)
    \<and> fst (messages_before api p org ch q l c) = Inl messages_before_error.NotFound
    \<and> fst (messages_after api p org ch q' l c) = Inl messages_after_error.NotFound
    \<and> fst (create_invite p org nt ex mu c) = Inl create_invite_error.NotAMember
    \<and> fst (revoke_invite p org iv c) = Inl revoke_invite_error.NotAMember"
proof -
  have out: "\<not> in_active (session_for (Actor p) c) (committed c) org"
    using assms(2) by (simp add: in_active_session_for)
  have nochannel: "\<not> (\<exists>x \<in> set (channels (committed c)). sees_channel (session_for (Actor p) c) (committed c) x
      \<and> ch_org x = org \<and> ch_id x = ch)" for ch
    using out by (auto simp: sees_channel_def)
  note ev = tx_simps assms(1) invisible_organization [OF out] nochannel
  show ?thesis
  proof (intro conjI)
    show "fst (post_message api org ch p i body c) = Inl (if 1 \<le> length body \<and> length body \<le> 4000
        then post_message_error.NotFound else post_message_error.InvalidBody)"
      by (simp add: post_message_def ev bump_outside [OF out])
  qed (simp_all add: change_member_role_def suspend_member_def reactivate_member_def create_team_def
      add_team_member_def change_team_member_role_def remove_team_member_def create_channel_def
      add_channel_member_def messages_before_def messages_after_def create_invite_def revoke_invite_def ev)
qed

theorem outsiders_learn_nothing_witness:
  "fst (create_team 4711 2000 (lit ''Ops'') (conn_at 13 demo)) = Inl create_team_error.NotFound
   \<and> fst (messages_after any_v7 4711 2000 7000 seq_beginning 50 (conn_at 13 demo)) = Inl messages_after_error.NotFound
   \<and> fst (post_message any_v7 2000 7000 4711 (MessageId 78) (lit ''hi'') (conn_at 13 demo)) = Inl post_message_error.NotFound
   \<and> fst (post_message any_v7 2000 7000 4711 (MessageId 78) [] (conn_at 13 demo)) = Inl post_message_error.InvalidBody"
proof -
  have out: "\<not> active_member (committed (conn_at 13 demo)) 2000 4711" by code_simp
  have body: "1 \<le> length (lit ''hi'') \<and> length (lit ''hi'') \<le> 4000" by code_simp
  note sent = outsiders_learn_nothing [OF conn_at_simps(2) out, where api = any_v7 and ch = 7000 and i = "MessageId 78"]
  have post: "fst (post_message any_v7 2000 7000 4711 (MessageId 78) b (conn_at 13 demo))
      = Inl (if 1 \<le> length b \<and> length b \<le> 4000 then post_message_error.NotFound else post_message_error.InvalidBody)" for b
    using sent [where body = b] by blast
  have "fst (post_message any_v7 2000 7000 4711 (MessageId 78) (lit ''hi'') (conn_at 13 demo)) = Inl post_message_error.NotFound"
    using post [of "lit ''hi''"] body by simp
  moreover have "fst (post_message any_v7 2000 7000 4711 (MessageId 78) [] (conn_at 13 demo)) = Inl post_message_error.InvalidBody"
    using post [of "[]"] by simp
  moreover have "fst (create_team 4711 2000 (lit ''Ops'') (conn_at 13 demo)) = Inl create_team_error.NotFound
      \<and> fst (messages_after any_v7 4711 2000 7000 seq_beginning 50 (conn_at 13 demo)) = Inl messages_after_error.NotFound"
    using sent by blast
  ultimately show ?thesis by blast
qed

end
