(* ===== verification/Posting.thy ===== *)
theory Posting
  imports Sequences Tenancy
begin

text \<open>
  The outcome of posting a message, for every state of its id, and the pages a channel is read in.
\<close>

section \<open>The two statements of a post\<close>

lemma filter_unique:
  assumes "distinct (map key rows)" "r \<in> set rows" "q r"
  shows "filter (\<lambda>x. key x = key r \<and> q x) rows = [r]"
proof -
  have "filter (\<lambda>x. key x = key r \<and> q x) rows = filter q (filter (\<lambda>x. key x = key r) rows)"
    by (simp only: filter_filter)
  then show ?thesis using assms by (simp add: filter_key_singleton)
qed

lemma bump_channel_eq:
  assumes sch: "schema_ok d" and act: "in_active s d (ch_org r)" and r: "r \<in> set (channels d)"
    and room: "ch_next_seq r < i64_max"
  shows "bump_channel s (ch_id r) (ch_org r) d
    = Inr (Some (ch_next_seq r + 1), d\<lparr>channels := bumped (ch_id r) (ch_org r) (channels d)\<rparr>)"
proof -
  have "distinct (map ch_id (channels d))" using sch by (simp add: schema_ok_def channels_ok_def uniq_def)
  from filter_unique [OF this r, of "\<lambda>x. ch_org x = ch_org r"]
  have one: "filter (\<lambda>c. ch_id c = ch_id r \<and> ch_org c = ch_org r) (channels d) = [r]" by simp
  have hit: "(\<lambda>c. sees_channel s d c \<and> ch_id c = ch_id r \<and> ch_org c = ch_org r)
      = (\<lambda>c. ch_id c = ch_id r \<and> ch_org c = ch_org r)"
    using act by (auto simp: sees_channel_def)
  have "\<not> list_ex (\<lambda>c. (ch_id c = ch_id r \<and> ch_org c = ch_org r) \<and> ch_next_seq c = i64_max) (channels d)"
    using room channel_row_unique [OF sch r] unfolding list_ex_iff by (metis order_less_irrefl)
  then show ?thesis
    using act unfolding bump_channel_def hit
    by (simp add: rls_update_def Let_def one sees_channel_def bumped_def no_trigger_def)
qed

lemma bumped_keys: "key_set ch_id (bumped ch org rows) = key_set ch_id rows"
  "key_set (\<lambda>c. (ch_id c, ch_org c)) (bumped ch org rows) = key_set (\<lambda>c. (ch_id c, ch_org c)) rows"
  unfolding bumped_def by (rule key_set_update_where; simp)+

text \<open>A new number is new: the numbers given out are those up to the counter.\<close>

lemma next_number_is_new:
  assumes "gapless d" "r \<in> set (channels d)"
  shows "(ch_id r, ch_next_seq r + 1) \<notin> key_set (\<lambda>m. (m_channel m, m_seq m)) (messages d)"
proof
  assume "(ch_id r, ch_next_seq r + 1) \<in> key_set (\<lambda>m. (m_channel m, m_seq m)) (messages d)"
  then have "ch_next_seq r + 1 \<in> set (numbers d (ch_id r))" by (auto simp: key_set_def numbers_def)
  with assms show False by (simp add: gapless_def)
qed

lemma insert_message_posted:
  assumes "schema_ok d" "gapless d" "in_active s d (ch_org r)" "r \<in> set (channels d)" "a \<in> key_set a_id (actors d)"
    and "bindable body" "1 \<le> length body" "length body \<le> 4000"
    and d1: "d1 = d\<lparr>channels := bumped (ch_id r) (ch_org r) (channels d)\<rparr>"
  shows "insert_message s (posted_row i (ch_org r) (ch_id r) (ch_next_seq r + 1) a body t) d1 =
    (if as_uuid i \<in> key_set m_id (messages d) then Inr (None, d1)
     else Inr (Some (posted_row i (ch_org r) (ch_id r) (ch_next_seq r + 1) a body t),
       d1\<lparr>messages := messages d @ [posted_row i (ch_org r) (ch_id r) (ch_next_seq r + 1) a body t]\<rparr>))"
proof -
  have act: "in_active s d1 (ch_org r)" using assms(3) by (simp add: d1 in_active_def active_organizations_def)
  have seq: "1 \<le> ch_next_seq r + 1" using channel_counter_nonneg [OF assms(1,4)] by simp
  have org: "ch_org r \<in> key_set o_id (organizations d)"
    using assms(1,4) by (simp add: schema_ok_def channels_ok_def channel_row_ok_def)
  have ch: "(ch_id r, ch_org r) \<in> key_set (\<lambda>c. (ch_id c, ch_org c)) (bumped (ch_id r) (ch_org r) (channels d))"
    using assms(4) unfolding bumped_keys by (auto simp: key_set_def)
  show ?thesis
    using act seq org ch next_number_is_new [OF assms(2,4)] assms(5-8)
    by (simp add: insert_message_def posted_row_def checked.simps sees_message_def d1)
qed

section \<open>The outcome of a post\<close>

definition stored_message :: "message_row \<Rightarrow> message" where
  "stored_message r = \<lparr>msg_id = MessageId (m_id r), msg_channel_id = m_channel r,
     msg_channel_seq = ChannelSeq (m_seq r), msg_sender_actor_id = m_sender r, msg_body = m_body r,
     msg_created_at = m_created_at r\<rparr>"

lemma try_from_stored:
  "from_client api (m_id r) = Inr j \<Longrightarrow> 1 \<le> m_seq r \<Longrightarrow> try_from api r = Inr (stored_message r)"
  by (auto simp: try_from_def stored_message_def channel_seq_new_def from_client_def split: if_splits)

lemma find_message_unique:
  assumes "schema_ok d" "find (\<lambda>m. m_id m = i) (messages d) = Some m"
  shows "stored_post (MessageId i) org ch a s d =
    (if sees_message s d m \<and> m_org m = org \<and> m_channel m = ch \<and> m_sender m = a then Some m else None)"
proof -
  from assms(2) have m: "m \<in> set (messages d)" "m_id m = i" by (auto simp: find_Some_iff)
  have "distinct (map m_id (messages d))" using assms(1) by (simp add: schema_ok_def messages_ok_def uniq_def)
  then have one: "filter (\<lambda>x. m_id x = i) (messages d) = [m]" using filter_key_singleton [of m_id _ m] m by simp
  have "filter (\<lambda>x. sees_message s d x \<and> m_id x = i \<and> m_org x = org \<and> m_channel x = ch \<and> m_sender x = a) (messages d)
      = filter (\<lambda>x. sees_message s d x \<and> m_org x = org \<and> m_channel x = ch \<and> m_sender x = a)
          (filter (\<lambda>x. m_id x = i) (messages d))"
    by (simp add: conj_ac)
  then show ?thesis unfolding one by (simp add: stored_post_def fetch_optional_def)
qed

lemma active_is_actor:
  "schema_ok d \<Longrightarrow> active_member d org a \<Longrightarrow> a \<in> key_set a_id (actors d)"
  by (auto simp: active_member_def schema_ok_def members_ok_def list_ex_iff)

lemma post_message_result:
  assumes "reachable api (committed c)" "wire c = Healthy" "r \<in> set (channels (committed c))"
    and "active_member (committed c) (ch_org r) a" "ch_next_seq r < i64_max"
    and "bindable body" "1 \<le> length body" "length body \<le> 4000" and v7: "from_client api i = Inr j"
  shows "fst (post_message api (ch_org r) (ch_id r) a (MessageId i) body c) =
      (case find (\<lambda>m. m_id m = i) (messages (committed c)) of
         None \<Rightarrow> Inr (Posted \<lparr>msg_id = MessageId i, msg_channel_id = ch_id r,
           msg_channel_seq = ChannelSeq (ch_next_seq r + 1), msg_sender_actor_id = a, msg_body = body,
           msg_created_at = clock c\<rparr>)
       | Some m \<Rightarrow> if m_org m = ch_org r \<and> m_channel m = ch_id r \<and> m_sender m = a
           then Inr (AlreadyPosted (stored_message m)) else Inl post_message_error.IdConflict)
    \<and> (find (\<lambda>m. m_id m = i) (messages (committed c)) \<noteq> None \<longrightarrow>
         committed (snd (post_message api (ch_org r) (ch_id r) a (MessageId i) body c)) = committed c)"
proof -
  let ?d = "committed c" and ?s = "session_for (Actor a) c"
  have sch: "schema_ok ?d" by (rule reachable_schema [OF assms(1)])
  have "gapless empty_db" by (simp add: gapless_def empty_db_def)
  then have gap: "gapless ?d" by (rule reachable_invariant [OF assms(1) _ gapless_kept])
  have act: "in_active ?s ?d (ch_org r)" using assms(4) by (simp add: in_active_session_for)
  have actor: "a \<in> key_set a_id (actors ?d)" by (rule active_is_actor [OF sch assms(4)])
  note bump = bump_channel_eq [OF sch act assms(3,5)]
  note ins = insert_message_posted [OF sch gap act assms(3) actor assms(6-8) refl, where i = "MessageId i", unfolded posted_row_def message_id.sel]
  note ev = post_message_def tx_simps set_transaction_read_only_def
  have seq: "1 \<le> ch_next_seq r + 1" using channel_counter_nonneg [OF sch assms(3)] by simp
  show ?thesis
  proof (cases "find (\<lambda>m. m_id m = i) (messages ?d)")
    case None
    then have "i \<notin> key_set m_id (messages ?d)" by (auto simp: find_None_iff key_set_def)
    then show ?thesis
      using assms(2,7,8) None v7 seq
      by (simp add: ev bump ins try_from_def channel_seq_new_def)
        (auto simp: from_client_def split: if_splits)
  next
    case (Some m)
    then have m: "m \<in> set (messages ?d)" "m_id m = i" by (auto simp: find_Some_iff)
    then have old: "i \<in> key_set m_id (messages ?d)" by (auto simp: key_set_def)
    have "1 \<le> m_seq m" using sch m(1) by (simp add: schema_ok_def messages_ok_def)
    with v7 m(2) have tf: "try_from api m = Inr (stored_message m)" by (intro try_from_stored) simp_all
    have sees: "in_active s ?d (ch_org r)" if "actor_setting s = Some a" for s
      using act that by (simp add: in_active_def active_organizations_def)
    show ?thesis
      using assms(2,7,8) Some
      by (simp add: ev bump ins old find_message_unique [OF sch Some] tf sees sees_message_def)
  qed
qed

text \<open>A post that is refused, and the numbers and texts the database does not take.\<close>

lemma post_refused:
  assumes "wire c = Healthy" "1 \<le> length body" "length body \<le> 4000"
    and "\<not> active_member (committed c) org a
      \<or> find (\<lambda>r. ch_id r = ch \<and> ch_org r = org) (channels (committed c)) = None"
  shows "fst (post_message api org ch a i body c) = Inl post_message_error.NotFound"
proof -
  let ?s = "session_for (Actor a) c" and ?d = "committed c"
  have "bump_channel ?s ch org ?d = Inr (None, ?d)"
    using assms(4)
  proof
    assume "\<not> active_member ?d org a"
    then show ?thesis by (intro bump_outside) (simp add: in_active_session_for)
  next
    assume "find (\<lambda>r. ch_id r = ch \<and> ch_org r = org) (channels ?d) = None"
    then have none: "\<not> (ch_id r = ch \<and> ch_org r = org)" if "r \<in> set (channels ?d)" for r
      using that by (auto simp: find_None_iff)
    then have hit: "filter (\<lambda>r. sees_channel ?s ?d r \<and> ch_id r = ch \<and> ch_org r = org) (channels ?d) = []"
      by (auto simp: filter_empty_conv)
    have "update_where (\<lambda>r. sees_channel ?s ?d r \<and> ch_id r = ch \<and> ch_org r = org) f (channels ?d) = channels ?d" for f
      using none by (intro update_where_none) blast
    then show ?thesis using none by (auto simp: bump_channel_def rls_update_def Let_def list_ex_iff hit)
  qed
  then show ?thesis using assms(1-3) by (simp add: post_message_def tx_simps)
qed

lemma post_out_of_range:
  assumes "wire c = Healthy" "1 \<le> length body" "length body \<le> 4000" "r \<in> set (channels (committed c))"
    and "active_member (committed c) (ch_org r) a" "ch_next_seq r = i64_max"
  shows "fst (post_message api (ch_org r) (ch_id r) a i body c) = Inl (post_message_error.Database NumericOutOfRange)"
proof -
  have "bump_channel (session_for (Actor a) c) (ch_id r) (ch_org r) (committed c) = Inl NumericOutOfRange"
    using assms(4-6) by (auto simp: bump_channel_def Let_def list_ex_iff sees_channel_def in_active_session_for)
  then show ?thesis using assms(1-3) by (simp add: post_message_def tx_simps)
qed

lemma post_unbindable:
  assumes "reachable api (committed c)" "wire c = Healthy" "1 \<le> length body" "length body \<le> 4000"
    and "r \<in> set (channels (committed c))" "active_member (committed c) (ch_org r) a" "ch_next_seq r < i64_max"
    and "\<not> bindable body"
  shows "fst (post_message api (ch_org r) (ch_id r) a i body c) = Inl (post_message_error.Database InvalidText)"
proof -
  have "in_active (session_for (Actor a) c) (committed c) (ch_org r)" using assms(6) by (simp add: in_active_session_for)
  note bump = bump_channel_eq [OF reachable_schema [OF assms(1)] this assms(5,7)]
  show ?thesis
    using assms(2-4,8) by (simp add: post_message_def tx_simps bump insert_message_def checked.simps)
qed

text \<open>A channel's counter never passes the largest number it can hold.\<close>

definition counters_fit :: "db \<Rightarrow> bool" where
  "counters_fit d \<longleftrightarrow> (\<forall>r \<in> set (channels d). ch_next_seq r \<le> i64_max)"

lemma counters_fit_kept: "kept_by_operations api counters_fit"
  unfolding kept_by_operations_def
proof (intro conjI allI)
  show "kept_on_success counters_fit (create_channel p org sc n)" for p org sc n
    by (rule kept_on_successI, drule (1) create_channel_run) (auto simp: counters_fit_def i64_max_def)
  show "kept_on_success counters_fit (post_message api org ch a i b)" for org ch a i b
  proof (rule kept_on_successI)
    fix c x c' assume h: "wire c = Healthy" and run: "post_message api org ch a i b c = (Inr x, c')"
      and inv: "counters_fit (committed c)"
    show "counters_fit (committed c')"
    proof (cases x)
      case (Posted m)
      note eff = post_message_Posted [OF h run [unfolded Posted]]
      then have act: "active_member (committed c) org a" by (simp add: in_active_session_for)
      have room: "ch_next_seq r < i64_max" if r: "r \<in> set (channels (committed c))" "ch_id r = ch" "ch_org r = org" for r
      proof (rule ccontr)
        assume "\<not> ch_next_seq r < i64_max"
        moreover have "ch_next_seq r \<le> i64_max" using inv r(1) by (simp add: counters_fit_def)
        ultimately have full: "ch_next_seq r = i64_max" by simp
        have "1 \<le> length b" "length b \<le> 4000" using run by (auto simp: post_message_def throw_def split: if_splits)
        from post_out_of_range [OF h this r(1) _ full, of a api i] act r(2,3) run show False by simp
      qed
      have "ch_next_seq x \<le> i64_max" if "x \<in> set (bumped ch org (channels (committed c)))" for x
        using that inv room unfolding bumped_def set_update_where counters_fit_def by fastforce
      with eff show ?thesis by (auto simp: counters_fit_def)
    next
      case (AlreadyPosted m)
      from post_message_AlreadyPosted [OF h run [unfolded AlreadyPosted]] inv show ?thesis by simp
    qed
  qed
qed (rule leaves_kept, rule channels_untouched, simp add: counters_fit_def)+

lemma reachable_counters_fit: "reachable api d \<Longrightarrow> counters_fit d"
  by (rule reachable_invariant [OF _ _ counters_fit_kept]) (simp_all add: counters_fit_def empty_db_def)

text \<open>The answer to any post, and what it writes.\<close>

definition post_answer ::
    "db \<Rightarrow> instant \<Rightarrow> organization_id \<Rightarrow> channel_id \<Rightarrow> actor_id \<Rightarrow> uuid \<Rightarrow> ustring
       \<Rightarrow> post_message_error + post_message_result" where
  "post_answer d now org ch a i body =
     (if \<not> (1 \<le> length body \<and> length body \<le> 4000) then Inl post_message_error.InvalidBody
      else (case find (\<lambda>r. ch_id r = ch \<and> ch_org r = org) (channels d) of
        None \<Rightarrow> Inl post_message_error.NotFound
      | Some r \<Rightarrow>
          if \<not> active_member d org a then Inl post_message_error.NotFound
          else if ch_next_seq r = i64_max then Inl (post_message_error.Database NumericOutOfRange)
          else if \<not> bindable body then Inl (post_message_error.Database InvalidText)
          else (case find (\<lambda>m. m_id m = i) (messages d) of
            None \<Rightarrow> Inr (Posted \<lparr>msg_id = MessageId i, msg_channel_id = ch,
              msg_channel_seq = ChannelSeq (ch_next_seq r + 1), msg_sender_actor_id = a, msg_body = body,
              msg_created_at = now\<rparr>)
          | Some m \<Rightarrow> if m_org m = org \<and> m_channel m = ch \<and> m_sender m = a
              then Inr (AlreadyPosted (stored_message m)) else Inl post_message_error.IdConflict)))"

lemma post_message_answer:
  assumes reach: "reachable api (committed c)" and h: "wire c = Healthy" and v7: "from_client api i = Inr j"
  shows "fst (post_message api org ch a (MessageId i) body c) = post_answer (committed c) (clock c) org ch a i body"
proof (cases "1 \<le> length body \<and> length body \<le> 4000")
  case False
  then show ?thesis by (auto simp: post_message_def post_answer_def throw_def)
next
  case True
  then have len: "1 \<le> length body" "length body \<le> 4000" by blast+
  show ?thesis
  proof (cases "find (\<lambda>r. ch_id r = ch \<and> ch_org r = org) (channels (committed c))")
    case None
    with post_refused [OF h len] len show ?thesis by (simp add: post_answer_def)
  next
    case (Some r)
    then have r: "r \<in> set (channels (committed c))" "ch_id r = ch" "ch_org r = org" by (auto simp: find_Some_iff)
    show ?thesis
    proof (cases "active_member (committed c) org a")
      case False
      with post_refused [OF h len] len Some show ?thesis by (simp add: post_answer_def)
    next
      case act: True
      then have act': "active_member (committed c) (ch_org r) a" by (simp add: r)
      have "ch_next_seq r \<le> i64_max" using reachable_counters_fit [OF reach] r(1) by (simp add: counters_fit_def)
      then consider "ch_next_seq r = i64_max" | "ch_next_seq r < i64_max" "\<not> bindable body"
        | "ch_next_seq r < i64_max" "bindable body" by linarith
      then show ?thesis
      proof cases
        case 1
        with post_out_of_range [OF h len r(1) act' 1, of api "MessageId i"] len Some act r show ?thesis
          by (simp add: post_answer_def)
      next
        case 2
        with post_unbindable [OF reach h len r(1) act', of "MessageId i"] len Some act r show ?thesis
          by (simp add: post_answer_def)
      next
        case 3
        from post_message_result [OF reach h r(1) act' 3 len v7, unfolded r(2,3), THEN conjunct1] 3 len Some act
        show ?thesis by (simp add: post_answer_def)
      qed
    qed
  qed
qed

lemma post_message_writes:
  assumes h: "wire c = Healthy"
  shows "committed (snd (post_message api org ch a i body c)) =
    (case fst (post_message api org ch a i body c) of
       Inr (Posted m) \<Rightarrow> (committed c)\<lparr>channels := bumped ch org (channels (committed c)),
         messages := messages (committed c) @ [posted_row i org ch (seq_get (msg_channel_seq m)) a body (clock c)]\<rparr>
     | _ \<Rightarrow> committed c)"
proof (cases "post_message api org ch a i body c")
  case (Pair x c')
  show ?thesis
  proof (cases x)
    case (Inl e)
    with Pair request_contract [of api "PostMessage org ch a i body" c] h show ?thesis by simp
  next
    case (Inr y)
    show ?thesis
    proof (cases y)
      case (Posted m)
      from post_message_Posted [OF h Pair [unfolded Inr Posted]] obtain r :: channel_row where
        tf: "try_from api (posted_row i org ch (ch_next_seq r + 1) a body (clock c)) = Inr m"
        and c': "committed c' = (committed c)\<lparr>channels := bumped ch org (channels (committed c)),
          messages := messages (committed c) @ [posted_row i org ch (ch_next_seq r + 1) a body (clock c)]\<rparr>" by blast
      from tf have "seq_get (msg_channel_seq m) = ch_next_seq r + 1"
        by (auto simp: try_from_def posted_row_def channel_seq_new_def split: sum.splits if_splits)
      with c' Pair Inr Posted show ?thesis by simp
    next
      case (AlreadyPosted m)
      from post_message_AlreadyPosted [OF h Pair [unfolded Inr AlreadyPosted]] Pair Inr AlreadyPosted
      show ?thesis by simp
    qed
  qed
qed

text \<open>C23: Every answer to a post on a healthy connection in a reachable database, for any organization, channel,
  sender and text, in the order of the code: an invalid body; not found, when the channel is not the
  organization's or the sender no active member of it; the database's error when the counter is exhausted or the text
  cannot be stored; the new message, numbered next, when its id is unused; the message stored before, whatever
  the body now is, when the same sender posted that id to this channel; a conflict when the id is
  anyone else's. Only the new message is written, with its number; everything else leaves the database as it was.\<close>

theorem posting_outcome:
  assumes "reachable api (committed c)" "wire c = Healthy" "from_client api i = Inr j"
  shows "fst (post_message api org ch a (MessageId i) body c) =
    (if \<not> (1 \<le> length body \<and> length body \<le> 4000) then Inl post_message_error.InvalidBody
     else (case find (\<lambda>r. ch_id r = ch \<and> ch_org r = org) (channels (committed c)) of
       None \<Rightarrow> Inl post_message_error.NotFound
     | Some r \<Rightarrow>
         if \<not> active_member (committed c) org a then Inl post_message_error.NotFound
         else if ch_next_seq r = i64_max then Inl (post_message_error.Database NumericOutOfRange)
         else if \<not> bindable body then Inl (post_message_error.Database InvalidText)
         else (case find (\<lambda>m. m_id m = i) (messages (committed c)) of
           None \<Rightarrow> Inr (Posted \<lparr>msg_id = MessageId i, msg_channel_id = ch,
             msg_channel_seq = ChannelSeq (ch_next_seq r + 1), msg_sender_actor_id = a, msg_body = body,
             msg_created_at = clock c\<rparr>)
         | Some m \<Rightarrow> if m_org m = org \<and> m_channel m = ch \<and> m_sender m = a
             then Inr (AlreadyPosted (stored_message m)) else Inl post_message_error.IdConflict)))
    \<and> committed (snd (post_message api org ch a (MessageId i) body c)) =
    (case fst (post_message api org ch a (MessageId i) body c) of
       Inr (Posted m) \<Rightarrow> (committed c)\<lparr>channels := bumped ch org (channels (committed c)),
         messages := messages (committed c)
           @ [posted_row (MessageId i) org ch (seq_get (msg_channel_seq m)) a body (clock c)]\<rparr>
     | _ \<Rightarrow> committed c)"
  using post_message_answer [OF assms, unfolded post_answer_def] post_message_writes [OF assms(2)] by (rule conjI)

theorem posting_outcome_witness:
  "fst (post_message any_v7 2000 7000 4000 (MessageId 77) (lit ''again'') (conn_at 13 demo))
     = Inr (AlreadyPosted (stored_message (messages demo ! 0)))
   \<and> fst (post_message any_v7 2000 7000 1000 (MessageId 77) (lit ''mine'') (conn_at 13 demo)) = Inl post_message_error.IdConflict
   \<and> fst (post_message any_v7 2000 7000 1000 (MessageId 99) [0] (conn_at 13 demo))
       = Inl (post_message_error.Database InvalidText)
   \<and> fst (post_message any_v7 2000 7001 1000 (MessageId 99) (lit ''mine'') (conn_at 13 demo)) = Inl post_message_error.NotFound
   \<and> fst (post_message any_v7 2000 7000 1000 (MessageId 99) [] (conn_at 13 demo)) = Inl post_message_error.InvalidBody"
proof -
  have reach: "reachable any_v7 (committed (conn_at 13 demo))" by (simp add: demo_reachable)
  have v7: "from_client any_v7 77 = Inr (MessageId 77)" "from_client any_v7 99 = Inr (MessageId 99)" by code_simp+
  have texts: "bindable (lit ''again'')" "length (lit ''again'') = 5" "bindable (lit ''mine'')" "length (lit ''mine'') = 4"
    "\<not> bindable [0]" by code_simp+
  have members: "active_member demo 2000 4000" "active_member demo 2000 1000"
    by (simp_all add: demo_def active_member_def)
  have channel: "find (\<lambda>r. ch_id r = 7000 \<and> ch_org r = 2000) (channels demo) = Some (channels demo ! 0)"
    "find (\<lambda>r. ch_id r = 7001 \<and> ch_org r = 2000) (channels demo) = None" "ch_next_seq (channels demo ! 0) \<noteq> i64_max"
    by (simp_all add: demo_def i64_max_def)
  have message: "find (\<lambda>m. m_id m = 77) (messages demo) = Some (messages demo ! 0)"
    "m_org (messages demo ! 0) = 2000" "m_channel (messages demo ! 0) = 7000" "m_sender (messages demo ! 0) = 4000"
    by (simp_all add: demo_def)
  note law = posting_outcome [OF reach conn_at_simps(2)]
  show ?thesis
    using law [OF v7(1), of 2000 7000 4000 "lit ''again''", THEN conjunct1]
      law [OF v7(1), of 2000 7000 1000 "lit ''mine''", THEN conjunct1]
      law [OF v7(2), of 2000 7000 1000 "[0]", THEN conjunct1]
      law [OF v7(2), of 2000 7001 1000 "lit ''mine''", THEN conjunct1]
      law [OF v7(2), of 2000 7000 1000 "[]", THEN conjunct1] texts members channel message
    by simp
qed

section \<open>Retrying a post\<close>

lemma bumped_member: "r \<in> set rows \<Longrightarrow> r\<lparr>ch_next_seq := ch_next_seq r + 1\<rparr> \<in> set (bumped (ch_id r) (ch_org r) rows)"
  by (force simp: bumped_def update_where_def)

lemma first_post:
  assumes "reachable api (committed c)" "wire c = Healthy" "r \<in> set (channels (committed c))"
    and "active_member (committed c) (ch_org r) a" "ch_next_seq r < i64_max"
    and "bindable body" "1 \<le> length body" "length body \<le> 4000" "from_client api i = Inr j"
    and fresh: "i \<notin> key_set m_id (messages (committed c))"
  defines "m \<equiv> posted_row (MessageId i) (ch_org r) (ch_id r) (ch_next_seq r + 1) a body (clock c)"
  shows "fst (post_message api (ch_org r) (ch_id r) a (MessageId i) body c) = Inr (Posted (stored_message m))
    \<and> committed (snd (post_message api (ch_org r) (ch_id r) a (MessageId i) body c)) = (committed c)
        \<lparr>channels := bumped (ch_id r) (ch_org r) (channels (committed c)), messages := messages (committed c) @ [m]\<rparr>"
proof -
  let ?op = "post_message api (ch_org r) (ch_id r) a (MessageId i) body"
  have "find (\<lambda>m. m_id m = i) (messages (committed c)) = None"
    using fresh by (auto simp: find_None_iff key_set_def)
  with post_message_result [OF assms(1-9)]
  have ok: "fst (?op c) = Inr (Posted (stored_message m))"
    by (simp add: m_def stored_message_def posted_row_def)
  then obtain c' where run: "?op c = (Inr (Posted (stored_message m)), c')" by (metis prod.collapse)
  have sch: "schema_ok (committed c)" by (rule reachable_schema [OF assms(1)])
  from post_message_Posted [OF assms(2) run] obtain r' where r': "r' \<in> set (channels (committed c))" "ch_id r' = ch_id r"
    and c': "committed c' = (committed c)\<lparr>channels := bumped (ch_id r) (ch_org r) (channels (committed c)),
        messages := messages (committed c) @ [posted_row (MessageId i) (ch_org r) (ch_id r) (ch_next_seq r' + 1) a body (clock c)]\<rparr>"
    by blast
  have "r' = r" using channel_row_unique [OF sch assms(3) r'(1)] r'(2) by simp
  with c' have "committed c' = (committed c)
        \<lparr>channels := bumped (ch_id r) (ch_org r) (channels (committed c)), messages := messages (committed c) @ [m]\<rparr>"
    by (simp add: m_def)
  with run ok show ?thesis by simp
qed

lemma find_appended: "(\<And>x. x \<in> set xs \<Longrightarrow> \<not> p x) \<Longrightarrow> find p (xs @ ys) = find p ys"
  by (induction xs) auto

text \<open>C24: A client that posts, loses the connection at any point (also while the commit is being acknowledged), and
  posts the same message again on a connection that works, gets its message back, and the message is stored
  exactly once, with the text it sent, as the next of the channel.\<close>

theorem retried_posts_are_stored_once:
  assumes "reachable api (committed c)" "r \<in> set (channels (committed c))"
    and "active_member (committed c) (ch_org r) a" "ch_next_seq r + 1 < i64_max"
    and body: "bindable body" "1 \<le> length body" "length body \<le> 4000" and v7: "from_client api i = Inr j"
    and fresh: "i \<notin> key_set m_id (messages (committed c))"
    and again: "committed c2 = committed (snd (post_message api (ch_org r) (ch_id r) a (MessageId i) body c))"
      "wire c2 = Healthy"
  shows "\<exists>m. messages (committed (snd (post_message api (ch_org r) (ch_id r) a (MessageId i) body c2)))
        = messages (committed c) @ [m]
    \<and> fst (post_message api (ch_org r) (ch_id r) a (MessageId i) body c2)
        \<in> {Inr (Posted (stored_message m)), Inr (AlreadyPosted (stored_message m))}
    \<and> m_id m = i \<and> m_channel m = ch_id r \<and> m_sender m = a \<and> m_body m = body \<and> m_seq m = ch_next_seq r + 1"
proof -
  let ?op = "post_message api (ch_org r) (ch_id r) a (MessageId i) body"
  let ?m = "posted_row (MessageId i) (ch_org r) (ch_id r) (ch_next_seq r + 1) a body"
  have row: "m_id (?m t) = i" "m_org (?m t) = ch_org r" "m_channel (?m t) = ch_id r" "m_sender (?m t) = a"
    "m_body (?m t) = body" "m_seq (?m t) = ch_next_seq r + 1" for t
    by (simp_all add: posted_row_def)
  have room: "ch_next_seq r < i64_max" using assms(4) by simp
  consider "committed c2 = committed c" | "committed c2 = committed (snd (?op (heal c)))"
    using post_message.all_or_nothing again(1) by metis
  then show ?thesis
  proof cases
    case 1
    from assms 1 have "reachable api (committed c2)" "r \<in> set (channels (committed c2))"
      "active_member (committed c2) (ch_org r) a" "i \<notin> key_set m_id (messages (committed c2))" by simp_all
    from first_post [OF this(1) again(2) this(2,3) room body v7 this(4)] 1 row show ?thesis
      by (intro exI [of _ "?m (clock c2)"]) simp
  next
    case 2
    have "reachable api (committed (heal c))" using assms(1) by simp
    then have first: "committed c2 = (committed c)\<lparr>channels := bumped (ch_id r) (ch_org r) (channels (committed c)),
        messages := messages (committed c) @ [?m (clock c)]\<rparr>"
      using first_post [of api "heal c" r a body i j] assms 2 room by simp
    let ?r = "r\<lparr>ch_next_seq := ch_next_seq r + 1\<rparr>"
    have "reachable api (committed c2)"
      using reachable.request [of api "heal c" "PostMessage (ch_org r) (ch_id r) a (MessageId i) body"] assms(1) 2 by simp
    moreover have "?r \<in> set (channels (committed c2))" using assms(2) by (simp add: first bumped_member)
    moreover have "active_member (committed c2) (ch_org ?r) a" "ch_next_seq ?r < i64_max"
      using assms(3,4) by (simp_all add: first active_member_def)
    moreover have "find (\<lambda>m. m_id m = i) (messages (committed c2)) = Some (?m (clock c))"
      using fresh row find_appended [of "messages (committed c)" "\<lambda>m. m_id m = i" "[?m (clock c)]"]
      by (force simp: first key_set_def)
    ultimately show ?thesis
      using post_message_result [of api c2 ?r a body i j] again(2) body v7 row
      by (intro exI [of _ "?m (clock c)"]) (simp add: first)
  qed
qed

theorem retried_posts_are_stored_once_witness:
  "\<exists>m. messages (committed (snd (post_message any_v7 2000 7000 4000 (MessageId 99) (lit ''hey'')
      (conn_at 14 (committed (snd (post_message any_v7 2000 7000 4000 (MessageId 99) (lit ''hey'')
        ((conn_at 13 demo)\<lparr>wire := DropsAfter 4 True\<rparr>)))))))) = messages demo @ [m] \<and> m_body m = lit ''hey''"
proof -
  let ?r = "channels demo ! 0" and ?c = "(conn_at 13 demo)\<lparr>wire := DropsAfter 4 True\<rparr>"
  let ?c2 = "conn_at 14 (committed (snd (post_message any_v7 2000 7000 4000 (MessageId 99) (lit ''hey'') ?c)))"
  have r: "?r \<in> set (channels (committed ?c))" "ch_org ?r = 2000" "ch_id ?r = 7000" "ch_next_seq ?r + 1 < i64_max"
    by (simp_all add: demo_def i64_max_def)
  have reach: "reachable any_v7 (committed ?c)" by (simp add: demo_reachable)
  have a: "active_member (committed ?c) (ch_org ?r) 4000" by (simp add: demo_def active_member_def)
  have body: "bindable (lit ''hey'')" "1 \<le> length (lit ''hey'')" "length (lit ''hey'') \<le> 4000" by code_simp+
  have v7: "from_client any_v7 99 = Inr (MessageId 99)" by code_simp
  have fresh: "99 \<notin> key_set m_id (messages (committed ?c))" by (simp add: demo_def key_set_def)
  have again: "committed ?c2 = committed (snd (post_message any_v7 (ch_org ?r) (ch_id ?r) 4000 (MessageId 99) (lit ''hey'') ?c))"
    by (simp add: r)
  from retried_posts_are_stored_once [OF reach r(1) a r(4) body v7 fresh again conn_at_simps(2)] r
  show ?thesis by auto
qed

section \<open>Pages\<close>

lemma sort_key_sorted: "sorted (map f xs) \<Longrightarrow> sort_key f xs = xs"
  by (rule properties_for_sort_key) simp_all

lemma channel_messages_sorted:
  assumes "gapless d" "r \<in> set (channels d)"
  shows "sorted (map m_seq (filter (\<lambda>m. m_channel m = ch_id r) (messages d)))"
  using assms by (simp add: gapless_def numbers_def)

lemma filtered_sorted: "sorted (map f xs) \<Longrightarrow> sorted (map f (filter p xs))"
  by (rule sorted_filter)

lemma message_organization:
  assumes "schema_ok d" "r \<in> set (channels d)" "m \<in> set (messages d)" "m_channel m = ch_id r"
  shows "m_org m = ch_org r"
proof -
  from assms(1,3) obtain x where "x \<in> set (channels d)" "ch_id x = m_channel m" "ch_org x = m_org m"
    by (auto simp: schema_ok_def messages_ok_def key_set_def)
  with channel_row_unique [OF assms(1)] assms show ?thesis by metis
qed

lemma page_rows:
  assumes "schema_ok d" "gapless d" "r \<in> set (channels d)" "in_active s d (ch_org r)"
  shows "sort_key m_seq (filter (\<lambda>m. sees_message s d m \<and> m_org m = ch_org r \<and> m_channel m = ch_id r \<and> p m) (messages d))
    = filter (\<lambda>m. m_channel m = ch_id r \<and> p m) (messages d)"
proof -
  have "filter (\<lambda>m. sees_message s d m \<and> m_org m = ch_org r \<and> m_channel m = ch_id r \<and> p m) (messages d)
      = filter (\<lambda>m. m_channel m = ch_id r \<and> p m) (messages d)"
    by (rule filter_cong) (use message_organization [OF assms(1,3)] assms(4) in \<open>auto simp: sees_message_def\<close>)
  moreover have "filter (\<lambda>m. m_channel m = ch_id r \<and> p m) (messages d)
      = filter p (filter (\<lambda>m. m_channel m = ch_id r) (messages d))"
    by (simp only: filter_filter)
  ultimately show ?thesis
    by (simp only: sort_key_sorted [OF filtered_sorted [OF channel_messages_sorted [OF assms(2,3)]]])
qed

lemma collect_stored:
  assumes "known_ids api d" "schema_ok d" "set rows \<subseteq> set (messages d)"
  shows "collect_results (map (try_from api) rows) = Inr (map stored_message rows)"
  using assms(3)
proof (induction rows)
  case (Cons m rows)
  then have "m \<in> set (messages d)" by simp
  with assms(1,2) have "try_from api m = Inr (stored_message m)"
    unfolding known_ids_def schema_ok_def messages_ok_def by (meson try_from_stored)
  with Cons show ?case by simp
qed simp

text \<open>C25: In every reachable database an active member reads, of a channel: after a number, the first messages
  numbered above it, in order; before one, or from the end, the last ones below it, newest first; at least one
  and at most 200, as many as asked for in between, and every one of them as it was posted.\<close>

theorem pages_are_exact:
  assumes "reachable api (committed c)" "wire c = Healthy" "r \<in> set (channels (committed c))"
    and "active_member (committed c) (ch_org r) a"
  shows "fst (messages_after api a (ch_org r) (ch_id r) q limit c) = Inr (map stored_message
      (take (clamp_limit limit) (filter (\<lambda>m. m_channel m = ch_id r \<and> seq_get q < m_seq m) (messages (committed c)))))
    \<and> fst (messages_before api a (ch_org r) (ch_id r) (Some q) limit c) = Inr (map stored_message
      (take (clamp_limit limit) (rev (filter (\<lambda>m. m_channel m = ch_id r \<and> m_seq m < seq_get q) (messages (committed c))))))
    \<and> fst (messages_before api a (ch_org r) (ch_id r) None limit c) = Inr (map stored_message
      (take (clamp_limit limit) (rev (filter (\<lambda>m. m_channel m = ch_id r) (messages (committed c))))))
    \<and> 1 \<le> clamp_limit limit \<and> clamp_limit limit \<le> 200
    \<and> (1 \<le> unat limit \<and> unat limit \<le> 200 \<longrightarrow> clamp_limit limit = unat limit)"
proof -
  let ?d = "committed c" and ?s = "session_for (Actor a) c"
  have sch: "schema_ok ?d" by (rule reachable_schema [OF assms(1)])
  have act: "in_active ?s ?d (ch_org r)" using assms(4) by (simp add: in_active_session_for)
  note rows = page_rows [OF sch reachable_gapless [OF assms(1)] assms(3) act]
  note all = rows [of "\<lambda>m. True", simplified]
  note collect = collect_stored [OF reachable_known_ids [OF assms(1)] sch]
  have found: "\<exists>x \<in> set (channels ?d). sees_channel ?s ?d x \<and> ch_org x = ch_org r \<and> ch_id x = ch_id r"
    using assms(3) act by (auto simp: sees_channel_def)
  have sub: "set (take n (filter p (messages ?d))) \<subseteq> set (messages ?d)"
    "set (take n (rev (filter p (messages ?d)))) \<subseteq> set (messages ?d)" for n p
    by (auto dest: in_set_takeD)
  note ev = tx_simps assms(2) found Let_def page_after_def page_before_def rows all collect [OF sub(1)] collect [OF sub(2)]
  show ?thesis
  proof (intro conjI)
    show "fst (messages_after api a (ch_org r) (ch_id r) q limit c) = Inr (map stored_message
      (take (clamp_limit limit) (filter (\<lambda>m. m_channel m = ch_id r \<and> seq_get q < m_seq m) (messages ?d))))"
      by (simp add: messages_after_def ev)
    show "fst (messages_before api a (ch_org r) (ch_id r) (Some q) limit c) = Inr (map stored_message
      (take (clamp_limit limit) (rev (filter (\<lambda>m. m_channel m = ch_id r \<and> m_seq m < seq_get q) (messages ?d)))))"
      by (simp add: messages_before_def ev)
    show "fst (messages_before api a (ch_org r) (ch_id r) None limit c) = Inr (map stored_message
      (take (clamp_limit limit) (rev (filter (\<lambda>m. m_channel m = ch_id r) (messages ?d)))))"
      by (simp add: messages_before_def ev)
  qed (simp_all add: clamp_limit_def)
qed

theorem pages_are_exact_witness:
  "fst (messages_after any_v7 1000 2000 7000 (ChannelSeq 1) 50 (conn_at 13 demo))
     = Inr [stored_message (messages demo ! 1)]
   \<and> fst (messages_before any_v7 1000 2000 7000 None 1 (conn_at 13 demo)) = Inr [stored_message (messages demo ! 1)]"
proof -
  let ?r = "channels demo ! 0"
  have r: "?r \<in> set (channels (committed (conn_at 13 demo)))" "ch_org ?r = 2000" "ch_id ?r = 7000"
    by (simp_all add: demo_def)
  have reach: "reachable any_v7 (committed (conn_at 13 demo))" by (simp add: demo_reachable)
  have act: "active_member (committed (conn_at 13 demo)) (ch_org ?r) 1000"
    by (simp add: demo_def active_member_def)
  have "filter (\<lambda>m. m_channel m = 7000 \<and> 1 < m_seq m) (messages demo) = [messages demo ! 1]"
    "rev (filter (\<lambda>m. m_channel m = 7000) (messages demo)) = [messages demo ! 1, messages demo ! 0]"
    by (simp_all add: demo_def)
  moreover have "clamp_limit 50 = 50" "clamp_limit 1 = 1" by code_simp+
  ultimately show ?thesis
    using pages_are_exact [OF reach conn_at_simps(2) r(1) act, of "ChannelSeq 1" 50]
      pages_are_exact [OF reach conn_at_simps(2) r(1) act, of "ChannelSeq 1" 1] r(2,3)
    by simp
qed

end
