(* ===== verification/Paths.thy ===== *)
theory Paths
  imports Prelude
begin

text \<open>
  Path segments of \<open>crates/app/src/invites.rs\<close>: percent decoding, UTF-8 validation and the one accepted
  spelling of an identifier. A status code is its number. \<open>Uuid::parse_str\<close> of the crate \<open>uuid\<close> is a
  parameter.
\<close>

type_synonym status_code = nat

definition NOT_FOUND :: status_code where "NOT_FOUND = 404"

section \<open>UTF-8 validation\<close>

text \<open>
  \<open>std::str::from_utf8\<close>: read one scalar value by its lead byte, and accept the bytes only when they are its
  encoding. This refuses overlong forms, surrogates and values above U+10FFFF.
\<close>

definition scalar_value :: "nat \<Rightarrow> bool" where
  "scalar_value c \<longleftrightarrow> c < 1114112 \<and> \<not> (55296 \<le> c \<and> c \<le> 57343)"

text \<open>For evaluation: a comparison of integers is binary, one of natural numbers unary.\<close>

lemma scalar_value_code [code]:
  "scalar_value c \<longleftrightarrow> int c < 1114112 \<and> \<not> (55296 \<le> int c \<and> int c \<le> 57343)"
  by (simp add: scalar_value_def)

definition lead_width :: "nat \<Rightarrow> nat" where
  "lead_width b = (if b < 128 then 1 else if b < 224 then 2 else if b < 240 then 3 else 4)"

definition lead_bits :: "nat \<Rightarrow> nat" where
  "lead_bits b = (if b < 128 then b else if b < 224 then b mod 32 else if b < 240 then b mod 16 else b mod 8)"

definition candidate :: "byte list \<Rightarrow> nat" where
  "candidate bs = (case map unat bs of [] \<Rightarrow> 0 | b # rest \<Rightarrow>
     foldl (\<lambda>acc x. acc * 64 + x mod 64) (lead_bits b) (take (lead_width b - 1) rest))"

function from_utf8 :: "byte list \<Rightarrow> ustring option" where
  "from_utf8 [] = Some []"
| "from_utf8 (b # bs) =
     (let n = lead_width (unat b); c = candidate (b # bs)
      in if scalar_value c \<and> take n (b # bs) = utf8_char c
         then map_option (Cons c) (from_utf8 (drop n (b # bs))) else None)"
  by pat_completeness auto
termination by (relation "measure length") (auto simp: lead_width_def)

lemma utf8_bytes_Cons: "utf8_bytes (c # t) = utf8_char c @ utf8_bytes t"
  by (simp add: utf8_bytes_def)

lemma utf8_bytes_Nil [simp]: "utf8_bytes [] = []"
  by (simp add: utf8_bytes_def)

lemma unat_byte: "n < 256 \<Longrightarrow> unat (of_nat n :: byte) = n"
  by (simp add: unat_of_nat)

lemma utf8_char_not_Nil: "utf8_char c \<noteq> []"
  by (simp add: utf8_char_def)

lemma sextets: "c div 4096 = c div 64 div 64" "c div 262144 = c div 64 div 64 div 64" for c :: nat
  by (simp_all flip: div_mult2_eq)

lemma sextet_mod: "(128 + x mod 64) mod 64 = x mod 64" for x :: nat
  using mod_mult_self3 [of 2 64 "x mod 64"] by simp

lemma lead_mod:
  "x < 32 \<Longrightarrow> (192 + x) mod 32 = x" "x < 16 \<Longrightarrow> (224 + x) mod 16 = x" "x < 8 \<Longrightarrow> (240 + x) mod 8 = x"
  for x :: nat
  using mod_mult_self3 [of 6 32 x] mod_mult_self3 [of 14 16 x] mod_mult_self3 [of 30 8 x] by simp_all

lemmas utf8_simps = utf8_char_def candidate_def unat_byte lead_width_def lead_bits_def sextet_mod lead_mod

lemma candidate_utf8_char:
  assumes "c < 1114112"
  shows "candidate (utf8_char c @ rest) = c"
    and "lead_width (unat (hd (utf8_char c))) = length (utf8_char c)"
proof -
  consider "c < 128" | "128 \<le> c" "c < 2048" | "2048 \<le> c" "c < 65536" | "65536 \<le> c" "c < 1114112"
    using assms by linarith
  then have "candidate (utf8_char c @ rest) = c \<and> lead_width (unat (hd (utf8_char c))) = length (utf8_char c)"
  proof cases
    case 1
    then show ?thesis by (simp add: utf8_simps)
  next
    case 2
    then have "c div 64 < 32" by (simp add: div_less_iff_less_mult)
    with 2 show ?thesis by (simp add: utf8_simps del: of_nat_add of_nat_mod)
  next
    case 3
    then have "c div 64 div 64 < 16" by (simp add: div_less_iff_less_mult)
    with 3 show ?thesis by (simp add: utf8_simps sextets del: of_nat_add of_nat_mod)
  next
    case 4
    then have "c div 64 div 64 div 64 < 8" by (simp add: div_less_iff_less_mult)
    with 4 show ?thesis by (simp add: utf8_simps sextets del: of_nat_add of_nat_mod)
  qed
  then show "candidate (utf8_char c @ rest) = c"
    and "lead_width (unat (hd (utf8_char c))) = length (utf8_char c)" by blast+
qed

lemma from_utf8_Some: "from_utf8 bs = Some t \<Longrightarrow> list_all scalar_value t \<and> utf8_bytes t = bs"
proof (induction bs arbitrary: t rule: from_utf8.induct)
  case (2 b bs)
  then show ?case
    by (auto simp: utf8_bytes_Cons Let_def simp del: take_Cons' split: if_splits)
      (metis append_take_drop_id)
qed simp

lemma from_utf8_utf8: "list_all scalar_value t \<Longrightarrow> from_utf8 (utf8_bytes t) = Some t"
proof (induction t)
  case (Cons c t)
  then have c: "scalar_value c" "c < 1114112" by (simp_all add: scalar_value_def)
  obtain b bs where b: "utf8_char c = b # bs" using utf8_char_not_Nil by (cases "utf8_char c") blast+
  have w: "lead_width (unat b) = length (b # bs)" using candidate_utf8_char(2) [OF c(2)] b by simp
  have k: "candidate (b # bs @ utf8_bytes t) = c" using candidate_utf8_char(1) [OF c(2)] b by simp
  show ?case using Cons c by (simp add: utf8_bytes_Cons b w k Let_def)
qed simp

lemma from_utf8_iff: "from_utf8 bs = Some t \<longleftrightarrow> list_all scalar_value t \<and> utf8_bytes t = bs"
  using from_utf8_Some from_utf8_utf8 by blast

section \<open>Percent decoding\<close>

text \<open>\<open>(b as char).to_digit(16)\<close>\<close>

definition to_digit_16 :: "byte \<Rightarrow> nat option" where
  "to_digit_16 b =
     (let n = unat b
      in if 48 \<le> n \<and> n \<le> 57 then Some (n - 48)
         else if 97 \<le> n \<and> n \<le> 102 then Some (n - 87)
         else if 65 \<le> n \<and> n \<le> 70 then Some (n - 55) else None)"

text \<open>The loop: \<open>decoded\<close> is the vector it fills, left when it passes 36 bytes.\<close>

fun decode_loop :: "byte list \<Rightarrow> byte list \<Rightarrow> status_code + byte list" where
  "decode_loop [] decoded = Inr decoded"
| "decode_loop (b # bytes) decoded =
     (if b = 37 then
        (case bytes of
           [] \<Rightarrow> Inl NOT_FOUND
         | h # bytes \<Rightarrow>
             (case to_digit_16 h of
                None \<Rightarrow> Inl NOT_FOUND
              | Some high \<Rightarrow>
                  (case bytes of
                     [] \<Rightarrow> Inl NOT_FOUND
                   | l # bytes \<Rightarrow>
                       (case to_digit_16 l of
                          None \<Rightarrow> Inl NOT_FOUND
                        | Some low \<Rightarrow>
                            (let decoded = decoded @ [of_nat (high * 16 + low)]
                             in if length decoded > 36 then Inl NOT_FOUND
                                else decode_loop bytes decoded)))))
      else
        (let decoded = decoded @ [b]
         in if length decoded > 36 then Inl NOT_FOUND else decode_loop bytes decoded))"

fun split_at_char :: "nat \<Rightarrow> ustring \<Rightarrow> ustring list" where
  "split_at_char x [] = [[]]"
| "split_at_char x (c # cs) =
     (if c = x then [] # split_at_char x cs
      else (case split_at_char x cs of [] \<Rightarrow> [[c]] | p # ps \<Rightarrow> (c # p) # ps))"

text \<open>\<open>value.as_bytes()[i]\<close> is evaluated only when there are 36 bytes.\<close>

definition identifier_of :: "(ustring \<Rightarrow> uuid option) \<Rightarrow> ustring \<Rightarrow> status_code + uuid" where
  "identifier_of parse_str value =
     (if length (utf8_bytes value) \<noteq> 36 \<or> \<not> list_all (\<lambda>i. utf8_bytes value ! i = 45) [8, 13, 18, 23]
      then Inl NOT_FOUND
      else (case parse_str value of None \<Rightarrow> Inl NOT_FOUND | Some u \<Rightarrow> Inr u))"

definition path_identifier :: "(ustring \<Rightarrow> uuid option) \<Rightarrow> ustring \<Rightarrow> nat \<Rightarrow> status_code + uuid" where
  "path_identifier parse_str path segment =
     (let segments = split_at_char 47 path
      in if segment \<ge> length segments then Inl NOT_FOUND
         else (case decode_loop (utf8_bytes (segments ! segment)) [] of
                 Inl status \<Rightarrow> Inl status
               | Inr decoded \<Rightarrow>
                   (case from_utf8 decoded of
                      None \<Rightarrow> Inl NOT_FOUND
                    | Some value \<Rightarrow> identifier_of parse_str value)))"

text \<open>
  The spellings of a byte string in a path segment: a byte stands for itself, unless it is the percent sign,
  or is written as two hexadecimal digits of either case.
\<close>

inductive spells :: "byte list \<Rightarrow> byte list \<Rightarrow> bool" where
  spells_Nil: "spells [] []"
| spells_plain: "spells raw bs \<Longrightarrow> b \<noteq> 37 \<Longrightarrow> spells (b # raw) (b # bs)"
| spells_hex: "spells raw bs \<Longrightarrow> to_digit_16 h = Some x \<Longrightarrow> to_digit_16 l = Some y \<Longrightarrow>
    spells (37 # h # l # raw) (of_nat (x * 16 + y) # bs)"

inductive_cases spells_NilE: "spells [] bs"
inductive_cases spells_ConsE: "spells (b # raw) bs"

lemma decode_spelled:
  "spells raw bs \<Longrightarrow> decode_loop raw decoded =
     (if bs \<noteq> [] \<and> length decoded + length bs > 36 then Inl NOT_FOUND else Inr (decoded @ bs))"
  by (induction arbitrary: decoded rule: spells.induct) (auto simp: Let_def)

lemma decode_loop_Inr: "decode_loop raw decoded = Inr out \<Longrightarrow> \<exists>bs. spells raw bs \<and> out = decoded @ bs"
proof (induction raw decoded rule: decode_loop.induct)
  case (1 decoded)
  then show ?case by (auto intro: spells_Nil)
next
  case (2 b bytes decoded)
  show ?case
  proof (cases "b = 37")
    case False
    with 2(3) have len: "\<not> 36 < length (decoded @ [b])" and d: "decode_loop bytes (decoded @ [b]) = Inr out"
      by (auto simp: Let_def split: if_splits)
    from 2(2) [OF False refl len d] obtain bs where "spells bytes bs" "out = decoded @ b # bs" by auto
    with False show ?thesis by (blast intro: spells_plain)
  next
    case True
    with 2(3) obtain h l rest x y where bytes: "bytes = h # l # rest"
      and hex: "to_digit_16 h = Some x" "to_digit_16 l = Some y"
      and len: "\<not> 36 < length (decoded @ [of_nat (x * 16 + y)])"
      and d: "decode_loop rest (decoded @ [of_nat (x * 16 + y)]) = Inr out"
      by (simp add: Let_def split: if_splits list.splits option.splits)
    from 2(1) [OF True bytes hex(1) refl hex(2) refl len d]
    obtain bs where "spells rest bs" "out = decoded @ of_nat (x * 16 + y) # bs" by auto
    with True bytes hex show ?thesis by (blast intro: spells_hex)
  qed
qed

lemma decode_loop_Inl: "decode_loop raw decoded = Inl s \<Longrightarrow> s = NOT_FOUND"
proof (induction "length raw" arbitrary: raw decoded rule: less_induct)
  case less
  show ?case
  proof (cases raw)
    case Nil
    with less.prems show ?thesis by simp
  next
    case (Cons b bytes)
    have rest: "decode_loop rest d = Inl s \<Longrightarrow> s = NOT_FOUND" if "length rest \<le> length bytes" for rest d
      using less.hyps [of rest d] that Cons by simp
    show ?thesis
      using less.prems unfolding Cons
      by (simp add: Let_def split: if_splits list.splits option.splits) (erule rest [rotated], simp)+
  qed
qed

lemma decode_iff:
  "decode_loop raw [] = Inr bs \<longleftrightarrow> spells raw bs \<and> length bs \<le> 36"
proof
  assume d: "decode_loop raw [] = Inr bs"
  with decode_loop_Inr obtain bs' where "spells raw bs'" "bs = bs'" by fastforce
  with d decode_spelled [of raw bs "[]"] show "spells raw bs \<and> length bs \<le> 36" by (auto split: if_splits)
qed (use decode_spelled [of raw bs "[]"] in auto)

lemma identifier_of_Inr:
  "identifier_of parse value = Inr u \<longleftrightarrow> utf8_len value = 36 \<and> (\<forall>i \<in> {8, 13, 18, 23}. utf8_bytes value ! i = 45)
     \<and> parse value = Some u"
  by (auto simp: identifier_of_def length_utf8_bytes split: option.splits)

lemma path_identifier_Inl: "path_identifier parse path n = Inl s \<Longrightarrow> s = NOT_FOUND"
  by (auto simp: path_identifier_def identifier_of_def Let_def dest: decode_loop_Inl
      split: if_splits sum.splits option.splits)

text \<open>C36: A path segment names an identifier exactly when it spells, with percent escapes of either case or
  none, a text of 36 bytes of valid UTF-8 with hyphens at 8, 13, 18 and 23 that the UUID parser reads; any other
  path is answered 404, whatever is wrong with it.\<close>

theorem path_identifiers_exact:
  "(path_identifier parse target n = Inr u \<longleftrightarrow> n < length (split_at_char 47 target)
      \<and> (\<exists>value. spells (utf8_bytes (split_at_char 47 target ! n)) (utf8_bytes value) \<and> list_all scalar_value value
          \<and> utf8_len value = 36 \<and> list_all (\<lambda>i. utf8_bytes value ! i = 45) [8, 13, 18, 23] \<and> parse value = Some u))
   \<and> ((\<exists>u. path_identifier parse target n = Inr u) \<or> path_identifier parse target n = Inl 404)"
proof -
  have sound: "path_identifier parse target n = Inr u \<longleftrightarrow> n < length (split_at_char 47 target)
      \<and> (\<exists>bs value. decode_loop (utf8_bytes (split_at_char 47 target ! n)) [] = Inr bs \<and> from_utf8 bs = Some value
         \<and> identifier_of parse value = Inr u)"
    by (auto simp: path_identifier_def Let_def split: sum.splits option.splits)
  have "path_identifier parse target n = Inl s \<Longrightarrow> s = 404" for s
    using path_identifier_Inl by (auto simp: NOT_FOUND_def)
  then have "(\<exists>u. path_identifier parse target n = Inr u) \<or> path_identifier parse target n = Inl 404"
    by (cases "path_identifier parse target n") auto
  then show ?thesis
    unfolding sound decode_iff from_utf8_iff identifier_of_Inr
    by (auto simp: length_utf8_bytes)
qed

end
