(* ===== verification/Json.thy ===== *)
theory Json
  imports Paths
begin

text \<open>
  Request bodies of \<open>crates/app/src/invites.rs\<close>: an object, its integer and text fields, and the field rules of
  an invite acceptance. \<open>serde_json::from_slice\<close> is the parameter \<open>from_slice\<close>; \<open>json\<close> is its \<open>Value\<close>, with
  an integer number as an integer.
\<close>

datatype json =
    JNull
  | JBool bool
  | JInt int
  | JFloat
  | JString ustring
  | JArray "json list"
  | JObject "(ustring \<times> json) list"

type_synonym fields = "(ustring \<times> json) list"

definition UNPROCESSABLE_ENTITY :: status_code where "UNPROCESSABLE_ENTITY = 422"

text \<open>\<open>Value::as_i64\<close>: the number if it is an integer that fits 64 bits.\<close>

fun as_i64 :: "json \<Rightarrow> int option" where
  "as_i64 (JInt n) = (if - (2 ^ 63) \<le> n \<and> n < 2 ^ 63 then Some n else None)"
| "as_i64 _ = None"

fun as_str :: "json \<Rightarrow> ustring option" where
  "as_str (JString t) = Some t"
| "as_str _ = None"

text \<open>The body is \<open>Inl\<close> when the extractor rejected it (too long, broken off).\<close>

definition object :: "(byte list \<Rightarrow> json option) \<Rightarrow> 'r + byte list \<Rightarrow> status_code + fields" where
  "object from_slice body =
     (case body of
        Inl _ \<Rightarrow> Inl UNPROCESSABLE_ENTITY
      | Inr body \<Rightarrow>
          (case from_slice body of
             Some (JObject fields) \<Rightarrow> Inr fields
           | _ \<Rightarrow> Inl UNPROCESSABLE_ENTITY))"

definition ok_or :: "'a option \<Rightarrow> 'e \<Rightarrow> 'e + 'a" where
  "ok_or x e = (case x of None \<Rightarrow> Inl e | Some a \<Rightarrow> Inr a)"

definition option_filter :: "('a \<Rightarrow> bool) \<Rightarrow> 'a option \<Rightarrow> 'a option" where
  "option_filter p x = (case x of None \<Rightarrow> None | Some a \<Rightarrow> if p a then Some a else None)"

definition integer :: "fields \<Rightarrow> ustring \<Rightarrow> int \<Rightarrow> int \<Rightarrow> status_code + int" where
  "integer fields key lo hi =
     ok_or (option_filter (\<lambda>value. lo \<le> value \<and> value \<le> hi) (Option.bind (map_of fields key) as_i64))
       UNPROCESSABLE_ENTITY"

definition string_field :: "fields \<Rightarrow> ustring \<Rightarrow> status_code + ustring" where
  "string_field fields key = ok_or (Option.bind (map_of fields key) as_str) UNPROCESSABLE_ENTITY"

definition acceptance_fields :: "fields \<Rightarrow> status_code + (ustring \<times> ustring \<times> ustring)" where
  "acceptance_fields fields =
     (case string_field fields (lit ''email'') of
        Inl s \<Rightarrow> Inl s
      | Inr email \<Rightarrow>
     (case string_field fields (lit ''password'') of
        Inl s \<Rightarrow> Inl s
      | Inr password \<Rightarrow>
     (case string_field fields (lit ''display_name'') of
        Inl s \<Rightarrow> Inl s
      | Inr name \<Rightarrow>
          (let display_name = trim name
           in if \<not> (3 \<le> utf8_len email \<and> utf8_len email \<le> 254)
                \<or> length (filter (\<lambda>c. c = 64) email) \<noteq> 1
                \<or> list_ex (\<lambda>c. is_whitespace c \<or> c = 0) email
                \<or> length password < 8
                \<or> utf8_len password > 1024
                \<or> \<not> (1 \<le> length display_name \<and> length display_name \<le> 80)
                \<or> 0 \<in> set display_name
              then Inl UNPROCESSABLE_ENTITY
              else Inr (email, password, display_name)))))"

lemma ok_or_simps [simp]:
  "ok_or x e = Inr a \<longleftrightarrow> x = Some a" "ok_or x e = Inl e' \<longleftrightarrow> x = None \<and> e' = e"
  by (auto simp: ok_or_def split: option.splits)

lemma option_filter_Some [simp]: "option_filter p x = Some a \<longleftrightarrow> x = Some a \<and> p a"
  by (auto simp: option_filter_def split: option.splits)

lemma as_i64_Some: "as_i64 j = Some n \<longleftrightarrow> j = JInt n \<and> - (2 ^ 63) \<le> n \<and> n < 2 ^ 63"
  by (cases j) auto

lemma as_str_Some: "as_str j = Some t \<longleftrightarrow> j = JString t"
  by (cases j) auto

lemma object_Inr:
  "object from_slice body = Inr fields \<longleftrightarrow> (\<exists>b. body = Inr b \<and> from_slice b = Some (JObject fields))"
  by (auto simp: object_def split: sum.splits option.splits json.splits)

lemma object_Inl: "object from_slice body = Inl s \<Longrightarrow> s = UNPROCESSABLE_ENTITY"
  by (auto simp: object_def split: sum.splits option.splits json.splits)

lemma integer_Inr:
  "integer fields key lo hi = Inr n \<longleftrightarrow>
     map_of fields key = Some (JInt n) \<and> lo \<le> n \<and> n \<le> hi \<and> - (2 ^ 63) \<le> n \<and> n < 2 ^ 63"
  by (auto simp: integer_def bind_eq_Some_conv as_i64_Some)

lemma string_field_Inr: "string_field fields key = Inr t \<longleftrightarrow> map_of fields key = Some (JString t)"
  by (auto simp: string_field_def bind_eq_Some_conv as_str_Some)

lemma field_errors:
  "integer fields key lo hi = Inl s \<Longrightarrow> s = UNPROCESSABLE_ENTITY"
  "string_field fields key = Inl s \<Longrightarrow> s = UNPROCESSABLE_ENTITY"
  by (simp_all add: integer_def string_field_def)

text \<open>What a password, an address and a name must be.\<close>

definition acceptable_person :: "ustring \<Rightarrow> ustring \<Rightarrow> ustring \<Rightarrow> bool" where
  "acceptable_person email password display_name \<longleftrightarrow>
     3 \<le> utf8_len email \<and> utf8_len email \<le> 254 \<and> count_list email 64 = 1
     \<and> (\<forall>c \<in> set email. \<not> is_whitespace c) \<and> bindable email
     \<and> 8 \<le> length password \<and> utf8_len password \<le> 1024
     \<and> 1 \<le> length display_name \<and> length display_name \<le> 80 \<and> bindable display_name"

lemma count_list_filter: "length (filter (\<lambda>c. c = x) xs) = count_list xs x"
  by (induction xs) auto

lemma refused_iff:
  "(\<not> (3 \<le> utf8_len email \<and> utf8_len email \<le> 254)
      \<or> length (filter (\<lambda>c. c = 64) email) \<noteq> 1
      \<or> list_ex (\<lambda>c. is_whitespace c \<or> c = 0) email
      \<or> length password < 8
      \<or> utf8_len password > 1024
      \<or> \<not> (1 \<le> length display_name \<and> length display_name \<le> 80)
      \<or> 0 \<in> set display_name) \<longleftrightarrow> \<not> acceptable_person email password display_name"
  by (auto simp: acceptable_person_def bindable_def list_ex_iff count_list_filter)

lemma case_Inr: "(case x of Inl e \<Rightarrow> Inl e | Inr a \<Rightarrow> k a) = Inr b \<longleftrightarrow> (\<exists>a. x = Inr a \<and> k a = Inr b)"
  by (auto split: sum.split)

lemma acceptance_fields_Inr:
  "acceptance_fields fields = Inr (email, password, display_name) \<longleftrightarrow>
     map_of fields (lit ''email'') = Some (JString email)
     \<and> map_of fields (lit ''password'') = Some (JString password)
     \<and> (\<exists>name. map_of fields (lit ''display_name'') = Some (JString name) \<and> display_name = trim name)
     \<and> acceptable_person email password display_name"
  unfolding acceptance_fields_def case_Inr string_field_Inr Let_def refused_iff
  by (auto split: if_splits)

lemma acceptance_fields_Inl: "acceptance_fields fields = Inl s \<Longrightarrow> s = UNPROCESSABLE_ENTITY"
  by (auto simp: acceptance_fields_def Let_def dest: field_errors split: sum.splits if_splits)

lemma trim_ends: "trim t \<noteq> [] \<Longrightarrow> \<not> is_whitespace (hd (trim t)) \<and> \<not> is_whitespace (last (trim t))"
proof -
  let ?d = "dropWhile is_whitespace (rev (dropWhile is_whitespace t))"
  assume ne: "trim t \<noteq> []"
  then have d: "?d \<noteq> []" by (simp add: trim_def)
  have last: "last (trim t) = hd ?d" using d by (simp add: trim_def last_rev)
  obtain ws where "rev (dropWhile is_whitespace t) = ws @ ?d" by (metis takeWhile_dropWhile_id)
  then have split: "dropWhile is_whitespace t = rev ?d @ rev ws" by (metis rev_append rev_rev_ident)
  have "hd (trim t) = hd (dropWhile is_whitespace t)" using d unfolding trim_def by (subst (2) split) simp
  moreover have "dropWhile is_whitespace t \<noteq> []" using d by (metis dropWhile.simps(1) rev.simps(1))
  ultimately show ?thesis using hd_dropWhile [of is_whitespace t] hd_dropWhile [OF d] last by simp
qed


text \<open>C37: The fields of an acceptance pass exactly when email, password and name are texts that meet the stated
  rules, the name after trimming; what passes can be stored (no U+0000), the name neither begins nor ends with
  white space, and everything else is answered 422.\<close>

theorem acceptance_fields_exact:
  "(acceptance_fields fields = Inr (email, password, name) \<longleftrightarrow>
      map_of fields (lit ''email'') = Some (JString email) \<and> map_of fields (lit ''password'') = Some (JString password)
      \<and> (\<exists>raw. map_of fields (lit ''display_name'') = Some (JString raw) \<and> name = trim raw)
      \<and> acceptable_person email password name)
   \<and> (acceptance_fields fields = Inr (email, password, name) \<longrightarrow>
      bindable email \<and> bindable name \<and> \<not> is_whitespace (hd name) \<and> \<not> is_whitespace (last name))
   \<and> ((\<exists>person. acceptance_fields fields = Inr person) \<or> acceptance_fields fields = Inl 422)"
proof -
  have "acceptance_fields fields = Inl s \<Longrightarrow> s = 422" for s
    using acceptance_fields_Inl by (auto simp: UNPROCESSABLE_ENTITY_def)
  then have "(\<exists>person. acceptance_fields fields = Inr person) \<or> acceptance_fields fields = Inl 422"
    by (cases "acceptance_fields fields") auto
  moreover have "acceptable_person email password (trim raw) \<Longrightarrow> trim raw \<noteq> []" for raw
    by (auto simp: acceptable_person_def)
  ultimately show ?thesis
    unfolding acceptance_fields_Inr using trim_ends by (auto simp: acceptable_person_def)
qed

theorem acceptance_fields_exact_witness:
  "bindable (lit ''a b'') \<and> acceptance_fields [(lit ''email'', JString (lit ''a@x''))] = Inl 422"
proof -
  let ?fields = "[(lit ''email'', JString (lit ''a@x'')), (lit ''password'', JString (lit ''password'')),
    (lit ''display_name'', JString (lit '' a b ''))]"
  have "acceptance_fields ?fields = Inr (lit ''a@x'', lit ''password'', lit ''a b'')"
    by (simp add: acceptance_fields_def string_field_def ok_or_def lit_def trim_def is_whitespace_def utf8_len_def
        utf8_width_def)
  from acceptance_fields_exact [of ?fields "lit ''a@x''" "lit ''password''" "lit ''a b''", THEN conjunct2,
      THEN conjunct1, THEN mp, OF this] have "bindable (lit ''a b'')" by blast
  moreover have "\<not> (\<exists>p. acceptance_fields [(lit ''email'', JString (lit ''a@x''))] = Inr p)"
    by (simp add: acceptance_fields_def string_field_def ok_or_def lit_def)
  with acceptance_fields_exact [of "[(lit ''email'', JString (lit ''a@x''))]"]
  have "acceptance_fields [(lit ''email'', JString (lit ''a@x''))] = Inl 422" by metis
  ultimately show ?thesis by (rule conjI)
qed

end
