(* ===== verification/Http.thy ===== *)
theory Http
  imports Json Sessions Invites
begin

text \<open>
  \<open>crates/app/src/http.rs\<close> and \<open>route_registry.rs\<close>: requests and responses, the guard around every route, the
  table of routes. Header names are lower case, as the crate \<open>http\<close> keeps them; a response carries its cookies
  as records, which the crate \<open>cookie\<close> renders.
\<close>

section \<open>Requests and responses\<close>

datatype http_method = GET | POST | PUT | PATCH | DELETE | HEAD | OPTIONS | CONNECT | TRACE | Extension string

type_synonym headers = "(string \<times> byte list) list"

record http_request =
  rq_method :: http_method
  rq_path :: ustring
  rq_headers :: headers
  rq_body :: "unit + byte list"

datatype same_site = Strict | Lax | SameSiteNone

record cookie =
  ck_name :: string
  ck_value :: ustring
  ck_http_only :: bool
  ck_secure :: bool
  ck_same_site :: same_site
  ck_path :: string
  ck_max_age :: int

datatype body = NoBody | TextBody ustring | JsonBody json

record response =
  rs_status :: status_code
  rs_content_type :: "string option"
  rs_cookies :: "cookie list"
  rs_body :: body

text \<open>\<open>StatusCode::into_response\<close>: the status and nothing else.\<close>

definition status_response :: "status_code \<Rightarrow> response" where
  "status_response status = \<lparr>rs_status = status, rs_content_type = None, rs_cookies = [], rs_body = NoBody\<rparr>"

definition FORBIDDEN :: status_code where "FORBIDDEN = 403"
definition UNAUTHORIZED :: status_code where "UNAUTHORIZED = 401"
definition METHOD_NOT_ALLOWED :: status_code where "METHOD_NOT_ALLOWED = 405"
definition CONFLICT :: status_code where "CONFLICT = 409"
definition INTERNAL_SERVER_ERROR :: status_code where "INTERNAL_SERVER_ERROR = 500"
definition OK :: status_code where "OK = 200"
definition CREATED :: status_code where "CREATED = 201"
definition NO_CONTENT :: status_code where "NO_CONTENT = 204"

lemmas status_defs = FORBIDDEN_def UNAUTHORIZED_def METHOD_NOT_ALLOWED_def CONFLICT_def
  INTERNAL_SERVER_ERROR_def OK_def CREATED_def NO_CONTENT_def NOT_FOUND_def UNPROCESSABLE_ENTITY_def

definition is_client_error :: "status_code \<Rightarrow> bool" where
  "is_client_error s \<longleftrightarrow> 400 \<le> s \<and> s < 500"

definition is_server_error :: "status_code \<Rightarrow> bool" where
  "is_server_error s \<longleftrightarrow> 500 \<le> s \<and> s < 600"

section \<open>The guard\<close>

definition header_get :: "headers \<Rightarrow> string \<Rightarrow> byte list option" where
  "header_get headers name = map_of headers name"

definition header_get_all :: "headers \<Rightarrow> string \<Rightarrow> byte list list" where
  "header_get_all headers name = map snd (filter (\<lambda>h. fst h = name) headers)"

definition to_ascii_lowercase :: "byte \<Rightarrow> byte" where
  "to_ascii_lowercase b = (if 65 \<le> unat b \<and> unat b \<le> 90 then b + 32 else b)"

definition eq_ignore_ascii_case :: "byte list \<Rightarrow> byte list \<Rightarrow> bool" where
  "eq_ignore_ascii_case xs ys \<longleftrightarrow> map to_ascii_lowercase xs = map to_ascii_lowercase ys"

text \<open>\<open>next\<close> is the inner service with the state it acts on.\<close>

definition protect ::
    "ustring \<Rightarrow> http_request \<Rightarrow> (http_request \<Rightarrow> 's \<Rightarrow> response \<times> 's) \<Rightarrow> 's \<Rightarrow> response \<times> 's" where
  "protect origin request run_next s =
     (let changes_state = (rq_method request \<in> {POST, PUT, PATCH, DELETE});
          websocket = (case header_get (rq_headers request) ''upgrade'' of
              None \<Rightarrow> False
            | Some value \<Rightarrow> eq_ignore_ascii_case value (utf8_bytes (lit ''websocket'')))
      in if (changes_state \<or> websocket)
            \<and> (case header_get_all (rq_headers request) ''origin'' of
                 [] \<Rightarrow> True
               | first # others \<Rightarrow> first \<noteq> utf8_bytes origin \<or> others \<noteq> [])
         then (status_response FORBIDDEN, s)
         else
           (case run_next request s of (response, s') \<Rightarrow>
              (if is_client_error (rs_status response) \<or> is_server_error (rs_status response)
               then status_response (rs_status response) else response, s')))"

definition health :: response where
  "health = \<lparr>rs_status = OK, rs_content_type = Some ''application/json'', rs_cookies = [],
     rs_body = TextBody (lit (''{'' @ [CHR 0x22] @ ''status'' @ [CHR 0x22] @ '':'' @ [CHR 0x22] @ ''ok''
       @ [CHR 0x22] @ ''}''))\<rparr>"

section \<open>The registry\<close>

datatype handler = Health | SignInHandler | SignOutHandler | MeHandler | CreateHandler | RevokeHandler | AcceptHandler

record route =
  rt_method :: http_method
  rt_path :: string
  rt_websocket :: bool
  rt_needs_session :: bool
  rt_handler :: handler

definition CREATE_PATH :: string where
  "CREATE_PATH = ''/api/v1/organizations/{organization_id}/invites''"
definition REVOKE_PATH :: string where
  "REVOKE_PATH = ''/api/v1/organizations/{organization_id}/invites/{id}''"
definition ACCEPT_PATH :: string where
  "ACCEPT_PATH = ''/api/v1/invite-acceptances''"

definition ROUTES :: "route list" where
  "ROUTES =
    [\<lparr>rt_method = GET, rt_path = ''/health'', rt_websocket = False, rt_needs_session = False, rt_handler = Health\<rparr>,
     \<lparr>rt_method = POST, rt_path = ''/api/v1/sessions'', rt_websocket = False, rt_needs_session = False,
        rt_handler = SignInHandler\<rparr>,
     \<lparr>rt_method = DELETE, rt_path = ''/api/v1/sessions/current'', rt_websocket = False, rt_needs_session = True,
        rt_handler = SignOutHandler\<rparr>,
     \<lparr>rt_method = GET, rt_path = ''/api/v1/me'', rt_websocket = False, rt_needs_session = True,
        rt_handler = MeHandler\<rparr>,
     \<lparr>rt_method = POST, rt_path = CREATE_PATH, rt_websocket = False, rt_needs_session = True,
        rt_handler = CreateHandler\<rparr>,
     \<lparr>rt_method = DELETE, rt_path = REVOKE_PATH, rt_websocket = False, rt_needs_session = True,
        rt_handler = RevokeHandler\<rparr>,
     \<lparr>rt_method = POST, rt_path = ACCEPT_PATH, rt_websocket = False, rt_needs_session = False,
        rt_handler = AcceptHandler\<rparr>]"

definition changes_state :: "route \<Rightarrow> bool" where
  "changes_state r \<longleftrightarrow> rt_websocket r \<or> rt_method r \<in> {POST, PUT, PATCH, DELETE}"

text \<open>The router is the list of the registered paths, each with its method and handler.\<close>

definition router :: "(string \<times> http_method \<times> handler) list" where
  "router = foldl (\<lambda>router route. router @ [(rt_path route, rt_method route, rt_handler route)]) [] ROUTES"

text \<open>
  Finding the route of a request is axum's: a parameter that answers with a handler, with no such path, or
  with a path that has no such method.
\<close>

datatype routed = Found handler | NoRoute | WrongMethod

section \<open>What the guard guarantees\<close>

lemma status_response_simps [simp]:
  "rs_status (status_response s) = s" "rs_cookies (status_response s) = []"
  "rs_body (status_response s) = NoBody" "rs_content_type (status_response s) = None"
  by (simp_all add: status_response_def)

definition same_origin :: "ustring \<Rightarrow> http_request \<Rightarrow> bool" where
  "same_origin origin request \<longleftrightarrow> header_get_all (rq_headers request) ''origin'' = [utf8_bytes origin]"

definition guarded :: "http_request \<Rightarrow> bool" where
  "guarded request \<longleftrightarrow> rq_method request \<in> {POST, PUT, PATCH, DELETE}
     \<or> (\<exists>v. header_get (rq_headers request) ''upgrade'' = Some v
          \<and> eq_ignore_ascii_case v (utf8_bytes (lit ''websocket'')))"

lemma protect_eq:
  "protect origin request run_next s =
     (if guarded request \<and> \<not> same_origin origin request then (status_response FORBIDDEN, s)
      else map_prod (\<lambda>r. if is_client_error (rs_status r) \<or> is_server_error (rs_status r)
             then status_response (rs_status r) else r) id (run_next request s))"
  by (auto simp: protect_def Let_def guarded_def same_origin_def split: option.splits list.splits prod.splits)

end
