(* ===== verification/SessionRoutes.thy ===== *)
theory SessionRoutes
  imports Http Tokens
begin

text \<open>
  \<open>crates/app/src/sessions.rs\<close>: the shared state, the \<open>Authenticated\<close> extractor, signing in and out, and the
  answer to \<open>/me\<close>.
\<close>

definition COOKIE_NAME :: string where
  "COOKIE_NAME = ''__Host-fukulow_session''"

definition SESSION_LIFETIME :: int where
  "SESSION_LIFETIME = 14 * 24 * 60 * 60"

text \<open>Instants count microseconds, cookie lifetimes seconds.\<close>

definition seconds :: "int \<Rightarrow> int" where
  "seconds n = n * 1000000"

text \<open>
  \<open>StateData\<close>. The pool hands out one connection per operation; \<open>st_pool n\<close> says how the \<open>n\<close>-th of a request
  fares. A token generator is the result of its call, \<open>st_hash_invite_password\<close> is \<open>None\<close> when the blocking
  task crashed.
\<close>

record state_data =
  st_pool :: "nat \<Rightarrow> wire"
  st_origin :: ustring
  st_new_token :: "token_error + (session_token \<times> token_hash)"
  st_now :: instant
  st_new_invite_token :: "token_error + (invite_token \<times> token_hash)"
  st_hash_invite_password :: "ustring \<Rightarrow> (password_hash_error + string) option"

text \<open>
  The libraries the handlers call: \<open>serde_json::from_slice\<close>, the cookie jar, SHA-256, password verification
  (\<open>None\<close> when the blocking task crashed), the two text forms of a UUID and RFC 3339 formatting.
\<close>

record library =
  from_slice :: "byte list \<Rightarrow> json option"
  jar_get :: "headers \<Rightarrow> string \<Rightarrow> ustring option"
  sha256 :: "byte list \<Rightarrow> byte list"
  blocking_verify :: "ustring \<Rightarrow> string \<Rightarrow> bool option"
  parse_uuid :: "ustring \<Rightarrow> uuid option"
  uuid_text :: "uuid \<Rightarrow> ustring"
  format_rfc3339 :: "instant \<Rightarrow> ustring option"

definition on_pool :: "state_data \<Rightarrow> nat \<Rightarrow> ('e, 'a) tx \<Rightarrow> ('e, 'a) tx" where
  "on_pool state n m c = m (c\<lparr>wire := st_pool state n\<rparr>)"

datatype current_session = CurrentSession token_hash

record authenticated =
  au_actor :: actor_id
  au_session :: current_session

fun session_hash :: "current_session \<Rightarrow> token_hash" where
  "session_hash (CurrentSession h) = h"

fun session_error_status :: "session_error \<Rightarrow> status_code" where
  "session_error_status session_error.NoSession = UNAUTHORIZED"
| "session_error_status (session_error.Database _) = INTERNAL_SERVER_ERROR"

definition from_request_parts ::
    "library \<Rightarrow> state_data \<Rightarrow> http_request \<Rightarrow> (status_code, authenticated) tx" where
  "from_request_parts lib state request =
     require UNAUTHORIZED (jar_get lib (rq_headers request) COOKIE_NAME) (\<lambda>token.
     (let hash = hash_session_token (sha256 lib) token
      in attempt session_error_status (on_pool state 0 (resolve_session hash)) (\<lambda>actor.
         ok \<lparr>au_actor = actor, au_session = CurrentSession hash\<rparr>)))"

definition cookie_of :: "ustring \<Rightarrow> int \<Rightarrow> cookie" where
  "cookie_of value lifetime = \<lparr>ck_name = COOKIE_NAME, ck_value = value, ck_http_only = True, ck_secure = True,
     ck_same_site = Strict, ck_path = ''/'', ck_max_age = lifetime\<rparr>"

fun sign_in_error_status :: "sign_in_error \<Rightarrow> status_code" where
  "sign_in_error_status sign_in_error.InvalidCredentials = UNAUTHORIZED"
| "sign_in_error_status sign_in_error.TokenUnavailable = INTERNAL_SERVER_ERROR"
| "sign_in_error_status (sign_in_error.Database _) = INTERNAL_SERVER_ERROR"

text \<open>\<open>Result::ok\<close>\<close>

definition result_ok :: "'e + 'a \<Rightarrow> 'a option" where
  "result_ok r = (case r of Inl _ \<Rightarrow> None | Inr a \<Rightarrow> Some a)"

fun as_object :: "json \<Rightarrow> fields option" where
  "as_object (JObject entries) = Some entries"
| "as_object _ = None"

definition sign_in_handler :: "library \<Rightarrow> state_data \<Rightarrow> http_request \<Rightarrow> (status_code, response) tx" where
  "sign_in_handler lib state request =
     require_ok (\<lambda>_. UNPROCESSABLE_ENTITY) (rq_body request) (\<lambda>body.
     require UNPROCESSABLE_ENTITY (from_slice lib body) (\<lambda>value.
     require UNPROCESSABLE_ENTITY (as_object value) (\<lambda>object.
     require UNPROCESSABLE_ENTITY
       (option_filter (\<lambda>email. 0 \<notin> set email) (Option.bind (map_of object (lit ''email'')) as_str)) (\<lambda>email.
     require UNPROCESSABLE_ENTITY (Option.bind (map_of object (lit ''password'')) as_str) (\<lambda>password.
     attempt sign_in_error_status
       (on_pool state 0 (sign_in email (blocking_verify lib password) (result_ok (st_new_token state))
          (st_now state + seconds SESSION_LIFETIME))) (\<lambda>(_, token).
     ok ((status_response NO_CONTENT)
       \<lparr>rs_cookies := [cookie_of (lit (session_token_str token)) SESSION_LIFETIME]\<rparr>)))))))"

definition sign_out_handler :: "state_data \<Rightarrow> authenticated \<Rightarrow> (status_code, response) tx" where
  "sign_out_handler state authenticated =
     attempt session_error_status
       (on_pool state 1 (revoke_session (au_actor authenticated) (session_hash (au_session authenticated)))) (\<lambda>_.
     ok ((status_response NO_CONTENT)\<lparr>rs_cookies := [cookie_of [] 0]\<rparr>))"

definition me_json :: "library \<Rightarrow> me_row \<Rightarrow> json" where
  "me_json lib m =
     (let value = [(lit ''actor'', JObject
            [(lit ''id'', JString (uuid_text lib (me_actor_id m))),
             (lit ''type'', JString (lit (actor_type_str (me_actor_type m)))),
             (lit ''display_name'', case me_display_name m of None \<Rightarrow> JNull | Some n \<Rightarrow> JString n)])]
      in case me_email m of
           Some email \<Rightarrow> JObject (value @ [(lit ''user'', JObject [(lit ''email'', JString email)])])
         | None \<Rightarrow> JObject value)"

definition json_response :: "status_code \<Rightarrow> json \<Rightarrow> response" where
  "json_response status value = \<lparr>rs_status = status, rs_content_type = Some ''application/json'',
     rs_cookies = [], rs_body = JsonBody value\<rparr>"

definition me_handler :: "library \<Rightarrow> state_data \<Rightarrow> authenticated \<Rightarrow> (status_code, response) tx" where
  "me_handler lib state authenticated =
     attempt session_error_status (on_pool state 1 (me (au_actor authenticated))) (\<lambda>m.
     ok (json_response OK (me_json lib m)))"

section \<open>Running on a pooled connection\<close>

lemma on_pool_apply: "on_pool state n m c = m (c\<lparr>wire := st_pool state n\<rparr>)"
  by (simp add: on_pool_def)

end
