(* ===== verification/InviteRoutes.thy ===== *)
theory InviteRoutes
  imports SessionRoutes
begin

text \<open>\<open>crates/app/src/invites.rs\<close>: the handlers that create, revoke and accept an invite.\<close>

fun create_error_status :: "create_invite_error \<Rightarrow> status_code" where
  "create_error_status create_invite_error.NotAMember = NOT_FOUND"
| "create_error_status create_invite_error.Forbidden = FORBIDDEN"
| "create_error_status create_invite_error.TokenUnavailable = INTERNAL_SERVER_ERROR"
| "create_error_status (create_invite_error.Database _) = INTERNAL_SERVER_ERROR"

definition create_handler ::
    "library \<Rightarrow> state_data \<Rightarrow> http_request \<Rightarrow> authenticated \<Rightarrow> (status_code, response) tx" where
  "create_handler lib state request authenticated =
     require_ok id (object (from_slice lib) (rq_body request)) (\<lambda>fields.
     require_ok id (integer fields (lit ''expires_in'') 300 604800) (\<lambda>expires_in.
     require_ok id
       (if map_of fields (lit ''max_uses'') \<noteq> None then integer fields (lit ''max_uses'') 1 100 else Inr 1)
       (\<lambda>max_uses.
     require_ok id (path_identifier (parse_uuid lib) (rq_path request) 4) (\<lambda>organization.
     (let expires_at = st_now state + seconds expires_in
      in require INTERNAL_SERVER_ERROR (format_rfc3339 lib expires_at) (\<lambda>formatted.
         attempt create_error_status
           (on_pool state 1 (create_invite (au_actor authenticated) organization
              (result_ok (st_new_invite_token state)) expires_at max_uses)) (\<lambda>(i, token).
         ok (json_response CREATED (JObject
           [(lit ''id'', JString (uuid_text lib i)),
            (lit ''token'', JString (lit (invite_token_str token))),
            (lit ''link'', JString (st_origin state @ lit ''/invite#'' @ lit (invite_token_str token))),
            (lit ''expires_at'', JString formatted),
            (lit ''max_uses'', JInt max_uses)])))))))))"

fun revoke_error_status :: "revoke_invite_error \<Rightarrow> status_code" where
  "revoke_error_status revoke_invite_error.Forbidden = FORBIDDEN"
| "revoke_error_status revoke_invite_error.NotAMember = NOT_FOUND"
| "revoke_error_status revoke_invite_error.NotFound = NOT_FOUND"
| "revoke_error_status (revoke_invite_error.Database _) = INTERNAL_SERVER_ERROR"

definition revoke_handler ::
    "library \<Rightarrow> state_data \<Rightarrow> http_request \<Rightarrow> authenticated \<Rightarrow> (status_code, response) tx" where
  "revoke_handler lib state request authenticated =
     require_ok id (path_identifier (parse_uuid lib) (rq_path request) 4) (\<lambda>organization.
     (let invite = result_ok (path_identifier (parse_uuid lib) (rq_path request) 6)
      in attempt revoke_error_status
           (on_pool state 1 (revoke_invite (au_actor authenticated) organization invite)) (\<lambda>_.
         ok (status_response NO_CONTENT))))"

fun accept_error_status :: "accept_invite_error \<Rightarrow> status_code" where
  "accept_error_status accept_invite_error.InviteUnusable = NOT_FOUND"
| "accept_error_status accept_invite_error.EmailTaken = CONFLICT"
| "accept_error_status (accept_invite_error.Database _) = INTERNAL_SERVER_ERROR"

definition accept_handler :: "library \<Rightarrow> state_data \<Rightarrow> http_request \<Rightarrow> (status_code, response) tx" where
  "accept_handler lib state request =
     require_ok id (object (from_slice lib) (rq_body request)) (\<lambda>fields.
     require_ok id (string_field fields (lit ''token'')) (\<lambda>token.
     (let hash = hash_invite_token (sha256 lib) token
      in attempt (\<lambda>_. INTERNAL_SERVER_ERROR) (on_pool state 0 (invite_is_usable hash)) (\<lambda>usable.
         if \<not> usable then throw NOT_FOUND
         else
           require_ok id (acceptance_fields fields) (\<lambda>(email, password, display_name).
           require INTERNAL_SERVER_ERROR (st_hash_invite_password state password) (\<lambda>hashed.
           require_ok (\<lambda>_. INTERNAL_SERVER_ERROR) hashed (\<lambda>password_hash.
           attempt accept_error_status
             (on_pool state 1 (accept_invite hash email password_hash display_name)) (\<lambda>_.
           ok (status_response NO_CONTENT)))))))))"

end
