(* ===== verification/Server.thy ===== *)
theory Server
  imports InviteRoutes System
begin

text \<open>
  The server as a whole: the registry's handlers behind the guard, with the extractors in the order axum runs
  them, and what an HTTP request can do to the database.
\<close>

text \<open>A handler's result as a response: \<open>Result<T, StatusCode>\<close> answers an error with its bare status.\<close>

definition respond :: "(status_code, response) tx \<Rightarrow> conn \<Rightarrow> response \<times> conn" where
  "respond m c = (case m c of
       (Inl status, c') \<Rightarrow> (status_response status, c')
     | (Inr response, c') \<Rightarrow> (response, c'))"

definition with_session ::
    "library \<Rightarrow> state_data \<Rightarrow> http_request \<Rightarrow> (authenticated \<Rightarrow> (status_code, response) tx)
       \<Rightarrow> (status_code, response) tx" where
  "with_session lib state request k = attempt id (from_request_parts lib state request) k"

fun run_handler :: "library \<Rightarrow> state_data \<Rightarrow> handler \<Rightarrow> http_request \<Rightarrow> (status_code, response) tx" where
  "run_handler lib state Health request = ok health"
| "run_handler lib state SignInHandler request = sign_in_handler lib state request"
| "run_handler lib state SignOutHandler request = with_session lib state request (sign_out_handler state)"
| "run_handler lib state MeHandler request = with_session lib state request (me_handler lib state)"
| "run_handler lib state CreateHandler request = with_session lib state request (create_handler lib state request)"
| "run_handler lib state RevokeHandler request = with_session lib state request (revoke_handler lib state request)"
| "run_handler lib state AcceptHandler request = accept_handler lib state request"

definition dispatch ::
    "library \<Rightarrow> ((string \<times> http_method \<times> handler) list \<Rightarrow> http_request \<Rightarrow> routed) \<Rightarrow> state_data
       \<Rightarrow> http_request \<Rightarrow> conn \<Rightarrow> response \<times> conn" where
  "dispatch lib find_route state request =
     respond (case find_route router request of
         Found handler \<Rightarrow> run_handler lib state handler request
       | NoRoute \<Rightarrow> throw NOT_FOUND
       | WrongMethod \<Rightarrow> throw METHOD_NOT_ALLOWED)"

text \<open>\<open>http::routes\<close>\<close>

definition serve_request ::
    "library \<Rightarrow> ((string \<times> http_method \<times> handler) list \<Rightarrow> http_request \<Rightarrow> routed) \<Rightarrow> state_data
       \<Rightarrow> http_request \<Rightarrow> conn \<Rightarrow> response \<times> conn" where
  "serve_request lib find_route state request c =
     protect (st_origin state) request (dispatch lib find_route state) c"

section \<open>A token is only handed on\<close>

text \<open>Two programs that end on the same connection, whatever they return.\<close>

definition mirrors :: "('e, 'a) tx \<Rightarrow> ('e, 'b) tx \<Rightarrow> bool" where
  "mirrors m m' \<longleftrightarrow> (\<forall>c. snd (m c) = snd (m' c))"

lemma mirrors_refl: "mirrors m m"
  by (simp add: mirrors_def)

lemma mirrors_throw: "mirrors (throw e) (throw e')"
  by (simp add: mirrors_def throw_def)

lemma mirrors_ok: "mirrors (ok a) (ok b)"
  by (simp add: mirrors_def ok_def)

lemma mirrors_attempt: "(\<And>a. mirrors (k a) (k' a)) \<Longrightarrow> mirrors (attempt f m k) (attempt f m k')"
  by (auto simp: mirrors_def attempt_def split: prod.splits sum.splits)

lemma mirrors_require: "(\<And>a. mirrors (k a) (k' a)) \<Longrightarrow> mirrors (require e x k) (require e x k')"
  by (auto simp: require_def mirrors_throw split: option.split)

lemma mirrors_token:
  "(\<And>t th. mirrors (k (t, th)) (k' (g t, th))) \<Longrightarrow> mirrors (require e x k) (require e (map_option (apfst g) x) k')"
  by (cases x) (auto simp: require_def mirrors_throw)

lemma mirrors_if: "mirrors m m' \<Longrightarrow> mirrors n n' \<Longrightarrow> mirrors (if b then m else n) (if b then m' else n')"
  by simp

lemma mirrors_access:
  "mirrors m m' \<Longrightarrow> mirrors (case x of Allowed \<Rightarrow> m | Forbidden \<Rightarrow> throw e1 | NotAMember \<Rightarrow> throw e2)
     (case x of Allowed \<Rightarrow> m' | Forbidden \<Rightarrow> throw e1 | NotAMember \<Rightarrow> throw e2)"
  by (cases x) (simp_all add: mirrors_throw)

lemmas mirrors_intros = mirrors_access mirrors_if mirrors_token mirrors_require mirrors_attempt mirrors_ok
  mirrors_throw

lemma create_invite_mirrors:
  "mirrors (create_invite p org t ex n) (create_invite p org (map_option (apfst g) t) ex n)"
  unfolding create_invite_def by (intro mirrors_intros) (auto intro!: mirrors_intros)

lemma sign_in_mirrors:
  "mirrors (sign_in e v t ex) (sign_in e v (map_option (apfst g) t) ex)"
  unfolding sign_in_def Let_def by (intro mirrors_intros) (auto intro!: mirrors_intros)

section \<open>An HTTP request is a few operations\<close>

definition stays_reachable :: "uuid_api \<Rightarrow> ('e, 'a) tx \<Rightarrow> bool" where
  "stays_reachable api m \<longleftrightarrow> (\<forall>c. reachable api (committed c) \<longrightarrow> reachable api (committed (snd (m c))))"

lemma stays_throw: "stays_reachable api (throw e)"
  by (simp add: stays_reachable_def throw_def)

lemma stays_ok: "stays_reachable api (ok a)"
  by (simp add: stays_reachable_def ok_def)

lemma stays_attempt:
  assumes "stays_reachable api m" "\<And>a. stays_reachable api (k a)"
  shows "stays_reachable api (attempt f m k)"
  unfolding stays_reachable_def
proof (intro allI impI)
  fix c :: conn assume "reachable api (committed c)"
  with assms(1) have "reachable api (committed (snd (m c)))" by (simp add: stays_reachable_def)
  with assms(2) show "reachable api (committed (snd (attempt f m k c)))"
    by (auto simp: attempt_def stays_reachable_def split: prod.splits sum.splits)
qed

lemma stays_require: "(\<And>a. stays_reachable api (k a)) \<Longrightarrow> stays_reachable api (require e x k)"
  by (simp add: require_def stays_throw split: option.split)

lemma stays_require_ok: "(\<And>a. stays_reachable api (k a)) \<Longrightarrow> stays_reachable api (require_ok f x k)"
  by (simp add: require_ok_def stays_throw split: sum.split)

lemma stays_if: "stays_reachable api m \<Longrightarrow> stays_reachable api n \<Longrightarrow> stays_reachable api (if b then m else n)"
  by simp

lemma stays_on_pool: "stays_reachable api m \<Longrightarrow> stays_reachable api (on_pool state n m)"
  by (simp add: stays_reachable_def on_pool_def)

lemma stays_request: "(\<And>c. snd (m c) = run_request api r c) \<Longrightarrow> stays_reachable api m"
  by (simp add: stays_reachable_def reachable.request)

lemma stays_operations:
  "stays_reachable api (resolve_session th)" "stays_reachable api (revoke_session a th)"
  "stays_reachable api (me a)" "stays_reachable api (revoke_invite p org i)"
  "stays_reachable api (invite_is_usable th)" "stays_reachable api (accept_invite th e h n)"
  "stays_reachable api (sign_in e v (t :: (session_token \<times> token_hash) option) ex)"
  "stays_reachable api (create_invite p org (it :: (invite_token \<times> token_hash) option) ex mu)"
proof -
  show "stays_reachable api (resolve_session th)" by (rule stays_request [of _ _ "ResolveSession th"]) simp
  show "stays_reachable api (revoke_session a th)" by (rule stays_request [of _ _ "RevokeSession a th"]) simp
  show "stays_reachable api (me a)" by (rule stays_request [of _ _ "WhoAmI a"]) simp
  show "stays_reachable api (revoke_invite p org i)" by (rule stays_request [of _ _ "RevokeInvite p org i"]) simp
  show "stays_reachable api (invite_is_usable th)" by (rule stays_request [of _ _ "InviteIsUsable th"]) simp
  show "stays_reachable api (accept_invite th e h n)" by (rule stays_request [of _ _ "AcceptInvite th e h n"]) simp
  show "stays_reachable api (sign_in e v t ex)"
    by (rule stays_request [of _ _ "SignIn e v (map_option (apfst session_token_str) t) ex"])
      (simp add: sign_in_mirrors [unfolded mirrors_def, rule_format, of e v t ex _ session_token_str])
  show "stays_reachable api (create_invite p org it ex mu)"
    by (rule stays_request [of _ _ "CreateInvite p org (map_option (apfst invite_token_str) it) ex mu"])
      (simp add: create_invite_mirrors [unfolded mirrors_def, rule_format, of p org it ex mu _ invite_token_str])
qed

lemmas stays_intros = stays_if stays_require stays_require_ok stays_attempt stays_ok stays_throw stays_on_pool
  stays_operations

lemma stays_run_handler: "stays_reachable api (run_handler lib state h request)"
  by (cases h)
    (auto simp: sign_in_handler_def with_session_def from_request_parts_def sign_out_handler_def me_handler_def
      create_handler_def revoke_handler_def accept_handler_def Let_def intro!: stays_intros)

lemma committed_respond: "committed (snd (respond m c)) = committed (snd (m c))"
  by (simp add: respond_def split: prod.split sum.split)

lemma dispatch_reachable:
  "reachable api (committed c) \<Longrightarrow> reachable api (committed (snd (dispatch lib find_route state request c)))"
  using stays_run_handler [unfolded stays_reachable_def]
  by (auto simp: dispatch_def committed_respond throw_def split: routed.split)

lemma serve_reachable:
  "reachable api (committed c) \<Longrightarrow> reachable api (committed (snd (serve_request lib find_route state request c)))"
  using dispatch_reachable by (auto simp: serve_request_def protect_eq)

section \<open>Handlers that only read\<close>

interpretation unchanged: step_relation "(=)"
  by unfold_locales simp_all

lemma readers_change_nothing:
  "committed (snd (resolve_session th c)) = committed c"
  "committed (snd (me a c)) = committed c"
  "committed (snd (invite_is_usable th c)) = committed c"
  unfolding resolve_session_def me_def invite_is_usable_def
  by (rule sym, intro keeps_intros)+

lemma committed_on_pool: "(\<And>c. committed (snd (m c)) = committed c) \<Longrightarrow> committed (snd (on_pool state n m c)) = committed c"
  by (simp add: on_pool_def)

lemma committed_attempt:
  "(\<And>c. committed (snd (m c)) = committed c) \<Longrightarrow> (\<And>a c. committed (snd (k a c)) = committed c) \<Longrightarrow>
     committed (snd (attempt f m k c)) = committed c"
  by (auto simp: attempt_def split: prod.split sum.split) (metis snd_conv)+

lemma committed_steps:
  "(\<And>a c. committed (snd (k a c)) = committed c) \<Longrightarrow> committed (snd (require e x k c)) = committed c"
  "committed (snd (ok a c)) = committed c" "committed (snd (throw e c)) = committed c"
  by (auto simp: require_def ok_def throw_def split: option.split)

lemma from_request_parts_unchanged: "committed (snd (from_request_parts lib state request c)) = committed c"
  unfolding from_request_parts_def Let_def
  by (intro committed_steps committed_attempt committed_on_pool readers_change_nothing)

lemma reading_handlers:
  "committed (snd (run_handler lib state Health request c)) = committed c"
  "committed (snd (run_handler lib state MeHandler request c)) = committed c"
  by (simp_all add: with_session_def me_handler_def committed_steps committed_attempt committed_on_pool
      readers_change_nothing from_request_parts_unchanged)

text \<open>
  What axum's routing promises: a handler is found only for a registered route of the request's method; a GET
  route also answers HEAD.
\<close>

definition routes_by_method ::
    "((string \<times> http_method \<times> handler) list \<Rightarrow> http_request \<Rightarrow> routed) \<Rightarrow> bool" where
  "routes_by_method find_route \<longleftrightarrow> (\<forall>table request h. find_route table request = Found h \<longrightarrow>
     (\<exists>pat m. (pat, m, h) \<in> set table \<and> (m = rq_method request \<or> m = GET \<and> rq_method request = HEAD)))"

lemma router_routes: "router = map (\<lambda>r. (rt_path r, rt_method r, rt_handler r)) ROUTES"
  by (simp add: router_def ROUTES_def)

lemma get_routes_read:
  "(pat, GET, h) \<in> set router \<or> (pat, HEAD, h) \<in> set router \<Longrightarrow> h = Health \<or> h = MeHandler"
  by (auto simp: router_routes ROUTES_def)

lemma registered_methods: "(pat, m, h) \<in> set router \<Longrightarrow> m \<in> {GET, POST, DELETE}"
  by (auto simp: router_routes ROUTES_def)

end
