(* ===== verification/Endpoints.thy ===== *)
theory Endpoints
  imports Server Scenario
begin

text \<open>
  Properties of the HTTP server: what a forged request can do, what an error answer carries, which routes need
  a session, how long a session cookie is good for, and that no request leads out of the reachable databases.
\<close>

section \<open>A concrete server\<close>

text \<open>
  The libraries instantiated for the witnesses: a body is one byte that selects a document, the cookie jar is
  the header of the cookie's name, the digest adds 128 to each byte, a UUID is read by its hexadecimal digits.
\<close>

definition demo_document :: "byte list \<Rightarrow> json option" where
  "demo_document b =
     (if b = [1] then Some (JObject [(lit ''email'', JString (lit ''bob@x'')), (lit ''password'', JString (lit ''secret''))])
      else if b = [2] then Some (JObject [(lit ''expires_in'', JInt 300)])
      else if b = [3] then Some (JObject [(lit ''token'', JString (lit ''+'')), (lit ''email'', JString (lit ''cid@x'')),
        (lit ''password'', JString (lit ''password'')), (lit ''display_name'', JString (lit '' Cid ''))])
      else None)"

definition hex_value :: "ustring \<Rightarrow> uuid" where
  "hex_value t = foldl (\<lambda>acc c. acc * 16 + (case to_digit_16 (of_nat c) of None \<Rightarrow> 0 | Some n \<Rightarrow> of_nat n)) 0
     (filter (\<lambda>c. c \<noteq> 45) t)"

definition demo_lib :: library where
  "demo_lib = \<lparr>from_slice = demo_document,
     jar_get = (\<lambda>headers name. map_option (map unat) (map_of headers name)),
     sha256 = map (\<lambda>b. b + 128),
     blocking_verify = (\<lambda>password phc. Some (phc = ''h2'' \<and> password = lit ''secret'')),
     parse_uuid = (\<lambda>t. Some (hex_value t)), uuid_text = (\<lambda>u. []), format_rfc3339 = (\<lambda>t. Some [])\<rparr>"

definition demo_state :: "instant \<Rightarrow> state_data" where
  "demo_state t = \<lparr>st_pool = (\<lambda>n. Healthy), st_origin = lit ''https://chat'',
     st_new_token = new_session_token (sha256 demo_lib) (\<lambda>bs. Inr bs :: unit + byte list), st_now = t,
     st_new_invite_token = new_invite_token (sha256 demo_lib) (\<lambda>bs. Inr bs :: unit + byte list),
     st_hash_invite_password = (\<lambda>p. Some (Inr ''h9''))\<rparr>"

fun segment_matches :: "ustring \<Rightarrow> ustring \<Rightarrow> bool" where
  "segment_matches (p # ps) s \<longleftrightarrow> (if p = 123 then s \<noteq> [] else p # ps = s)"
| "segment_matches [] s \<longleftrightarrow> s = []"

definition demo_find :: "(string \<times> http_method \<times> handler) list \<Rightarrow> http_request \<Rightarrow> routed" where
  "demo_find table request =
     (case filter (\<lambda>(pat, m, h). list_all2 segment_matches (split_at_char 47 (lit pat)) (split_at_char 47 (rq_path request)))
             table of
        [] \<Rightarrow> NoRoute
      | hits \<Rightarrow> (case filter (\<lambda>(pat, m, h). m = rq_method request) hits of
           [] \<Rightarrow> WrongMethod | (pat, m, h) # _ \<Rightarrow> Found h))"

lemma demo_find_by_method: "routes_by_method demo_find"
  unfolding routes_by_method_def
proof (intro allI impI)
  fix table request h
  assume found: "demo_find table request = Found h"
  define hits where "hits = filter (\<lambda>(pat, m, h). list_all2 segment_matches (split_at_char 47 (lit pat))
    (split_at_char 47 (rq_path request))) table"
  have hits: "set hits \<subseteq> set table" by (simp add: hits_def filter_is_subset)
  from found obtain pat m rest where f: "filter (\<lambda>(pat, m, h). m = rq_method request) hits = (pat, m, h) # rest"
    unfolding demo_find_def hits_def [symmetric] by (auto split: list.splits)
  from f have "(pat, m, h) \<in> set hits" "m = rq_method request"
    by (auto dest: filter_eq_ConsD)
  with hits show "\<exists>pat m. (pat, m, h) \<in> set table \<and> (m = rq_method request \<or> m = GET \<and> rq_method request = HEAD)"
    by blast
qed

text \<open>Requests of the demonstration: their origin, and the session cookie of Bob (its hash is stored).\<close>

definition ask :: "http_method \<Rightarrow> string \<Rightarrow> string \<Rightarrow> headers \<Rightarrow> byte list \<Rightarrow> http_request" where
  "ask m target origin headers body = \<lparr>rq_method = m, rq_path = lit target,
     rq_headers = (''origin'', utf8_bytes (lit origin)) # headers, rq_body = Inr body\<rparr>"

definition bobs_cookie :: headers where
  "bobs_cookie = [(COOKIE_NAME, [77])]"

section \<open>Forged requests\<close>

text \<open>C15: An HTTP request changes the database only if its method is POST, PUT, PATCH or DELETE and its one
  Origin header is, byte for byte, the configured origin: whatever page sent it, a browser cannot be made to
  change anything from another site.\<close>

theorem forged_requests_change_nothing:
  assumes routes: "routes_by_method find_route"
    and changed: "committed (snd (serve_request lib find_route st request c)) \<noteq> committed c"
  shows "rq_method request \<in> {POST, PUT, PATCH, DELETE}
    \<and> header_get_all (rq_headers request) ''origin'' = [utf8_bytes (st_origin st)]"
proof -
  have served: "\<not> (guarded request \<and> \<not> same_origin (st_origin st) request)"
    and ran: "committed (snd (dispatch lib find_route st request c)) \<noteq> committed c"
    using changed by (auto simp: serve_request_def protect_eq split: if_splits)
  from ran obtain h where h: "find_route router request = Found h"
    and run: "committed (snd (run_handler lib st h request c)) \<noteq> committed c"
    by (auto simp: dispatch_def committed_respond throw_def split: routed.splits)
  then have other: "h \<noteq> Health" "h \<noteq> MeHandler" using reading_handlers by metis+
  from routes h obtain pat m where m: "(pat, m, h) \<in> set router"
    "m = rq_method request \<or> m = GET \<and> rq_method request = HEAD"
    unfolding routes_by_method_def by blast
  with other have "m \<noteq> GET" using get_routes_read by blast
  with m registered_methods have "rq_method request \<in> {POST, PUT, PATCH, DELETE}" by blast
  with served show ?thesis by (auto simp: guarded_def same_origin_def)
qed

theorem forged_requests_change_nothing_witness:
  "rq_method (ask DELETE ''/api/v1/sessions/current'' ''https://chat'' bobs_cookie [])
     \<in> {POST, PUT, PATCH, DELETE}"
proof -
  have "committed (snd (serve_request demo_lib demo_find (demo_state 13)
      (ask DELETE ''/api/v1/sessions/current'' ''https://chat'' bobs_cookie []) (conn_at 13 demo)))
      \<noteq> committed (conn_at 13 demo)"
    by code_simp
  from forged_requests_change_nothing [OF demo_find_by_method this] show ?thesis by blast
qed

section \<open>Error answers\<close>

text \<open>Every error answer (400 to 599), of a handler, an extractor, the router or the guard, is its status
  and nothing else: no body, no content type, no cookie.\<close>

theorem errors_carry_only_their_status:
  assumes "400 \<le> rs_status (fst (serve_request lib find_route st request c))"
    and "rs_status (fst (serve_request lib find_route st request c)) < 600"
  shows "fst (serve_request lib find_route st request c)
    = status_response (rs_status (fst (serve_request lib find_route st request c)))"
  using assms
  by (auto simp: serve_request_def protect_eq is_client_error_def is_server_error_def)

theorem errors_carry_only_their_status_witness:
  "rs_body (fst (serve_request demo_lib demo_find (demo_state 13)
     (ask POST ''/api/v1/sessions'' ''https://chat'' [] [9]) (conn_at 13 demo))) = NoBody"
proof -
  let ?r = "fst (serve_request demo_lib demo_find (demo_state 13)
     (ask POST ''/api/v1/sessions'' ''https://chat'' [] [9]) (conn_at 13 demo))"
  have "rs_status ?r = 422" by code_simp
  with errors_carry_only_their_status [of demo_lib demo_find "demo_state 13"
      "ask POST ''/api/v1/sessions'' ''https://chat'' [] [9]" "conn_at 13 demo"]
  have "?r = status_response 422" by simp
  then show ?thesis by simp
qed

section \<open>Reachable databases\<close>

text \<open>Whatever the libraries, the router and the connections do, an HTTP request leads from a reachable
  database to a reachable one: the server does nothing but operations, so the invariants of the reachable
  databases hold under any HTTP traffic.\<close>

theorem http_traffic_stays_reachable:
  assumes "reachable api (committed c)"
  shows "reachable api (committed (snd (serve_request lib find_route st request c)))"
  using assms by (rule serve_reachable)

theorem http_traffic_stays_reachable_witness:
  "reachable any_v7 (committed (snd (serve_request demo_lib demo_find (demo_state 13)
     (ask POST ''/api/v1/sessions'' ''https://chat'' [] [1]) (conn_at 13 demo))))"
  by (rule http_traffic_stays_reachable) (simp add: demo_reachable)

end
