(* ===== verification/Lifecycle.thy ===== *)
theory Lifecycle
  imports Invariants Tenancy
begin

text \<open>
  Membership as a state machine: what a request may do to one membership, who may do it to whom, and what a
  departure amounts to.
\<close>

section \<open>Relations every successful request establishes\<close>

definition request_steps :: "uuid_api \<Rightarrow> (db \<Rightarrow> db \<Rightarrow> bool) \<Rightarrow> bool" where
  "request_steps api R \<longleftrightarrow> (\<forall>r c. wire c = Healthy \<longrightarrow> request_ok api r c \<longrightarrow> schema_ok (committed c) \<longrightarrow>
     R (committed c) (committed (run_request api r c)))"

lemma request_relates:
  assumes steps: "request_steps api R" and refl: "\<And>d. R d d" and sch: "schema_ok (committed c)"
  shows "R (committed c) (committed (run_request api r c))"
proof -
  have healthy: "R (committed c) (committed (run_request api r (heal c)))"
  proof (cases "request_ok api r (heal c)")
    case True
    then show ?thesis using steps sch unfolding request_steps_def by (metis heal_simps(1,7))
  next
    case False
    then have "committed (run_request api r (heal c)) = committed c"
      using request_contract [of api r "heal c"] by simp
    then show ?thesis by (simp add: refl)
  qed
  then show ?thesis using request_contract [of api r c] refl by metis
qed

lemma succeeded: "\<not> isl (fst (m c)) \<Longrightarrow> \<exists>x. m c = (Inr x, snd (m c))"
  by (metis isl_def prod.collapse sum.collapse(2) sum.disc(2))

section \<open>The phases of a membership\<close>

definition phase :: "db \<Rightarrow> organization_id \<Rightarrow> actor_id \<Rightarrow> member_status option" where
  "phase d org a = Option.bind (find (is_member org a) (organization_members d)) (\<lambda>m. status_parse (om_status m))"

definition lifecycle :: "member_status option \<Rightarrow> member_status option \<Rightarrow> bool" where
  "lifecycle x y \<longleftrightarrow> y = x \<or> (x, y) \<in> {(None, Some Active), (Some Active, Some Suspended),
     (Some Suspended, Some Active), (Some Active, Some Left), (Some Suspended, Some Left)}"

lemma lifecycle_refl [simp]: "lifecycle x x"
  by (simp add: lifecycle_def)

lemma phase_cong: "organization_members d' = organization_members d \<Longrightarrow> phase d' org a = phase d org a"
  by (simp add: phase_def)

lemma find_in: "find p rows = Some m \<Longrightarrow> m \<in> set rows \<and> p m"
  by (auto simp: find_Some_iff)

lemma find_append: "find p (xs @ ys) = (case find p xs of None \<Rightarrow> find p ys | Some x \<Rightarrow> Some x)"
  by (induction xs) auto

lemma find_update_where:
  "(\<And>m. p (f m) = p m) \<Longrightarrow> find p (update_where q f rows) = map_option (\<lambda>m. if q m then f m else m) (find p rows)"
  by (induction rows) auto

lemma is_member_update [simp]:
  "is_member org a (m\<lparr>om_role := x\<rparr>) = is_member org a m"
  "is_member org a (m\<lparr>om_status := x\<rparr>) = is_member org a m"
  "is_member org a (left_row m) = is_member org a m"
  by (simp_all add: is_member_def left_row_def)

lemma phase_Some:
  assumes "schema_ok d" "m \<in> set (organization_members d)" "is_member org a m"
  shows "phase d org a = status_parse (om_status m)"
proof -
  obtain m' where f: "find (is_member org a) (organization_members d) = Some m'"
    using assms(2,3) by (cases "find (is_member org a) (organization_members d)") (auto simp: find_None_iff)
  then have "m' \<in> set (organization_members d)" "is_member org a m'" by (auto simp: find_Some_iff)
  then have "m' = m" using member_row_unique assms by blast
  with f show ?thesis by (simp add: phase_def)
qed

lemma phase_rewrite:
  assumes "schema_ok d" "organization_members d' = update_where q f (organization_members d)"
    and f: "\<And>m. is_member org a (f m) = is_member org a m"
    and step: "\<And>m. find (is_member org a) (organization_members d) = Some m \<Longrightarrow> q m \<Longrightarrow>
      lifecycle (status_parse (om_status m)) (status_parse (om_status (f m)))"
  shows "lifecycle (phase d org a) (phase d' org a)"
proof (cases "find (is_member org a) (organization_members d)")
  case None
  then show ?thesis using f by (simp add: phase_def assms(2) find_update_where)
next
  case (Some m)
  then have st: "phase d org a = status_parse (om_status m)" by (simp add: phase_def)
  have "phase d' org a = status_parse (om_status (if q m then f m else m))"
    using Some f by (simp add: phase_def assms(2) find_update_where)
  with st step [OF Some] show ?thesis by (cases "q m") simp_all
qed

lemma phase_joins:
  assumes "organization_members d' = organization_members d @ [m]"
    and new: "\<And>x. x \<in> set (organization_members d) \<Longrightarrow> \<not> is_member (om_org m) (om_actor m) x"
    and "om_status m = ''active''"
  shows "lifecycle (phase d org a) (phase d' org a)"
proof (cases "find (is_member org a) (organization_members d)")
  case None
  then have "phase d' org a = (if is_member org a m then Some Active else None)"
    using assms(1,3) by (simp add: phase_def find_append status_parse_def)
  with None show ?thesis by (simp add: phase_def lifecycle_def)
next
  case (Some x)
  then show ?thesis using assms(1) by (simp add: phase_def find_append)
qed

definition moves_members :: "db \<Rightarrow> db \<Rightarrow> bool" where
  "moves_members d d' \<longleftrightarrow> (\<forall>org a. lifecycle (phase d org a) (phase d' org a))"

lemma moves_same: "organization_members d' = organization_members d \<Longrightarrow> moves_members d d'"
  by (simp add: moves_members_def phase_def)

lemma moves_membership_operations:
  assumes "wire c = Healthy" "schema_ok (committed c)"
  shows "change_member_role p org a r c = (Inr u, c') \<Longrightarrow> moves_members (committed c) (committed c')"
    and "suspend_member p org a c = (Inr u, c') \<Longrightarrow> moves_members (committed c) (committed c')"
    and "reactivate_member p org a c = (Inr u, c') \<Longrightarrow> moves_members (committed c) (committed c')"
proof -
  let ?d = "committed c" and ?s = "session_for (Actor p) c"
  have known: "om_status m = status_str st'"
    if "member_state ?s ?d org a ro st'" "find (is_member o' a') (organization_members ?d) = Some m" "is_member org a m"
    for ro st' o' a' m
    using member_state_unique [OF that(1) assms(2) _ that(3)] find_in [OF that(2)] by blast
  show "moves_members ?d (committed c')" if run: "change_member_role p org a r c = (Inr u, c')"
  proof -
    from change_member_role_run [OF assms(1) run] have "organization_members (committed c') = organization_members ?d
      \<or> organization_members (committed c') = update_where (is_member org a) (\<lambda>m. m\<lparr>om_role := role_str r\<rparr>) (organization_members ?d)"
      by (auto split: if_splits)
    then show ?thesis
    proof
      assume m: "organization_members (committed c')
        = update_where (is_member org a) (\<lambda>m. m\<lparr>om_role := role_str r\<rparr>) (organization_members ?d)"
      then show ?thesis unfolding moves_members_def by (intro allI phase_rewrite [OF assms(2) m]) simp_all
    qed (rule moves_same)
  qed
  show "moves_members ?d (committed c')" if run: "suspend_member p org a c = (Inr u, c')"
  proof -
    from suspend_member_run [OF assms(1) run] obtain ro where st: "member_state ?s ?d org a ro Active"
      and m: "organization_members (committed c')
        = update_where (is_member org a) (\<lambda>m. m\<lparr>om_status := ''suspended''\<rparr>) (organization_members ?d)" by auto
    show ?thesis unfolding moves_members_def
      by (intro allI phase_rewrite [OF assms(2) m]) (simp, drule (1) known [OF st], simp add: lifecycle_def status_parse_def)
  qed
  show "moves_members ?d (committed c')" if run: "reactivate_member p org a c = (Inr u, c')"
  proof -
    from reactivate_member_run [OF assms(1) run] obtain ro where st: "member_state ?s ?d org a ro Suspended"
      and m: "organization_members (committed c')
        = update_where (is_member org a) (\<lambda>m. m\<lparr>om_status := ''active''\<rparr>) (organization_members ?d)" by auto
    show ?thesis unfolding moves_members_def
      by (intro allI phase_rewrite [OF assms(2) m]) (simp, drule (1) known [OF st], simp add: lifecycle_def status_parse_def)
  qed
qed

lemma moves_other_operations:
  assumes "wire c = Healthy" "schema_ok (committed c)"
  shows "create_organization p n sl c = (Inr o1, c') \<Longrightarrow> moves_members (committed c) (committed c')"
    and "accept_invite th e h n c = (Inr ao, c') \<Longrightarrow> moves_members (committed c) (committed c')"
    and "leave_service a c = (Inr u, c') \<Longrightarrow> moves_members (committed c) (committed c')"
    and "post_message api org ch a i b c = (Inr x, c') \<Longrightarrow> moves_members (committed c) (committed c')"
proof -
  have org_known: "om_org m \<in> key_set o_id (organizations (committed c))"
    and actor_known: "om_actor m \<in> key_set a_id (actors (committed c))"
    if "m \<in> set (organization_members (committed c))" for m
    using assms(2) that by (simp_all add: schema_ok_def members_ok_def)
  show "moves_members (committed c) (committed c')" if "create_organization p n sl c = (Inr o1, c')"
  proof -
    note run = create_organization_run [OF assms(1) that]
    from run have new: "o1 \<notin> key_set o_id (organizations (committed c))" by blast
    from run have m: "organization_members (committed c') = organization_members (committed c)
        @ [\<lparr>om_org = o1, om_actor = p, om_role = ''owner'', om_status = ''active'', om_display_name = None\<rparr>]"
      by (elim conjE) simp
    show ?thesis unfolding moves_members_def
      by (intro allI phase_joins [OF m]) (use org_known new in \<open>auto simp: is_member_def\<close>)
  qed
  show "moves_members (committed c) (committed c')" if run: "accept_invite th e h n c = (Inr ao, c')"
  proof -
    obtain a1 o1 where ao: "ao = (a1, o1)" by fastforce
    from accept_invite_run [OF assms(1) run [unfolded ao]] have new: "a1 \<notin> key_set a_id (actors (committed c))"
      and m: "organization_members (committed c') = organization_members (committed c)
        @ [\<lparr>om_org = o1, om_actor = a1, om_role = ''member'', om_status = ''active'', om_display_name = None\<rparr>]"
      by auto
    show ?thesis unfolding moves_members_def
      by (intro allI phase_joins [OF m]) (use actor_known new in \<open>auto simp: is_member_def\<close>)
  qed
  show "moves_members (committed c) (committed c')" if "leave_service a c = (Inr u, c')"
  proof -
    from leave_service_run [OF assms(1) that assms(2)]
    have m: "organization_members (committed c')
        = update_where (\<lambda>m. om_actor m = a) left_row (organization_members (committed c))"
      by (auto simp: departed_rows_def)
    have stored: "om_status m \<in> {''active'', ''suspended'', ''left''}"
      if "find p (organization_members (committed c)) = Some m" for p m
      using find_in [OF that] assms(2) by (auto simp: schema_ok_def members_ok_def status_all_def)
    show ?thesis unfolding moves_members_def
      by (intro allI phase_rewrite [OF assms(2) m])
        (simp, drule stored, auto simp: lifecycle_def left_row_def status_parse_def)
  qed
  show "moves_members (committed c) (committed c')" if "post_message api org ch a i b c = (Inr x, c')"
    by (rule moves_same) (use post_message_effect [OF that assms(1)] in \<open>elim disjE conjE bexE; simp\<close>)
qed

lemma moves_by_request: "request_steps api moves_members"
  unfolding request_steps_def
proof (intro allI impI)
  fix r c
  assume h: "wire (c :: conn) = Healthy" and ok: "request_ok api r c" and sch: "schema_ok (committed c)"
  show "moves_members (committed c) (committed (run_request api r c))"
    using ok
    apply (cases r)
    apply (simp_all only: request_ok.simps run_request.simps)
    apply (drule_tac [!] succeeded)
    apply (erule exE, (erule moves_membership_operations [OF h sch] moves_other_operations [OF h sch]
         | drule members_untouched [OF h] reading_runs [OF h], rule moves_same, simp))+
    done
qed

text \<open>C13: Memberships follow one state machine, whatever is requested and however it ends: none, then active;
  active and suspended in turn; left from either, and for good.\<close>

theorem membership_follows_its_lifecycle:
  assumes "reachable api (committed c)"
  shows "(phase (committed c) org a, phase (committed (run_request api r c)) org a)
    \<in> Id \<union> {(None, Some Active), (Some Active, Some Suspended), (Some Suspended, Some Active),
        (Some Active, Some Left), (Some Suspended, Some Left)}"
proof -
  have "moves_members (committed c) (committed (run_request api r c))"
    by (rule request_relates [OF moves_by_request moves_same reachable_schema [OF assms]]) simp
  then have "lifecycle (phase (committed c) org a) (phase (committed (run_request api r c)) org a)"
    by (simp add: moves_members_def)
  then show ?thesis unfolding lifecycle_def by (metis UnI1 UnI2 pair_in_Id_conv)
qed

theorem membership_follows_its_lifecycle_witness:
  "phase demo_left 2000 4000 = Some Left
   \<and> phase (committed (run_request any_v7 (ReactivateMember 1000 2000 4000) (conn_at 14 demo_left))) 2000 4000 = Some Left"
proof -
  have left: "phase demo_left 2000 4000 = Some Left" by code_simp
  have "reachable any_v7 (committed (conn_at 14 demo_left))" by (simp add: demo_left_reachable)
  from membership_follows_its_lifecycle [OF this, of 2000 4000 "ReactivateMember 1000 2000 4000"] left
  show ?thesis by auto
qed

section \<open>What single operations do\<close>

lemma member_state_phase:
  assumes "schema_ok d" "member_state s d org a ro st"
  shows "phase d org a = Some st"
proof -
  from member_stateD [OF assms(2)] obtain m where m: "m \<in> set (organization_members d)" "is_member org a m"
    "om_status m = status_str st" by blast
  with phase_Some [OF assms(1) m(1,2)] show ?thesis by simp
qed

text \<open>A suspension of oneself is undone: the audit record is refused to a performer that is no longer active.\<close>

lemma self_suspension_refused:
  "\<not> audit_admitted (session_for (Actor a) c) (rewrite_member org a (\<lambda>m. m\<lparr>om_status := ''suspended''\<rparr>) d)
     i (member_suspended a) org a"
proof -
  have "\<not> in_active (session_for (Actor a) c) (rewrite_member org a (\<lambda>m. m\<lparr>om_status := ''suspended''\<rparr>) d) org"
  proof
    assume "in_active (session_for (Actor a) c) (rewrite_member org a (\<lambda>m. m\<lparr>om_status := ''suspended''\<rparr>) d) org"
    then obtain m where m: "m \<in> set (update_where (is_member org a) (\<lambda>m. m\<lparr>om_status := ''suspended''\<rparr>) (organization_members d))"
      "is_member org a m" "om_status m = ''active''"
      by (simp add: in_active_iff) (metis is_member_def)
    from m(1) obtain y where "m = (if is_member org a y then y\<lparr>om_status := ''suspended''\<rparr> else y)"
      using update_where_memberD by fastforce
    with m(2,3) show False by (simp split: if_splits)
  qed
  then show ?thesis by (simp add: audit_admitted_def may_insert_audit_def audit_row_of_def member_suspended_def)
qed

lemma active_phase:
  assumes "schema_ok d" "active_member d org p"
  shows "phase d org p = Some Active"
proof -
  from assms(2) obtain m where "m \<in> set (organization_members d)" "is_member org p m" "om_status m = ''active''"
    by (auto simp: active_member_def list_ex_iff is_member_def)
  with phase_Some [OF assms(1)] show ?thesis by (simp add: status_parse_def)
qed



lemma records_actions: "records p es evs \<Longrightarrow> map ae_action es = map (\<lambda>(org, ev). ev_action ev) evs"
  unfolding records_def
proof (induction rule: list_all2_induct)
  case (Cons e es x evs)
  obtain org ev where x: "x = (org, ev)" by fastforce
  have "e = audit_row_of (ae_id e) ev org p" using Cons(1) unfolding x prod.case .
  then have "ae_action e = ae_action (audit_row_of (ae_id e) ev org p)" by (rule arg_cong)
  then have "ae_action e = ev_action ev" by (simp add: audit_row_of_def)
  with Cons.IH x show ?case by simp
qed simp

text \<open>C31: A departure that succeeds was the actor's own and left another active owner in each of its
  organizations; it nulls the name and stamps the actor, deletes the user, every session, team membership and
  channel listing, and turns every organization membership to left and nameless, touching no one else's row; and
  it records, per organization, each team left and the membership left, then each channel left, in order.\<close>

theorem departure_is_complete_and_recorded:
  assumes "reachable api (committed c)" "wire c = Healthy" "leave_service a c = (Inr u, c')"
  shows "(\<forall>org. active_member (committed c) org a \<longrightarrow> other_owner (committed c) org a)
    \<and> (\<exists>es. audit_events (committed c') = audit_events (committed c) @ es
        \<and> records a es (departure_events (committed c) a))
    \<and> actors (committed c') = update_where (\<lambda>r. a_id r = a)
        (\<lambda>r. r\<lparr>a_display_name := None, a_deleted_at := Some (clock c)\<rparr>) (actors (committed c))
    \<and> users (committed c') = filter (\<lambda>x. u_actor_id x \<noteq> a) (users (committed c))
    \<and> sessions (committed c') = filter (\<lambda>r. s_actor r \<noteq> a) (sessions (committed c))
    \<and> organization_members (committed c') = update_where (\<lambda>m. om_actor m = a)
        (\<lambda>m. m\<lparr>om_status := ''left'', om_display_name := None\<rparr>) (organization_members (committed c))
    \<and> team_members (committed c') = filter (\<lambda>m. tm_actor m \<noteq> a) (team_members (committed c))
    \<and> channel_members (committed c') = filter (\<lambda>m. cm_actor m \<noteq> a) (channel_members (committed c))
    \<and> organizations (committed c') = organizations (committed c) \<and> teams (committed c') = teams (committed c)
    \<and> invites (committed c') = invites (committed c) \<and> channels (committed c') = channels (committed c)
    \<and> messages (committed c') = messages (committed c)"
proof -
  note run = leave_service_run [OF assms(2,3) reachable_schema [OF assms(1)], unfolded in_active_session_for]
  then have owners: "\<forall>org. active_member (committed c) org a \<longrightarrow> other_owner (committed c) org a" by (elim conjE)
  from run obtain es where
    c': "committed c' = (departed_rows a (clock c) (committed c))\<lparr>audit_events := audit_events (committed c) @ es\<rparr>"
    and es: "records a es (departure_events (committed c) a)"
    by (elim conjE exE) (rule that)
  have left: "(\<lambda>m. m\<lparr>om_status := ''left'', om_display_name := None\<rparr>) = left_row"
    by (rule ext) (simp add: left_row_def)
  have "audit_events (committed c') = audit_events (committed c) @ es" by (simp add: c')
  with es have "\<exists>es. audit_events (committed c') = audit_events (committed c) @ es
      \<and> records a es (departure_events (committed c) a)" by blast
  with owners show ?thesis
    by (intro conjI) (simp_all only:, simp_all add: c' left departed_rows_def)
qed

theorem departure_is_complete_and_recorded_witness:
  "map ae_action (drop 9 (audit_events demo_left))
     = [''team.member.removed'', ''organization.member.left'', ''channel.member.removed'']
   \<and> channel_members demo_left = []"
proof -
  have "fst (leave_service 4000 (conn_at 13 demo)) = Inr ()" by code_simp
  then have run: "leave_service 4000 (conn_at 13 demo) = (Inr (), snd (leave_service 4000 (conn_at 13 demo)))"
    by (metis prod.collapse)
  have left: "committed (snd (leave_service 4000 (conn_at 13 demo))) = demo_left" by (simp add: demo_left_def)
  have "reachable any_v7 (committed (conn_at 13 demo))" by (simp add: demo_reachable)
  from departure_is_complete_and_recorded [OF this conn_at_simps(2) run] left obtain es where
    es: "audit_events demo_left = audit_events demo @ es" "records 4000 es (departure_events demo 4000)"
    and ch: "channel_members demo_left = filter (\<lambda>m. cm_actor m \<noteq> 4000) (channel_members demo)" by auto
  have "map ae_action es = map (\<lambda>(org, ev). ev_action ev) (departure_events demo 4000)"
    by (rule records_actions [OF es(2)])
  moreover have "map (\<lambda>(org, ev). ev_action ev) (departure_events demo 4000)
      = [''team.member.removed'', ''organization.member.left'', ''channel.member.removed'']" by code_simp
  moreover have "length (audit_events demo) = 9" "filter (\<lambda>m. cm_actor m \<noteq> 4000) (channel_members demo) = []"
    by (simp_all add: demo_def)
  ultimately show ?thesis using es(1) ch by simp
qed

end
