(* ===== verification/Joining.thy ===== *)
theory Joining
  imports Lifecycle
begin

text \<open>
  Invites: every use is a recorded join, what an acceptance answers, and what creating and revoking take.
\<close>

section \<open>The ledger of an invite\<close>

definition names_invite :: "(string \<times> meta) list \<Rightarrow> invite_id option" where
  "names_invite md = (case map_of md ''invite_id'' of Some (MId i) \<Rightarrow> Some i | _ \<Rightarrow> None)"

definition is_join :: "invite_id \<Rightarrow> audit_row \<Rightarrow> bool" where
  "is_join i e \<longleftrightarrow> ae_action e = ''organization.member.added'' \<and> names_invite (ae_metadata e) = Some i"

text \<open>Every invite is for an organization and was used as often as joins with it are recorded.\<close>

definition ledger :: "db \<Rightarrow> bool" where
  "ledger d \<longleftrightarrow> (\<forall>i \<in> set (invites d). i_kind i = ''organization''
       \<and> i_used_count i = int (length (filter (is_join (i_id i)) (audit_events d))))
     \<and> (\<forall>e \<in> set (audit_events d). case names_invite (ae_metadata e) of
          None \<Rightarrow> True | Some i \<Rightarrow> i \<in> key_set i_id (invites d))"

text \<open>What everything else does: invites stay, and the records added name none.\<close>

definition quiet_growth :: "db \<Rightarrow> db \<Rightarrow> bool" where
  "quiet_growth d d' \<longleftrightarrow> invites d' = invites d \<and> (\<exists>es. audit_events d' = audit_events d @ es
     \<and> list_all (\<lambda>e. names_invite (ae_metadata e) = None) es)"

lemma quiet_growth_same: "invites d' = invites d \<Longrightarrow> audit_events d' = audit_events d \<Longrightarrow> quiet_growth d d'"
  by (simp add: quiet_growth_def)

interpretation quiet_growth: step_relation quiet_growth
proof unfold_locales
  show "quiet_growth a d" if "quiet_growth a b" "quiet_growth b d" for a b d
  proof -
    from that obtain es es' where "audit_events d = audit_events a @ es @ es'" "invites d = invites a"
      "list_all (\<lambda>e. names_invite (ae_metadata e) = None) (es @ es')"
      by (auto simp: quiet_growth_def)
    then show ?thesis unfolding quiet_growth_def by blast
  qed
qed (simp add: quiet_growth_same)

lemma ledger_quiet:
  assumes "ledger d" "quiet_growth d d'"
  shows "ledger d'"
proof -
  from assms(2) obtain es where inv: "invites d' = invites d" and es: "audit_events d' = audit_events d @ es"
    and none: "\<And>e. e \<in> set es \<Longrightarrow> names_invite (ae_metadata e) = None"
    by (auto simp: quiet_growth_def list_all_iff)
  have "filter (is_join i) es = []" for i using none by (auto simp: filter_empty_conv is_join_def)
  then show ?thesis
    using assms(1) none unfolding ledger_def inv es by (simp add: ball_Un)
qed

definition quiet :: "event \<Rightarrow> bool" where
  "quiet ev \<longleftrightarrow> names_invite (ev_metadata ev) = None"

lemma quiet_events [simp]:
  "quiet (organization_created org)" "quiet (member_added a r)" "quiet (member_role_changed a r r')"
  "quiet (member_suspended a)" "quiet (member_reactivated a)" "quiet (member_left a)" "quiet (team_created t)"
  "quiet (team_member_added a t tr)" "quiet (team_member_role_changed a t tr tr')"
  "quiet (team_member_removed a t reason)" "quiet (channel_created ch sc)" "quiet (channel_member_added a ch)"
  "quiet (channel_member_left a ch)"
  by (simp_all add: quiet_def event_defs names_invite_def split: channel_scope.split removal_reason.split)

lemma quiet_statements:
  "insert_actor s i n d = Inr (u1, d') \<Longrightarrow> quiet_growth d d'"
  "insert_user s i e h d = Inr (u1, d') \<Longrightarrow> quiet_growth d d'"
  "delete_user s i d = Inr (u1, d') \<Longrightarrow> quiet_growth d d'"
  "erase_actor s i d = Inr (u1, d') \<Longrightarrow> quiet_growth d d'"
  "insert_organization s i n sl d = Inr (u1, d') \<Longrightarrow> quiet_growth d d'"
  "insert_member s org a ro st d = Inr (u1, d') \<Longrightarrow> quiet_growth d d'"
  "set_member_role s org a r d = Inr (u1, d') \<Longrightarrow> quiet_growth d d'"
  "set_member_status s org a stat d = Inr (u1, d') \<Longrightarrow> quiet_growth d d'"
  "set_member_left s org a d = Inr (u1, d') \<Longrightarrow> quiet_growth d d'"
  "insert_team s i org n d = Inr (u1, d') \<Longrightarrow> quiet_growth d d'"
  "insert_team_member s t a org tr d = Inr (u1, d') \<Longrightarrow> quiet_growth d d'"
  "set_team_member_role s org t a tr d = Inr (u1, d') \<Longrightarrow> quiet_growth d d'"
  "delete_team_member s org t a d = Inr (n2, d') \<Longrightarrow> quiet_growth d d'"
  "delete_team_memberships s org a d = Inr (ts, d') \<Longrightarrow> quiet_growth d d'"
  "insert_channel s i org tm sc n d = Inr (u1, d') \<Longrightarrow> quiet_growth d d'"
  "insert_channel_member s org ch a d = Inr (u1, d') \<Longrightarrow> quiet_growth d d'"
  "delete_channel_memberships s org a d = Inr (u1, d') \<Longrightarrow> quiet_growth d d'"
  "bump_channel s ch org d = Inr (q, d') \<Longrightarrow> quiet_growth d d'"
  "insert_message s row d = Inr (r1, d') \<Longrightarrow> quiet_growth d d'"
  "insert_session s i a th ex d = Inr (u1, d') \<Longrightarrow> quiet_growth d d'"
  "set_session_revoked s a th d = Inr (n2, d') \<Longrightarrow> quiet_growth d d'"
  by (rule quiet_growth_same;
      auto simp: insert_actor_def insert_user_def delete_user_def erase_actor_def insert_organization_def
      insert_member_def set_member_role_def set_member_status_def set_member_left_def update_member_def
      insert_team_def insert_team_member_def set_team_member_role_def delete_team_member_def
      delete_team_memberships_def insert_channel_def insert_channel_member_def delete_channel_memberships_def
      bump_channel_def insert_message_def insert_session_def set_session_revoked_def checked_Inr Let_def
      split: sum.splits if_splits list.splits)+

lemma quiet_moves [keeps_intros]:
  "moves quiet_growth (execute (\<lambda>s. insert_actor s i n))"
  "moves quiet_growth (execute (\<lambda>s. insert_user s i e h))"
  "moves quiet_growth (execute (\<lambda>s. delete_user s i))"
  "moves quiet_growth (execute (\<lambda>s. erase_actor s i))"
  "moves quiet_growth (execute (\<lambda>s. insert_organization s i n sl))"
  "moves quiet_growth (execute (\<lambda>s. insert_member s org a ro st))"
  "moves quiet_growth (execute (\<lambda>s. set_member_role s org a r))"
  "moves quiet_growth (execute (\<lambda>s. set_member_status s org a stat))"
  "moves quiet_growth (execute (\<lambda>s. set_member_left s org a))"
  "moves quiet_growth (execute (\<lambda>s. insert_team s i org n))"
  "moves quiet_growth (execute (\<lambda>s. insert_team_member s t a org tr))"
  "moves quiet_growth (execute (\<lambda>s. set_team_member_role s org t a tr))"
  "moves quiet_growth (execute (\<lambda>s. delete_team_member s org t a))"
  "moves quiet_growth (execute (\<lambda>s. delete_team_memberships s org a))"
  "moves quiet_growth (execute (\<lambda>s. insert_channel s i org tm sc n))"
  "moves quiet_growth (execute (\<lambda>s. insert_channel_member s org ch a))"
  "moves quiet_growth (execute (\<lambda>s. delete_channel_memberships s org a))"
  "moves quiet_growth (execute (\<lambda>s. bump_channel s ch org))"
  "moves quiet_growth (execute (\<lambda>s. insert_message s (row s)))"
  "moves quiet_growth (execute (\<lambda>s. insert_session s i a th ex))"
  "moves quiet_growth (execute (\<lambda>s. set_session_revoked s a th))"
  by (rule quiet_growth.moves_execute, erule quiet_statements)+

lemma quiet_write_event:
  assumes "quiet ev"
  shows "moves quiet_growth (write_event ev org a)"
  unfolding write_event_def
proof (intro keeps_intros quiet_growth.moves_execute)
  fix i s d u d'
  assume "insert_audit s (audit_row_of i ev org a) d = Inr (u, d')"
  then have "audit_events d' = audit_events d @ [audit_row_of i ev org a]" "invites d' = invites d"
    by (auto simp: insert_audit_def checked_Inr)
  with assms show "quiet_growth d d'" by (simp add: quiet_growth_def quiet_def audit_row_of_def)
qed

lemmas quiet_event_moves [keeps_intros] = quiet_events [THEN quiet_write_event]

lemma quiet_parts [keeps_intros]:
  "moves quiet_growth (create_person e h n)" "moves quiet_growth (leave_organization org a)"
  "moves quiet_growth (leave_channels org a)"
  unfolding create_person_def leave_organization_def leave_channels_def
  by (intro keeps_intros steady_intros)+

lemma quiet_operations:
  "quiet_growth (committed c) (committed (snd (register e h n c)))"
  "quiet_growth (committed c) (committed (snd (create_organization a n sl c)))"
  "quiet_growth (committed c) (committed (snd (change_member_role p org a ro c)))"
  "quiet_growth (committed c) (committed (snd (suspend_member p org a c)))"
  "quiet_growth (committed c) (committed (snd (reactivate_member p org a c)))"
  "quiet_growth (committed c) (committed (snd (create_team p org n c)))"
  "quiet_growth (committed c) (committed (snd (add_team_member p org t a r c)))"
  "quiet_growth (committed c) (committed (snd (change_team_member_role p org t a r c)))"
  "quiet_growth (committed c) (committed (snd (remove_team_member p org t a c)))"
  "quiet_growth (committed c) (committed (snd (create_channel p org sc n c)))"
  "quiet_growth (committed c) (committed (snd (add_channel_member p org ch a c)))"
  "quiet_growth (committed c) (committed (snd (post_message api org ch a i b c)))"
  "quiet_growth (committed c) (committed (snd (sign_in e' v nt ex c)))"
  "quiet_growth (committed c) (committed (snd (revoke_session a th c)))"
  "quiet_growth (committed c) (committed (snd (leave_service a c)))"
  unfolding register_def create_organization_def change_member_role_def suspend_member_def reactivate_member_def
    create_team_def add_team_member_def change_team_member_role_def remove_team_member_def create_channel_def
    add_channel_member_def post_message_def sign_in_def revoke_session_def leave_service_def
  by (intro keeps_intros steady_intros)+

lemma quiet_keeps_ledger:
  assumes "\<And>c. quiet_growth (committed c) (committed (snd (m c)))"
  shows "kept_on_success ledger m"
proof (rule kept_on_successI)
  fix c x c'
  assume "m c = (Inr x, c')" "ledger (committed c)"
  with assms [of c] show "ledger (committed c')" by (simp add: ledger_quiet)
qed

lemma ledger_created:
  assumes "ledger d" "schema_ok d'"
    and d': "d' = audited j (invite_created org i n) org p (d\<lparr>invites := invites d @ [new_invite_row i org th ex n p x]\<rparr>)"
  shows "ledger d'"
proof -
  have "distinct (map i_id (invites d'))" using assms(2) by (simp add: schema_ok_def invites_ok_def uniq_def)
  then have fresh: "i \<notin> key_set i_id (invites d)" by (auto simp: d' key_set_def new_invite_row_def)
  have "\<not> is_join i e" if "e \<in> set (audit_events d)" for e
    using assms(1) that fresh unfolding ledger_def is_join_def by fastforce
  then have none: "filter (is_join i) (audit_events d) = []" by (simp add: filter_empty_conv)
  have quiet: "\<not> is_join k (audit_row_of j (invite_created org i n) org p)" for k
    by (simp add: is_join_def audit_row_of_def invite_created_def)
  have "names_invite (ev_metadata (invite_created org i n)) = Some i"
    by (simp add: invite_created_def names_invite_def)
  with assms(1) none quiet show ?thesis
    unfolding ledger_def d' by (auto simp: new_invite_row_def audit_row_of_def split: option.splits)
qed

lemma ledger_updated:
  assumes "ledger d" "invites d' = update_where q f (invites d)" "audit_events d' = audit_events d @ [e]"
    and f: "\<And>r. i_id (f r) = i_id r" "\<And>r. i_kind (f r) = i_kind r"
    and e: "names_invite (ae_metadata e) = Some i" "i \<in> key_set i_id (invites d)"
    and uses: "\<And>r. r \<in> set (invites d) \<Longrightarrow>
      i_used_count (if q r then f r else r) = i_used_count r + (if is_join (i_id r) e then 1 else 0)"
  shows "ledger d'"
  unfolding ledger_def
proof (intro conjI ballI)
  fix x assume "x \<in> set (invites d')"
  then obtain r where r: "r \<in> set (invites d)" and x: "x = (if q r then f r else r)"
    unfolding assms(2) using update_where_memberD by fastforce
  have r': "i_kind r = ''organization''" "i_used_count r = int (length (filter (is_join (i_id r)) (audit_events d)))"
    using assms(1) r by (auto simp: ledger_def)
  have same: "i_id x = i_id r" "i_kind x = i_kind r" using f x by simp_all
  show "i_kind x = ''organization''" using same r' by simp
  have "i_used_count x = i_used_count r + (if is_join (i_id r) e then 1 else 0)" using uses [OF r] x by simp
  then show "i_used_count x = int (length (filter (is_join (i_id x)) (audit_events d')))"
    using r' same assms(3) by simp
next
  fix x assume "x \<in> set (audit_events d')"
  moreover have "key_set i_id (invites d') = key_set i_id (invites d)"
    unfolding assms(2) by (rule key_set_update_where) (rule f)
  ultimately show "case names_invite (ae_metadata x) of None \<Rightarrow> True | Some i \<Rightarrow> i \<in> key_set i_id (invites d')"
    using assms(1,3) e by (auto simp: ledger_def split: option.splits)
qed

lemma invite_unique:
  assumes "schema_ok d" "r \<in> set (invites d)" "r' \<in> set (invites d)"
  shows "i_token_hash r = i_token_hash r' \<Longrightarrow> r = r'" and "i_id r = i_id r' \<Longrightarrow> r = r'"
  using assms by (auto simp: schema_ok_def invites_ok_def uniq_def intro: distinct_key_unique)

lemma ledger_accepted:
  assumes "wire c = Healthy" "schema_ok (committed c)" "ledger (committed c)"
    and run: "accept_invite th email h name c = (Inr (a, org), c')"
  shows "ledger (committed c')"
proof -
  let ?d = "committed c"
  from accept_invite_run [OF assms(1) run] obtain i where
    i: "i \<in> set (invites ?d)" "admits c th i" and
    c': "committed c' = audited (uuids c (Suc (drawn c))) (member_invited a (i_id i)) org a
          ((person_rows a email h name (committed c))\<lparr>
             invites := update_where (admits c th)
               (\<lambda>i. i\<lparr>i_used_count := i_used_count i + 1, i_xmin := Suc (xid (session c))\<rparr>)
               (invites (committed c)),
             organization_members := organization_members (committed c)
               @ [\<lparr>om_org = org, om_actor = a, om_role = ''member'', om_status = ''active'',
                   om_display_name = None\<rparr>]\<rparr>)" by blast
  let ?e = "audit_row_of (uuids c (Suc (drawn c))) (member_invited a (i_id i)) org a"
  have md: "names_invite (ae_metadata ?e) = Some (i_id i)"
    by (simp add: audit_row_of_def member_invited_def names_invite_def)
  have hits: "admits c th r \<longleftrightarrow> i_id r = i_id i" if "r \<in> set (invites ?d)" for r
    using invite_unique [OF assms(2) that i(1)] i(2) by (auto simp: admits_def)
  have join: "is_join k ?e \<longleftrightarrow> k = i_id i" for k
    using md by (auto simp: is_join_def audit_row_of_def member_invited_def)
  show ?thesis
  proof (rule ledger_updated [OF assms(3) _ _ _ _ md])
    show "invites (committed c') = update_where (admits c th)
       (\<lambda>i. i\<lparr>i_used_count := i_used_count i + 1, i_xmin := Suc (xid (session c))\<rparr>) (invites ?d)"
      by (simp add: c')
    show "audit_events (committed c') = audit_events ?d @ [?e]" by (simp add: c' person_rows_def)
    show "i_id i \<in> key_set i_id (invites ?d)" using i(1) by (rule key_set_member)
  qed (use hits join in auto)
qed

lemma ledger_kept: "kept_by_operations api ledger"
  unfolding kept_by_operations_def
proof (intro conjI allI)
  show "kept_on_success ledger (create_invite p org t ex n :: (create_invite_error, invite_id \<times> string) tx)" for p org t ex n
  proof (rule kept_on_successI)
    fix c x c'
    assume h: "wire c = Healthy" and run: "create_invite p org t ex n c = (Inr (x :: invite_id \<times> string), c')"
      and sch: "schema_ok (committed c)" and inv: "ledger (committed c)"
    obtain i tok where x: "x = (i, tok)" by fastforce
    have "schema_ok (committed c')" using create_invite.keeps_schema [OF sch, of p org t ex n] run by simp
    with create_invite_run [OF h run [unfolded x]] show "ledger (committed c')"
      by (elim conjE exE) (rule ledger_created [OF inv])
  qed
  show "kept_on_success ledger (revoke_invite p org k)" for p org k
  proof (rule kept_on_successI)
    fix c x c'
    assume h: "wire c = Healthy" and run: "revoke_invite p org k c = (Inr x, c')" and inv: "ledger (committed c)"
    from revoke_invite_run [OF h run] obtain i row where
      row: "invite_row_of org i (session_for (Actor p) c) (committed c) = Some row" and
      eff: "if i_revoked_at row \<noteq> None then committed c' = committed c
          else committed c' = audited (uuids c (drawn c)) (invite_revoked org i) org p
            ((committed c)\<lparr>invites := update_where (\<lambda>r. i_org r = org \<and> i_id r = i)
               (\<lambda>r. r\<lparr>i_revoked_at := Some (clock c), i_xmin := Suc (xid (session c))\<rparr>)
               (invites (committed c))\<rparr>)" by blast
    from row have known: "i \<in> key_set i_id (invites (committed c))"
      by (auto simp: invite_row_of_def key_set_def dest!: fetch_optional_SomeD)
    show "ledger (committed c')"
    proof (cases "i_revoked_at row = None")
      case False
      with eff inv show ?thesis by simp
    next
      case True
      with eff have c': "committed c' = audited (uuids c (drawn c)) (invite_revoked org i) org p
            ((committed c)\<lparr>invites := update_where (\<lambda>r. i_org r = org \<and> i_id r = i)
               (\<lambda>r. r\<lparr>i_revoked_at := Some (clock c), i_xmin := Suc (xid (session c))\<rparr>)
               (invites (committed c))\<rparr>)" by simp
      show ?thesis
      proof (rule ledger_updated [OF inv _ _ _ _ _ known])
        show "audit_events (committed c') = audit_events (committed c)
            @ [audit_row_of (uuids c (drawn c)) (invite_revoked org i) org p]" by (simp add: c')
        show "invites (committed c') = update_where (\<lambda>r. i_org r = org \<and> i_id r = i)
               (\<lambda>r. r\<lparr>i_revoked_at := Some (clock c), i_xmin := Suc (xid (session c))\<rparr>)
               (invites (committed c))" by (simp add: c')
      qed (simp_all add: audit_row_of_def invite_revoked_def names_invite_def is_join_def)
    qed
  qed
  show "kept_on_success ledger (accept_invite th e h n)" for th e h n
    by (rule kept_on_successI) (auto intro: ledger_accepted)
qed (rule quiet_keeps_ledger, rule quiet_operations)+

lemma reachable_ledger: "reachable api d \<Longrightarrow> ledger d"
  by (rule reachable_invariant [OF _ _ ledger_kept]) (simp_all add: ledger_def empty_db_def)

text \<open>C14: In every reachable database an invite was used exactly as often as joins with it are recorded, never
  more often than it allows, and only by people: each recorded join with it is an audit record of its own.\<close>

theorem invite_uses_are_recorded_joins:
  assumes "reachable api d" "i \<in> set (invites d)"
  shows "i_used_count i = int (length (filter (\<lambda>e. ae_action e = ''organization.member.added''
        \<and> map_of (ae_metadata e) ''invite_id'' = Some (MId (i_id i))) (audit_events d)))
    \<and> 0 \<le> i_used_count i \<and> i_used_count i \<le> i_max_uses i"
proof -
  have "is_join k = (\<lambda>e. ae_action e = ''organization.member.added''
      \<and> map_of (ae_metadata e) ''invite_id'' = Some (MId k))" for k
    by (auto simp: is_join_def names_invite_def split: option.splits meta.splits)
  moreover have "0 \<le> i_used_count i \<and> i_used_count i \<le> i_max_uses i"
    using reachable_schema [OF assms(1)] assms(2) by (simp add: schema_ok_def invites_ok_def invite_row_ok_def)
  ultimately show ?thesis using reachable_ledger [OF assms(1)] assms(2) by (simp add: ledger_def)
qed

theorem invite_uses_are_recorded_joins_witness:
  "length (filter (\<lambda>e. ae_action e = ''organization.member.added''
     \<and> map_of (ae_metadata e) ''invite_id'' = Some (MId 3000)) (audit_events demo)) = 1"
proof -
  have "invites demo ! 0 \<in> set (invites demo)" by (rule nth_mem) (simp add: demo_def)
  from invite_uses_are_recorded_joins [OF demo_reachable this]
  have "i_used_count (invites demo ! 0) = int (length (filter (\<lambda>e. ae_action e = ''organization.member.added''
     \<and> map_of (ae_metadata e) ''invite_id'' = Some (MId (i_id (invites demo ! 0)))) (audit_events demo)))" by blast
  moreover have "i_used_count (invites demo ! 0) = 1" "i_id (invites demo ! 0) = 3000" by (simp_all add: demo_def)
  ultimately show ?thesis by simp
qed

section \<open>What an acceptance answers\<close>

definition used_once :: "conn \<Rightarrow> invite_row \<Rightarrow> invite_row" where
  "used_once c i = i\<lparr>i_used_count := i_used_count i + 1, i_xmin := Suc (xid (session c))\<rparr>"

lemma filter_admits:
  assumes "schema_ok d" "find (admits c th) (invites d) = Some i"
  shows "filter (admits c th) (invites d) = [i]"
proof -
  have i: "i \<in> set (invites d)" "admits c th i" using find_in [OF assms(2)] by blast+
  have "filter (admits c th) (invites d) = filter (\<lambda>r. i_id r = i_id i) (invites d)"
    by (rule filter_cong) (use invite_unique [OF assms(1) _ i(1)] i(2) in \<open>auto simp: admits_def\<close>)
  also have "\<dots> = [i]"
    using assms(1) i(1) by (auto simp: schema_ok_def invites_ok_def uniq_def intro: filter_key_singleton)
  finally show ?thesis .
qed

lemma use_invite_eq:
  assumes "schema_ok d"
  shows "use_invite (session_for (InviteTokenContext th) c) th d =
    (case find (admits c th) (invites d) of
       None \<Rightarrow> Inr (None, d)
     | Some i \<Rightarrow> Inr (Some (used_once c i), d\<lparr>invites := update_where (admits c th) (used_once c) (invites d)\<rparr>))"
proof -
  let ?s = "session_for (InviteTokenContext th) c"
  have hit: "(\<lambda>i. sees_invite ?s d i \<and> usable ?s (hash_str th) i) = admits c th"
    by (rule ext) (auto simp: sees_invite_def usable_def admits_def)
  have f: "(\<lambda>i. i\<lparr>i_used_count := i_used_count i + 1, i_xmin := xid ?s\<rparr>) = used_once c"
    by (rule ext) (simp add: used_once_def)
  have guard: "\<not> guard_invite_use ?s i (used_once c i)" "sees_invite ?s d (used_once c i)" if "admits c th i" for i
    using that by (auto simp: guard_invite_use_def used_once_def admits_def sees_invite_def)
  show ?thesis
  proof (cases "find (admits c th) (invites d)")
    case None
    then have none: "filter (admits c th) (invites d) = []" "\<forall>r \<in> set (invites d). \<not> admits c th r"
      by (auto simp: find_None_iff filter_empty_conv)
    then show ?thesis using None unfolding use_invite_def hit f
      by (simp add: rls_update_def Let_def update_where_none)
  next
    case (Some i)
    with guard [of i] find_in [OF Some] show ?thesis unfolding use_invite_def hit f
      by (simp add: rls_update_def Let_def filter_admits [OF assms Some])
  qed
qed

lemma create_person_taken:
  assumes "wire c = Healthy" "bindable email" "bindable name" "bindable_str h"
    and "uuids c (drawn c) \<notin> key_set a_id (actors (view c))" "uuids c (drawn c) \<notin> key_set u_actor_id (users (view c))"
    and "ascii_lower email \<in> key_set (\<lambda>u. ascii_lower (u_email u)) (users (view c))"
  shows "\<exists>c1. create_person email h name c = (Inl create_person_error.EmailTaken, c1)"
  using assms
  by (simp add: create_person_def savepoint_def tx_simps insert_actor_def insert_user_def checked.simps
      is_self_def)

lemma user_is_actor: "schema_ok d \<Longrightarrow> a \<in> key_set u_actor_id (users d) \<Longrightarrow> a \<in> key_set a_id (actors d)"
  by (auto simp: schema_ok_def users_ok_def key_set_def)

lemma invite_organization:
  "schema_ok d \<Longrightarrow> i \<in> set (invites d) \<Longrightarrow> i_org i \<in> key_set o_id (organizations d) \<and> 0 \<le> i_used_count i"
  by (simp add: schema_ok_def invites_ok_def invite_row_ok_def)

lemma invited_member_inserted:
  assumes sch: "schema_ok d" and i: "i \<in> set (invites d)" "admits c th i" "i_kind i = ''organization''"
    and fresh: "a \<notin> key_set a_id (actors d)"
  shows "insert_member ((session_for (InviteTokenContext th) c)\<lparr>actor_setting := Some a\<rparr>) (i_org i) a ''member'' ''active''
      (person_rows a e h n (d\<lparr>invites := update_where (admits c th) (used_once c) (invites d)\<rparr>))
    = Inr ((), (person_rows a e h n (d\<lparr>invites := update_where (admits c th) (used_once c) (invites d)\<rparr>))
        \<lparr>organization_members := organization_members (person_rows a e h n (d\<lparr>invites := update_where (admits c th) (used_once c) (invites d)\<rparr>))
          @ [\<lparr>om_org = i_org i, om_actor = a, om_role = ''member'', om_status = ''active'', om_display_name = None\<rparr>]\<rparr>)"
proof -
  let ?s = "(session_for (InviteTokenContext th) c)\<lparr>actor_setting := Some a\<rparr>"
  let ?d = "person_rows a e h n (d\<lparr>invites := update_where (admits c th) (used_once c) (invites d)\<rparr>)"
  have "used_once c i \<in> set (invites ?d)"
    using i by (force simp: person_rows_def update_where_def)
  then have "invite_admits ?s ?d (i_org i)"
    unfolding invite_admits_def list_ex_iff
    by (rule bexI [rotated]) (use i invite_organization [OF sch i(1)] in \<open>simp add: used_once_def admits_def sees_invite_def\<close>)
  moreover have "(i_org i, a) \<notin> key_set (\<lambda>m. (om_org m, om_actor m)) (organization_members d)"
    using sch fresh by (auto simp: schema_ok_def members_ok_def key_set_def)
  ultimately show ?thesis
    using invite_organization [OF sch i(1)]
    by (simp add: insert_member_def Let_def checked.simps may_insert_member_def is_self_def person_rows_def
        role_all_def status_all_def)
qed

lemma invite_kinds: "reachable api d \<Longrightarrow> i \<in> set (invites d) \<Longrightarrow> i_kind i = ''organization''"
  using reachable_ledger by (auto simp: ledger_def)

lemma invite_is_usable_result:
  assumes "reachable api (committed c)" "wire c = Healthy"
  shows "fst (invite_is_usable th c) = Inr (find (admits c th) (invites (committed c)) \<noteq> None)"
proof -
  let ?d = "committed c" and ?s = "session_for (InviteTokenContext th) c"
  have "usable_invite th ?s ?d = fetch_optional (filter (admits c th) (invites ?d))"
    unfolding usable_invite_def
    by (rule arg_cong [where f = fetch_optional], rule filter_cong)
      (use invite_kinds [OF assms(1)] in \<open>auto simp: sees_invite_def admits_def\<close>)
  then have "usable_invite th ?s ?d = find (admits c th) (invites ?d)" by (simp add: find_filter)
  then show ?thesis using assms(2) by (simp add: invite_is_usable_def tx_simps)
qed

lemma unusable_refused:
  assumes "schema_ok (committed c)" "wire c = Healthy" "find (admits c th) (invites (committed c)) = None"
  shows "fst (accept_invite th email h name c) = Inl accept_invite_error.InviteUnusable"
  using assms(2,3) by (simp add: accept_invite_def tx_simps use_invite_eq [OF assms(1)])

text \<open>What remains of an acceptance once the use is taken, and the connection it runs on.\<close>

definition join_with :: "invite_row \<Rightarrow> ustring \<Rightarrow> string \<Rightarrow> ustring \<Rightarrow> (accept_invite_error, actor_id \<times> organization_id) tx" where
  "join_with i email h name = attempt accept_person_error (create_person email h name) (\<lambda>actor.
     attempt accept_invite_error.Database (execute (\<lambda>s. insert_member s (i_org i) actor ''member'' ''active'')) (\<lambda>_.
     attempt accept_invite_error.Database (write_event (member_invited actor (i_id i)) (i_org i) actor) (\<lambda>_.
     attempt accept_invite_error.Database commit (\<lambda>_.
     ok (actor, i_org i)))))"

definition taken_use :: "token_hash \<Rightarrow> conn \<Rightarrow> conn" where
  "taken_use th c = c\<lparr>session := session_for (InviteTokenContext th) c,
     view := (committed c)\<lparr>invites := update_where (admits c th) (used_once c) (invites (committed c))\<rparr>\<rparr>"

lemma usable_joins:
  assumes "schema_ok (committed c)" "wire c = Healthy" "find (admits c th) (invites (committed c)) = Some i"
    and "i_kind i = ''organization''"
  shows "accept_invite th email h name c = join_with i email h name (taken_use th c)"
proof -
  have "i_kind (used_once c i) = ''organization''" "i_org (used_once c i) = i_org i" "i_id (used_once c i) = i_id i"
    using assms(4) by (simp_all add: used_once_def)
  then show ?thesis
    using assms(2,3)
    by (simp add: accept_invite_def tx_simps use_invite_eq [OF assms(1)] accepts_new_person_iff Let_def
        join_with_def taken_use_def)
qed

lemma join_with_taken_address:
  assumes "wire c = Healthy" "bindable email" "bindable name" "bindable_str h"
    and "uuids c (drawn c) \<notin> key_set a_id (actors (committed c))" "schema_ok (committed c)"
    and "ascii_lower email \<in> (\<lambda>u. ascii_lower (u_email u)) ` set (users (committed c))"
  shows "fst (join_with i email h name (taken_use th c)) = Inl accept_invite_error.EmailTaken"
proof -
  have "uuids c (drawn c) \<notin> key_set u_actor_id (users (committed c))" using user_is_actor assms(5,6) by blast
  then have "\<exists>c2. create_person email h name (taken_use th c) = (Inl create_person_error.EmailTaken, c2)"
    using assms by (intro create_person_taken) (simp_all add: key_set_def taken_use_def)
  then obtain c2 where "create_person email h name (taken_use th c) = (Inl create_person_error.EmailTaken, c2)" ..
  then show ?thesis by (simp add: join_with_def attempt_def accept_person_error_def)
qed

lemma join_with_new_address:
  assumes h: "wire c = Healthy" "bindable email" "bindable name" "bindable_str h" and sch: "schema_ok (committed c)"
    and fresh: "uuids c (drawn c) \<notin> key_set a_id (actors (committed c))"
      "uuids c (Suc (drawn c)) \<notin> key_set ae_id (audit_events (committed c))"
    and i: "i \<in> set (invites (committed c))" "admits c th i" "i_kind i = ''organization''"
    and new: "ascii_lower email \<notin> (\<lambda>u. ascii_lower (u_email u)) ` set (users (committed c))"
  shows "fst (join_with i email h name (taken_use th c)) = Inr (uuids c (drawn c), i_org i)"
proof -
  let ?d = "committed c" and ?a = "uuids c (drawn c)"
  let ?d1 = "?d\<lparr>invites := update_where (admits c th) (used_once c) (invites ?d)\<rparr>"
  let ?d2 = "person_rows ?a email h name ?d1"
    and ?s2 = "(session_for (InviteTokenContext th) c)\<lparr>actor_setting := Some ?a\<rparr>"
  let ?d3 = "?d2\<lparr>organization_members := organization_members ?d2
    @ [\<lparr>om_org = i_org i, om_actor = ?a, om_role = ''member'', om_status = ''active'', om_display_name = None\<rparr>]\<rparr>"
  have "?a \<notin> key_set u_actor_id (users ?d)" using user_is_actor [OF sch] fresh(1) by blast
  then have person: "create_person email h name (taken_use th c)
      = (Inr ?a, (taken_use th c)\<lparr>view := ?d2, session := ?s2, drawn := Suc (drawn c)\<rparr>)"
    using h fresh(1) new by (simp add: create_person_run key_set_def taken_use_def)
  have ins: "insert_member ?s2 (i_org i) ?a ''member'' ''active'' ?d2 = Inr ((), ?d3)"
    by (rule invited_member_inserted [OF sch i fresh(1)])
  have aud: "audit_admitted ?s2 ?d3 (uuids c (Suc (drawn c))) (member_invited ?a (i_id i)) (i_org i) ?a"
    using fresh(2) invite_organization [OF sch i(1)]
    by (simp add: audit_admitted_def may_insert_audit_def audit_row_of_def in_active_iff person_rows_def)
  have "\<exists>c'. join_with i email h name (taken_use th c) = (Inr (?a, i_org i), c')"
    unfolding join_with_def
    using h(1) ins aud by (simp add: attempt_Inr [of accept_person_error] person [unfolded taken_use_def] run_simps taken_use_def)
  then show ?thesis by auto
qed

text \<open>C26: Presenting a token in a reachable database, with storable texts and unused ids drawn: refused as
  unusable unless an invite with its hash has uses left, is not revoked and not expired; refused for a taken
  e-mail address, with the use given back; otherwise a new active member of that invite's organization.\<close>

theorem acceptance_outcome:
  assumes "reachable api (committed c)" "wire c = Healthy" "bindable email" "bindable name" "bindable_str h"
    and fresh: "uuids c (drawn c) \<notin> key_set a_id (actors (committed c))"
      "uuids c (Suc (drawn c)) \<notin> key_set ae_id (audit_events (committed c))"
  shows "fst (accept_invite th email h name c) =
      (case find (admits c th) (invites (committed c)) of
         None \<Rightarrow> Inl accept_invite_error.InviteUnusable
       | Some i \<Rightarrow>
           if ascii_lower email \<in> (\<lambda>u. ascii_lower (u_email u)) ` set (users (committed c))
           then Inl accept_invite_error.EmailTaken
           else Inr (uuids c (drawn c), i_org i))
    \<and> (isl (fst (accept_invite th email h name c)) \<longrightarrow> committed (snd (accept_invite th email h name c)) = committed c)
    \<and> fst (invite_is_usable th c) = Inr (find (admits c th) (invites (committed c)) \<noteq> None)"
proof (intro conjI impI)
  have sch: "schema_ok (committed c)" by (rule reachable_schema [OF assms(1)])
  show "committed (snd (accept_invite th email h name c)) = committed c" if "isl (fst (accept_invite th email h name c))"
    using accept_invite.failure_changes_nothing [OF assms(2)] that by (metis isl_def prod.collapse)
  show "fst (invite_is_usable th c) = Inr (find (admits c th) (invites (committed c)) \<noteq> None)"
    by (rule invite_is_usable_result [OF assms(1,2)])
  show "fst (accept_invite th email h name c) =
      (case find (admits c th) (invites (committed c)) of
         None \<Rightarrow> Inl accept_invite_error.InviteUnusable
       | Some i \<Rightarrow>
           if ascii_lower email \<in> (\<lambda>u. ascii_lower (u_email u)) ` set (users (committed c))
           then Inl accept_invite_error.EmailTaken
           else Inr (uuids c (drawn c), i_org i))"
  proof (cases "find (admits c th) (invites (committed c))")
    case None
    with unusable_refused [OF sch assms(2)] show ?thesis by simp
  next
    case (Some i)
    then have i: "i \<in> set (invites (committed c))" "admits c th i" using find_in [OF Some] by blast+
    note kind = invite_kinds [OF assms(1) i(1)]
    show ?thesis
      using join_with_taken_address [OF assms(2-5) fresh(1) sch] join_with_new_address [OF assms(2-5) sch fresh i kind] Some
      by (simp add: usable_joins [OF sch assms(2) Some kind])
  qed
qed

theorem acceptance_outcome_witness:
  "fst (accept_invite (TokenHash ''ab'') (lit ''cid@x'') ''h3'' (lit ''Cid'') (conn_at 13 demo)) = Inr (13000, 2000)
   \<and> fst (accept_invite (TokenHash ''ab'') (lit ''BOB@x'') ''h3'' (lit ''Cid'') (conn_at 13 demo)) = Inl accept_invite_error.EmailTaken
   \<and> fst (accept_invite (TokenHash ''ab'') (lit ''cid@x'') ''h3'' (lit ''Cid'') (conn_at 100 demo)) = Inl accept_invite_error.InviteUnusable"
proof -
  have reach: "reachable any_v7 (committed (conn_at t demo))" for t by (simp add: demo_reachable)
  have texts: "bindable (lit ''cid@x'')" "bindable (lit ''BOB@x'')" "bindable (lit ''Cid'')" "bindable_str ''h3''"
    by code_simp+
  have ids: "uuids (conn_at 13 demo) (drawn (conn_at 13 demo)) \<notin> key_set a_id (actors (committed (conn_at 13 demo)))"
    "uuids (conn_at 13 demo) (Suc (drawn (conn_at 13 demo))) \<notin> key_set ae_id (audit_events (committed (conn_at 13 demo)))"
    "uuids (conn_at 100 demo) (drawn (conn_at 100 demo)) \<notin> key_set a_id (actors (committed (conn_at 100 demo)))"
    "uuids (conn_at 100 demo) (Suc (drawn (conn_at 100 demo))) \<notin> key_set ae_id (audit_events (committed (conn_at 100 demo)))"
    by code_simp+
  have found: "map_option i_org (find (admits (conn_at 13 demo) (TokenHash ''ab'')) (invites demo)) = Some 2000"
    "find (admits (conn_at 100 demo) (TokenHash ''ab'')) (invites demo) = None"
    "ascii_lower (lit ''cid@x'') \<notin> (\<lambda>u. ascii_lower (u_email u)) ` set (users demo)"
    "ascii_lower (lit ''BOB@x'') \<in> (\<lambda>u. ascii_lower (u_email u)) ` set (users demo)"
    by code_simp+
  have id: "uuids (conn_at 13 demo) (drawn (conn_at 13 demo)) = 13000" by (simp add: conn_at_def)
  show ?thesis
    using acceptance_outcome [OF reach conn_at_simps(2) texts(1,3,4) ids(1,2), of "TokenHash ''ab''"]
      acceptance_outcome [OF reach conn_at_simps(2) texts(2,3,4) ids(1,2), of "TokenHash ''ab''"]
      acceptance_outcome [OF reach conn_at_simps(2) texts(1,3,4) ids(3,4), of "TokenHash ''ab''"] found id
    by (auto split: option.splits)
qed

section \<open>Managing invites\<close>

lemma access_of_self:
  assumes "schema_ok d" "m \<in> set (organization_members d)" "is_member org p m"
  shows "access_of (session_for (Actor p) c) d org p cap =
    (if om_status m \<noteq> ''active'' then Inr NotAMember
     else Inr (if \<exists>ro. om_role m = role_str ro \<and> holds ro cap then Allowed else Forbidden))"
proof -
  have unique: "x = m" if "x \<in> set (organization_members d)" "om_org x = org" "om_actor x = p" for x
    using member_row_unique [OF assms(1) that(1) assms(2) _ assms(3)] that by (simp add: is_member_def)
  have "active_membership org p (session_for (Actor p) c) d = (if om_status m = ''active'' then Some m else None)"
  proof (cases "om_status m = ''active''")
    case True
    have "filter (\<lambda>x. sees_member (session_for (Actor p) c) d x \<and> om_org x = org \<and> om_actor x = p \<and> om_status x = ''active'')
        (organization_members d) = filter (\<lambda>x. (om_org x, om_actor x) = (om_org m, om_actor m)) (organization_members d)"
      by (rule filter_cong) (use unique assms(3) True in \<open>auto simp: sees_member_def is_member_def\<close>)
    also have "\<dots> = [m]"
      using assms(1,2) by (intro filter_key_singleton [where key = "\<lambda>x. (om_org x, om_actor x)"])
        (simp_all add: schema_ok_def members_ok_def uniq_def)
    finally show ?thesis using True by (simp add: active_membership_def)
  next
    case False
    then have "filter (\<lambda>x. sees_member (session_for (Actor p) c) d x \<and> om_org x = org \<and> om_actor x = p \<and> om_status x = ''active'')
        (organization_members d) = []" using unique by (auto simp: filter_empty_conv)
    then show ?thesis using False by (simp add: active_membership_def)
  qed
  moreover obtain ro where "om_role m = role_str ro"
    using assms(1,2) by (auto simp: schema_ok_def members_ok_def)
  ultimately show ?thesis by (auto simp: access_of_def)
qed

lemma attempt_failed:
  "fst (attempt f m k c) = Inl e \<Longrightarrow> (\<exists>x. f x = e) \<or> (\<exists>x c'. fst (k x c') = Inl e)"
  by (cases "m c"; cases "fst (m c)") (auto simp: attempt_def)

lemma require_failed: "fst (require e' x k c) = Inl e \<Longrightarrow> e' = e \<or> (\<exists>x. fst (k x c) = Inl e)"
  by (cases x) (auto simp: require_def throw_def)

lemma insert_invite_sees:
  assumes "filter (\<lambda>r. sees_organization s d r \<and> o_id r = org) (organizations d) \<noteq> []"
  shows "insert_invite s i org th ex n p d \<noteq> Inr (None, d')"
  using assms by (auto simp: insert_invite_def checked_Inr Let_def split: list.splits)

text \<open>What an invite operation sees of an active member: the organization, and the role it decides by.\<close>

lemma inviter_facts:
  assumes sch: "schema_ok d" and "active_member d org p"
  obtains m r where "m \<in> set (organization_members d)" "is_member org p m" "om_status m = ''active''"
    and "visible_organization org (session_for (Actor p) c) d = Some r"
    and "access_of (session_for (Actor p) c) d org p InviteMember = Inr (if om_role m = ''member'' then Forbidden else Allowed)"
    and "(\<exists>x \<in> set (organization_members d). is_member org p x \<and> om_status x = ''active'' \<and> om_role x = ''member'')
      \<longleftrightarrow> om_role m = ''member''"
proof -
  let ?s = "session_for (Actor p) c"
  from assms(2) obtain m where m: "m \<in> set (organization_members d)" "is_member org p m" "om_status m = ''active''"
    by (auto simp: active_member_def is_member_def list_ex_iff)
  have "in_active ?s d org" using assms(2) by (simp add: in_active_session_for)
  then obtain r where vis: "visible_organization org ?s d = Some r" using visible_organization_Some [OF sch] by blast
  have "is_member org p x \<Longrightarrow> x \<in> set (organization_members d) \<Longrightarrow> x = m" for x
    using member_row_unique [OF sch _ m(1) _ m(2)] by blast
  then have plain: "(\<exists>x \<in> set (organization_members d). is_member org p x \<and> om_status x = ''active'' \<and> om_role x = ''member'')
      \<longleftrightarrow> om_role m = ''member''" using m by blast
  have role: "(\<exists>ro. om_role m = role_str ro \<and> holds ro InviteMember) \<longleftrightarrow> om_role m \<noteq> ''member''"
    using sch m(1) by (auto simp: schema_ok_def members_ok_def role_all_def; metis role_str.simps)
  have "access_of ?s d org p InviteMember = Inr (if om_role m = ''member'' then Forbidden else Allowed)"
    using access_of_self [OF sch m(1,2), of c InviteMember] m(3) role by simp
  from that [OF m vis this plain] show ?thesis .
qed

lemma create_invite_allowed:
  assumes "wire c = Healthy" and vis: "visible_organization org (session_for (Actor p) c) (committed c) = Some r"
    and "access_of (session_for (Actor p) c) (committed c) org p InviteMember = Inr Allowed"
  shows "fst (create_invite p org nt ex n c) \<notin> {Inl create_invite_error.NotAMember, Inl create_invite_error.Forbidden}"
proof (cases nt)
  case None
  then show ?thesis using assms by (auto simp: create_invite_def tx_simps)
next
  case (Some tt)
  obtain tok th where t: "nt = Some (tok, th)" using Some by (cases tt) auto
  have "filter (\<lambda>r. sees_organization (session_for (Actor p) c) (committed c) r \<and> o_id r = org) (organizations (committed c)) \<noteq> []"
    using vis by (auto simp: visible_organization_def)
  then show ?thesis
    using assms by (auto simp: create_invite_def tx_simps t insert_invite_sees split: sum.splits dest!: attempt_failed)
qed

lemma revoke_invite_allowed:
  assumes "wire c = Healthy" "visible_organization org (session_for (Actor p) c) (committed c) = Some r"
    and "access_of (session_for (Actor p) c) (committed c) org p InviteMember = Inr Allowed"
  shows "fst (revoke_invite p org iv c) \<notin> {Inl revoke_invite_error.NotAMember, Inl revoke_invite_error.Forbidden}"
  using assms
  by (cases iv) (auto simp: revoke_invite_def tx_simps dest!: attempt_failed require_failed split: sum.splits if_splits)

lemma inviting_outside:
  assumes "wire c = Healthy" "\<not> active_member (committed c) org p"
  shows "fst (create_invite p org nt ex n c) = Inl create_invite_error.NotAMember"
    and "fst (revoke_invite p org iv c) = Inl revoke_invite_error.NotAMember"
    and "\<not> (\<exists>m \<in> set (organization_members (committed c)). is_member org p m \<and> om_status m = ''active'' \<and> om_role m = ''member'')"
proof -
  have "\<not> in_active (session_for (Actor p) c) (committed c) org" using assms(2) by (simp add: in_active_session_for)
  then show "fst (create_invite p org nt ex n c) = Inl create_invite_error.NotAMember"
    "fst (revoke_invite p org iv c) = Inl revoke_invite_error.NotAMember"
    using assms(1) by (simp_all add: create_invite_def revoke_invite_def tx_simps invisible_organization)
  show "\<not> (\<exists>m \<in> set (organization_members (committed c)). is_member org p m \<and> om_status m = ''active'' \<and> om_role m = ''member'')"
    using assms(2) by (auto simp: active_member_def is_member_def list_ex_iff)
qed

text \<open>C27: In a reachable database creating and revoking invites answer not a member to whoever is not an active
  member, forbidden to an active member that is neither owner nor admin, before anything about the invite is
  told; and neither answer is given to anyone else.\<close>

theorem inviting_takes_an_owner_or_admin:
  assumes "reachable api (committed c)" "wire c = Healthy"
  shows "(fst (create_invite p org nt ex n c) = Inl create_invite_error.NotAMember \<longleftrightarrow> \<not> active_member (committed c) org p)
    \<and> (fst (create_invite p org nt ex n c) = Inl create_invite_error.Forbidden \<longleftrightarrow>
        (\<exists>m \<in> set (organization_members (committed c)). is_member org p m \<and> om_status m = ''active'' \<and> om_role m = ''member''))
    \<and> (fst (revoke_invite p org iv c) = Inl revoke_invite_error.NotAMember \<longleftrightarrow> \<not> active_member (committed c) org p)
    \<and> (fst (revoke_invite p org iv c) = Inl revoke_invite_error.Forbidden \<longleftrightarrow>
        (\<exists>m \<in> set (organization_members (committed c)). is_member org p m \<and> om_status m = ''active'' \<and> om_role m = ''member''))"
proof (cases "active_member (committed c) org p")
  case False
  with inviting_outside(1,2) [OF assms(2) False] show ?thesis
    using inviting_outside(3) [OF assms(2) False] by force
next
  case True
  obtain m r where "m \<in> set (organization_members (committed c))" "is_member org p m" "om_status m = ''active''"
    and vis: "visible_organization org (session_for (Actor p) c) (committed c) = Some r"
    and access: "access_of (session_for (Actor p) c) (committed c) org p InviteMember
      = Inr (if om_role m = ''member'' then Forbidden else Allowed)"
    and plain: "(\<exists>x \<in> set (organization_members (committed c)). is_member org p x \<and> om_status x = ''active'' \<and> om_role x = ''member'')
      \<longleftrightarrow> om_role m = ''member''"
    by (rule inviter_facts [OF reachable_schema [OF assms(1)] True])
  show ?thesis
  proof (cases "om_role m = ''member''")
    case True
    then show ?thesis
      using \<open>active_member (committed c) org p\<close> assms(2) vis access plain
      by (simp add: create_invite_def revoke_invite_def tx_simps)
  next
    case False
    then have "access_of (session_for (Actor p) c) (committed c) org p InviteMember = Inr Allowed" using access by simp
    with create_invite_allowed [OF assms(2) vis this, of nt ex n] revoke_invite_allowed [OF assms(2) vis this, of iv]
    show ?thesis using True False plain by simp
  qed
qed

theorem inviting_takes_an_owner_or_admin_witness:
  "fst (create_invite 4000 2000 None 100000 5 (conn_at 13 demo)) = Inl create_invite_error.Forbidden
   \<and> fst (create_invite 4711 2000 None 100000 5 (conn_at 13 demo)) = Inl create_invite_error.NotAMember
   \<and> fst (revoke_invite 4000 2000 None (conn_at 13 demo)) = Inl revoke_invite_error.Forbidden
   \<and> fst (create_invite 1000 2000 None 100000 5 (conn_at 13 demo)) \<noteq> Inl create_invite_error.Forbidden"
proof -
  have reach: "reachable any_v7 (committed (conn_at t demo))" for t by (simp add: demo_reachable)
  have member: "\<exists>m \<in> set (organization_members (committed (conn_at 13 demo))). is_member 2000 4000 m
      \<and> om_status m = ''active'' \<and> om_role m = ''member''"
    "\<not> active_member (committed (conn_at 13 demo)) 2000 4711"
    "\<not> (\<exists>m \<in> set (organization_members (committed (conn_at 13 demo))). is_member 2000 1000 m
      \<and> om_status m = ''active'' \<and> om_role m = ''member'')"
    by code_simp+
  show ?thesis
    using inviting_takes_an_owner_or_admin [OF reach conn_at_simps(2), where p = 4000 and org = 2000 and nt = None and ex = 100000 and n = 5 and iv = None, of 13]
      inviting_takes_an_owner_or_admin [OF reach conn_at_simps(2), where p = 4711 and org = 2000 and nt = None and ex = 100000 and n = 5 and iv = None, of 13]
      inviting_takes_an_owner_or_admin [OF reach conn_at_simps(2), where p = 1000 and org = 2000 and nt = None and ex = 100000 and n = 5 and iv = None, of 13] member
    by blast
qed

end
