(* ===== verification/SessionLife.thy ===== *)
theory SessionLife
  imports Scenario Invariants
begin

text \<open>
  The life of a session: what a sign-in accepts, how long the session it opens is resolved, and what signing
  out leaves of it.
\<close>

section \<open>Resolving\<close>

definition live :: "instant \<Rightarrow> token_hash \<Rightarrow> session_row \<Rightarrow> bool" where
  "live now th r \<longleftrightarrow> s_token_hash r = hash_str th \<and> s_revoked_at r = None \<and> now < s_expires_at r"

lemma live_session_eq:
  "live_session th (session_for (SessionTokenContext th) c) d = fetch_optional (filter (live (clock c) th) (sessions d))"
proof -
  have "(\<lambda>r. sees_session (session_for (SessionTokenContext th) c) d r \<and> s_token_hash r = hash_str th
      \<and> s_revoked_at r = None \<and> s_expires_at r > tx_now (session_for (SessionTokenContext th) c)) = live (clock c) th"
    by (auto simp: sees_session_def live_def)
  then show ?thesis by (simp add: live_session_def)
qed

lemma resolve_session_result:
  "wire c = Healthy \<Longrightarrow> fst (resolve_session th c) =
     (case fetch_optional (filter (live (clock c) th) (sessions (committed c))) of
        None \<Rightarrow> Inl session_error.NoSession | Some r \<Rightarrow> Inr (s_actor r))"
  by (simp add: resolve_session_def tx_simps live_session_eq split: option.split)

lemma none_live: "(\<And>r. r \<in> set rows \<Longrightarrow> \<not> live now th r) \<Longrightarrow> filter (live now th) rows = []"
  by (simp add: filter_empty_conv)

section \<open>Signing in\<close>

lemma opened_session:
  assumes "wire c = Healthy" "sign_in email verify (Some (tok, th)) ex c = (Inr (a, tok'), c1)"
  shows "filter (live now th) (sessions (committed c1)) =
    (if now < ex then [\<lparr>s_id = uuids c (drawn c), s_actor = a, s_token_hash = hash_str th, s_expires_at = ex,
       s_revoked_at = None\<rparr>] else [])"
proof -
  from sign_in_run [OF assms] have new: "hash_str th \<notin> key_set s_token_hash (sessions (committed c))"
    and c1: "sessions (committed c1) = sessions (committed c) @ [\<lparr>s_id = uuids c (drawn c), s_actor = a,
       s_token_hash = hash_str th, s_expires_at = ex, s_revoked_at = None\<rparr>]" by auto
  have "filter (live now th) (sessions (committed c)) = []"
    by (rule none_live) (metis key_set_member live_def new)
  then show ?thesis by (simp add: c1 live_def)
qed

text \<open>C32: The session a sign-in opens resolves to the person whose password was verified, from then on and
  until exactly its expiry.\<close>

theorem sign_in_opens_a_session:
  assumes "wire c = Healthy" "sign_in email verify (Some (tok, th)) ex c = (Inr (a, tok'), c1)"
    and "wire c2 = Healthy" "committed c2 = committed c1"
  shows "tok' = tok \<and> fst (resolve_session th c2) = (if clock c2 < ex then Inr a else Inl session_error.NoSession)
    \<and> (\<exists>u \<in> set (users (committed c)). u_actor_id u = a \<and> ascii_lower (u_email u) = ascii_lower email
         \<and> verify (u_password_hash u) = Some True)"
  using sign_in_run [OF assms(1,2)] opened_session [OF assms(1,2)]
  by (auto simp: resolve_session_result [OF assms(3)] assms(4) fetch_optional_def)

theorem sign_in_opens_a_session_witness:
  "fst (resolve_session (TokenHash ''ce'') (conn_at 19 (committed (snd (sign_in (lit ''Bob@X'') (\<lambda>h. Some (h = ''h2''))
      (Some (''tok'', TokenHash ''ce'')) 20 (conn_at 13 demo)))))) = Inr 4000
   \<and> fst (resolve_session (TokenHash ''ce'') (conn_at 20 (committed (snd (sign_in (lit ''Bob@X'') (\<lambda>h. Some (h = ''h2''))
      (Some (''tok'', TokenHash ''ce'')) 20 (conn_at 13 demo)))))) = Inl session_error.NoSession"
proof -
  let ?run = "sign_in (lit ''Bob@X'') (\<lambda>h. Some (h = ''h2'')) (Some (''tok'', TokenHash ''ce'')) 20 (conn_at 13 demo)"
  have "fst ?run = Inr (4000, ''tok'')" by code_simp
  then have run: "?run = (Inr (4000, ''tok''), snd ?run)" by (metis prod.collapse)
  show ?thesis
    using sign_in_opens_a_session [OF conn_at_simps(2) run, of "conn_at 19 (committed (snd ?run))"]
      sign_in_opens_a_session [OF conn_at_simps(2) run, of "conn_at 20 (committed (snd ?run))"]
    by simp
qed

text \<open>C33: A sign-in whose address has no user, or whose password is not verified against that user's hash,
  changes nothing and answers the same in both cases: invalid credentials, unless the worker crashed. Neither
  the answer nor the connection it leaves depends on the token or the expiry.\<close>

theorem failed_credentials_look_alike:
  assumes "wire c = Healthy" "bindable email" "schema_ok (committed c)"
    and wrong: "\<And>u. u \<in> set (users (committed c)) \<Longrightarrow> ascii_lower (u_email u) = ascii_lower email \<Longrightarrow>
      verify (u_password_hash u) \<noteq> Some True"
  shows "fst (sign_in email verify t ex c)
      \<in> {Inl sign_in_error.InvalidCredentials, Inl (sign_in_error.Database WorkerCrashed)}
    \<and> ((\<forall>h. verify h \<noteq> None) \<longrightarrow> fst (sign_in email verify t ex c) = Inl sign_in_error.InvalidCredentials)
    \<and> sign_in email verify t ex c = sign_in email verify t' ex' c
    \<and> committed (snd (sign_in email verify t ex c)) = committed c"
proof -
  let ?p = "person_by_email email (session_for (SignInEmail email) c) (committed c)"
  have p: "u \<in> set (users (committed c)) \<and> ascii_lower (u_email u) = ascii_lower email" if "?p = Some u" for u
    using that by (auto simp: person_by_email_def dest: fetch_optional_SomeD)
  show ?thesis
  proof (cases ?p)
    case None
    then show ?thesis
      using assms(1,2)
      by (cases "verify dummy_password_hash") (auto simp add: sign_in_def tx_simps Let_def)
  next
    case (Some u)
    with wrong p have "verify (u_password_hash u) \<noteq> Some True" by blast
    with Some show ?thesis
      using assms(1,2)
      by (cases "verify (u_password_hash u)") (auto simp add: sign_in_def tx_simps Let_def)
  qed
qed

theorem failed_credentials_look_alike_witness:
  "fst (sign_in (lit ''nobody@x'') (\<lambda>h. Some True) (Some (''tok'', TokenHash ''ce'')) 20 (conn_at 13 demo))
     = Inl sign_in_error.InvalidCredentials
   \<and> fst (sign_in (lit ''bob@x'') (\<lambda>h. Some False) (Some (''tok'', TokenHash ''ce'')) 20 (conn_at 13 demo))
     = Inl sign_in_error.InvalidCredentials"
proof -
  have b: "bindable (lit ''nobody@x'')" "bindable (lit ''bob@x'')" by code_simp+
  have sch: "schema_ok (committed (conn_at 13 demo))" by (simp add: reachable_schema [OF demo_reachable])
  have none: "list_all (\<lambda>u. ascii_lower (u_email u) \<noteq> ascii_lower (lit ''nobody@x'')) (users demo)" by code_simp
  show ?thesis
    using failed_credentials_look_alike [OF conn_at_simps(2) b(1) sch, of "\<lambda>h. Some True" "Some (''tok'', TokenHash ''ce'')" 20]
      failed_credentials_look_alike [OF conn_at_simps(2) b(2) sch, of "\<lambda>h. Some False" "Some (''tok'', TokenHash ''ce'')" 20] none
    by (simp add: list_all_iff)
qed

section \<open>Signing out\<close>

text \<open>A sign-out leaves the session's row revoked, and every other row as it was.\<close>

lemma signed_out:
  assumes "wire c = Healthy" "revoke_session a th c = (Inr u, c1)"
  shows "\<exists>r \<in> set (sessions (committed c1)). s_token_hash r = hash_str th \<and> s_actor r = a \<and> s_revoked_at r \<noteq> None"
    and "filter (\<lambda>r. \<not> (s_token_hash r = hash_str th \<and> s_actor r = a)) (sessions (committed c1))
      = filter (\<lambda>r. \<not> (s_token_hash r = hash_str th \<and> s_actor r = a)) (sessions (committed c))"
    and "committed c1 = (committed c)\<lparr>sessions := sessions (committed c1)\<rparr>"
proof -
  let ?f = "\<lambda>r. r\<lparr>s_revoked_at := Some (case s_revoked_at r of Some t \<Rightarrow> t | None \<Rightarrow> clock c)\<rparr>"
  from revoke_session_run [OF assms] obtain r where
    r: "r \<in> set (sessions (committed c))" "s_actor r = a" "s_token_hash r = hash_str th" and
    c1: "committed c1 = (committed c)\<lparr>sessions := update_where (\<lambda>r. s_actor r = a \<and> s_token_hash r = hash_str th) ?f
      (sessions (committed c))\<rparr>" by blast
  have "?f r \<in> set (sessions (committed c1))" using r by (force simp: c1 update_where_def)
  then show "\<exists>r \<in> set (sessions (committed c1)). s_token_hash r = hash_str th \<and> s_actor r = a \<and> s_revoked_at r \<noteq> None"
    by (rule bexI [rotated]) (simp add: r)
  have "filter (\<lambda>r. \<not> (s_token_hash r = hash_str th \<and> s_actor r = a))
      (update_where (\<lambda>r. s_actor r = a \<and> s_token_hash r = hash_str th) ?f rows)
      = filter (\<lambda>r. \<not> (s_token_hash r = hash_str th \<and> s_actor r = a)) rows" for rows
    by (induction rows) auto
  then show "filter (\<lambda>r. \<not> (s_token_hash r = hash_str th \<and> s_actor r = a)) (sessions (committed c1))
      = filter (\<lambda>r. \<not> (s_token_hash r = hash_str th \<and> s_actor r = a)) (sessions (committed c))"
    by (simp add: c1)
  show "committed c1 = (committed c)\<lparr>sessions := sessions (committed c1)\<rparr>" by (simp add: c1)
qed

lemma revoked_not_resolved:
  assumes "schema_ok (committed c)" "wire c = Healthy" "r \<in> set (sessions (committed c))"
    and "s_token_hash r = hash_str th" "s_revoked_at r \<noteq> None"
  shows "fst (resolve_session th c) = Inl session_error.NoSession"
proof -
  have "uniq s_token_hash (sessions (committed c))" using assms(1) by (simp add: schema_ok_def sessions_ok_def)
  then have "x = r" if "x \<in> set (sessions (committed c))" "s_token_hash x = hash_str th" for x
    using distinct_key_unique [of s_token_hash "sessions (committed c)" x r] that assms(3,4) by (simp add: uniq_def)
  with assms(5) have "\<not> live (clock c) th x" if "x \<in> set (sessions (committed c))" for x
    using that by (auto simp: live_def)
  then have "filter (live (clock c) th) (sessions (committed c)) = []" by (rule none_live)
  then show ?thesis by (simp add: resolve_session_result [OF assms(2)] fetch_optional_def)
qed

end
