(* ===== verification/Credentials.thy ===== *)
theory Credentials
  imports Endpoints Joining SessionLife
begin

text \<open>
  What a session cookie and an invite link are good for over HTTP: who a request comes from, what a sign-in
  hands out, what an invite may promise, and in which order an acceptance is refused.
\<close>

section \<open>Who a request comes from\<close>

definition session_actor :: "library \<Rightarrow> http_request \<Rightarrow> conn \<Rightarrow> actor_id option" where
  "session_actor lib request c =
     Option.bind (jar_get lib (rq_headers request) COOKIE_NAME) (\<lambda>token.
       map_option s_actor (fetch_optional
         (filter (live (clock c) (hash_session_token (sha256 lib) token)) (sessions (committed c)))))"

lemma from_request_parts_result:
  assumes "st_pool st 0 = Healthy"
  shows "map_sum id au_actor (fst (from_request_parts lib st request c)) =
    (case session_actor lib request c of None \<Rightarrow> Inl UNAUTHORIZED | Some a \<Rightarrow> Inr a)"
proof (cases "jar_get lib (rq_headers request) COOKIE_NAME")
  case None
  then show ?thesis by (simp add: from_request_parts_def session_actor_def require_def throw_def)
next
  case (Some token)
  let ?c = "c\<lparr>wire := st_pool st 0\<rparr>" and ?h = "hash_session_token (sha256 lib) token"
  have healthy: "wire ?c = Healthy" using assms by simp
  show ?thesis
    using resolve_session_result [OF healthy, of ?h] Some
    by (cases "resolve_session ?h ?c")
      (auto simp: from_request_parts_def session_actor_def require_def attempt_def Let_def on_pool_def ok_def
        split: option.splits)
qed

lemma with_session_refused:
  assumes "st_pool st 0 = Healthy" "session_actor lib request c = None"
  shows "fst (with_session lib st request k c) = Inl UNAUTHORIZED"
    and "committed (snd (with_session lib st request k c)) = committed c"
proof -
  from from_request_parts_result [OF assms(1), of lib request c] assms(2)
  obtain c' where r: "from_request_parts lib st request c = (Inl UNAUTHORIZED, c')"
    by (cases "from_request_parts lib st request c"; cases "fst (from_request_parts lib st request c)") auto
  show "fst (with_session lib st request k c) = Inl UNAUTHORIZED"
    and "committed (snd (with_session lib st request k c)) = committed c"
    using from_request_parts_unchanged [of lib st request c] by (simp_all add: with_session_def attempt_def r)
qed

lemma session_handlers:
  "r \<in> set ROUTES \<Longrightarrow> rt_needs_session r \<Longrightarrow> \<exists>k. run_handler lib st (rt_handler r) request = with_session lib st request k"
  by (auto simp: ROUTES_def)

lemma serve_found:
  assumes "find_route router request = Found h"
  shows "serve_request lib find_route st request c =
    (if guarded request \<and> \<not> same_origin (st_origin st) request then (status_response FORBIDDEN, c)
     else map_prod (\<lambda>r. if is_client_error (rs_status r) \<or> is_server_error (rs_status r)
             then status_response (rs_status r) else r) id (respond (run_handler lib st h request) c))"
  using assms by (simp add: serve_request_def protect_eq dispatch_def)

text \<open>C18: A route that the registry marks as needing a session answers 401, and changes nothing, to every request
  that passes the guard without the cookie of a session that is open, not revoked and not expired.\<close>

theorem marked_routes_need_a_session:
  assumes "r \<in> set ROUTES" "rt_needs_session r" "find_route router request = Found (rt_handler r)"
    and "st_pool st 0 = Healthy" "session_actor lib request c = None"
  shows "fst (serve_request lib find_route st request c)
      = status_response (if guarded request \<and> \<not> same_origin (st_origin st) request then 403 else 401)
    \<and> committed (snd (serve_request lib find_route st request c)) = committed c"
proof -
  from session_handlers [OF assms(1,2)] obtain k
    where k: "run_handler lib st (rt_handler r) request = with_session lib st request k" by blast
  note refused = with_session_refused [OF assms(4,5), of k]
  obtain c' where "with_session lib st request k c = (Inl UNAUTHORIZED, c')" "committed c' = committed c"
    using refused by (metis prod.collapse)
  then have "respond (with_session lib st request k) c = (status_response 401, c')" "committed c' = committed c"
    by (simp_all add: respond_def UNAUTHORIZED_def)
  then show ?thesis
    by (simp add: serve_found [of find_route, OF assms(3)] k is_client_error_def FORBIDDEN_def)
qed

theorem marked_routes_need_a_session_witness:
  "fst (serve_request demo_lib demo_find (demo_state 13)
      (ask GET ''/api/v1/me'' ''https://chat'' [] []) (conn_at 13 demo)) = status_response 401"
proof -
  let ?r = "\<lparr>rt_method = GET, rt_path = ''/api/v1/me'', rt_websocket = False, rt_needs_session = True,
    rt_handler = MeHandler\<rparr>" and ?q = "ask GET ''/api/v1/me'' ''https://chat'' [] []"
  have r: "?r \<in> set ROUTES" "rt_needs_session ?r" by (simp_all add: ROUTES_def)
  have found: "demo_find router ?q = Found (rt_handler ?r)" by code_simp
  have pool: "st_pool (demo_state 13) 0 = Healthy" by (simp add: demo_state_def)
  have nobody: "session_actor demo_lib ?q (conn_at 13 demo) = None" by code_simp
  have same: "same_origin (st_origin (demo_state 13)) ?q"
    by (simp add: same_origin_def ask_def header_get_all_def demo_state_def)
  from marked_routes_need_a_session [of ?r demo_find, OF r found pool nobody] same show ?thesis by simp
qed

section \<open>What a sign-in hands out\<close>

lemma serve_success:
  assumes "find_route router request = Found h" "serve_request lib find_route st request c = (resp, c1)"
    and "rs_status resp < 400"
  shows "respond (run_handler lib st h request) c = (resp, c1)"
  using assms(2,3)
  by (cases "respond (run_handler lib st h request) c")
    (auto simp: serve_found [of find_route, OF assms(1)] FORBIDDEN_def is_client_error_def is_server_error_def
      split: if_splits)

lemma respond_success:
  "respond m c = (resp, c1) \<longleftrightarrow> m c = (Inr resp, c1) \<or> (\<exists>s. m c = (Inl s, c1) \<and> resp = status_response s)"
  by (auto simp: respond_def split: prod.split sum.split)

lemma respond_ok:
  "respond m c = (resp, c1) \<Longrightarrow> rs_status resp < 400 \<Longrightarrow> (\<And>s. s < 400 \<Longrightarrow> m c \<noteq> (Inl s, c1)) \<Longrightarrow> m c = (Inr resp, c1)"
  by (metis respond_success status_response_simps(1))

lemma attempt_stop:
  "attempt f m k c = (Inl e, c') \<longleftrightarrow> (\<exists>x. m c = (Inl x, c') \<and> e = f x) \<or> (\<exists>x d. m c = (Inr x, d) \<and> k x d = (Inl e, c'))"
  by (auto simp: attempt_def split: prod.splits sum.splits)

lemma require_stop:
  "require e' x k c = (Inl e, c') \<longleftrightarrow> x = None \<and> e = e' \<and> c' = c \<or> (\<exists>a. x = Some a \<and> k a c = (Inl e, c'))"
  by (auto simp: require_def throw_def split: option.split)

lemma require_ok_stop:
  "require_ok f x k c = (Inl e, c') \<longleftrightarrow> (\<exists>y. x = Inl y \<and> e = f y \<and> c' = c) \<or> (\<exists>a. x = Inr a \<and> k a c = (Inl e, c'))"
  by (auto simp: require_ok_def throw_def split: sum.split)

lemma error_statuses:
  "\<not> sign_in_error_status e < 400" "\<not> session_error_status e1 < 400" "\<not> create_error_status e2 < 400"
  "\<not> revoke_error_status e3 < 400" "\<not> accept_error_status e4 < 400"
proof -
  show "\<not> sign_in_error_status e < 400" by (cases e) (simp_all add: status_defs)
  show "\<not> session_error_status e1 < 400" by (cases e1) (simp_all add: status_defs)
  show "\<not> create_error_status e2 < 400" by (cases e2) (simp_all add: status_defs)
  show "\<not> revoke_error_status e3 < 400" by (cases e3) (simp_all add: status_defs)
  show "\<not> accept_error_status e4 < 400" by (cases e4) (simp_all add: status_defs)
qed

lemmas stops = attempt_stop require_stop require_ok_stop ok_def error_statuses status_defs

lemma attempt_go:
  "attempt f m k c = (Inr b, c') \<longleftrightarrow> (\<exists>x d. m c = (Inr x, d) \<and> k x d = (Inr b, c'))"
  by (auto simp: attempt_def split: prod.splits sum.splits)

lemma require_go: "require e x k c = (Inr b, c') \<longleftrightarrow> (\<exists>a. x = Some a \<and> k a c = (Inr b, c'))"
  by (auto simp: require_def throw_def split: option.split)

lemma require_ok_go: "require_ok f x k c = (Inr b, c') \<longleftrightarrow> (\<exists>a. x = Inr a \<and> k a c = (Inr b, c'))"
  by (auto simp: require_ok_def throw_def split: sum.split)

lemma as_object_Some: "as_object j = Some e \<longleftrightarrow> j = JObject e"
  by (cases j) auto

lemmas goes = attempt_go require_go require_ok_go run_ok_end

lemma sign_in_handler_opened:
  assumes "respond (sign_in_handler lib st request) c = (resp, c1)" "rs_status resp < 400"
  shows "\<exists>body fields email password a tok. rq_body request = Inr body \<and> from_slice lib body = Some (JObject fields)
    \<and> map_of fields (lit ''email'') = Some (JString email) \<and> map_of fields (lit ''password'') = Some (JString password)
    \<and> sign_in email (blocking_verify lib password) (result_ok (st_new_token st)) (st_now st + seconds SESSION_LIFETIME)
        (c\<lparr>wire := st_pool st 0\<rparr>) = (Inr (a, tok), c1)
    \<and> resp = (status_response NO_CONTENT)\<lparr>rs_cookies := [cookie_of (lit (session_token_str tok)) SESSION_LIFETIME]\<rparr>"
proof -
  have "sign_in_handler lib st request c = (Inr resp, c1)"
    by (rule respond_ok [OF assms]) (auto simp: sign_in_handler_def stops)
  then show ?thesis
    by (auto simp: sign_in_handler_def goes as_object_Some as_str_Some bind_eq_Some_conv on_pool_apply)
qed

text \<open>C17: A successful sign-in sets one cookie, \<open>__Host-\<close>, HttpOnly, Secure, SameSite=Strict, for the whole site and
  14 days; later requests that bring its value come from the person whose address and password were sent, and
  do so until exactly 14 days after the sign-in.\<close>

theorem sign_in_cookie_authenticates:
  assumes "find_route router request = Found SignInHandler" "st_pool st 0 = Healthy"
    and "st_new_token st = new_session_token (sha256 lib) fill"
    and "serve_request lib find_route st request c = (resp, c1)" "rs_status resp < 400"
    and brought: "jar_get lib (rq_headers later) (ck_name (hd (rs_cookies resp))) = Some (ck_value (hd (rs_cookies resp)))"
    and "committed c2 = committed c1"
  shows "\<exists>fields email password u. from_slice lib (projr (rq_body request)) = Some (JObject fields)
    \<and> map_of fields (lit ''email'') = Some (JString email) \<and> map_of fields (lit ''password'') = Some (JString password)
    \<and> u \<in> set (users (committed c)) \<and> ascii_lower (u_email u) = ascii_lower email
    \<and> blocking_verify lib password (u_password_hash u) = Some True
    \<and> session_actor lib later c2
        = (if clock c2 < st_now st + seconds (14 * 24 * 60 * 60) then Some (u_actor_id u) else None)
    \<and> rs_cookies resp = [\<lparr>ck_name = ''__Host-fukulow_session'', ck_value = ck_value (hd (rs_cookies resp)),
         ck_http_only = True, ck_secure = True, ck_same_site = Strict, ck_path = ''/'', ck_max_age = 14 * 24 * 60 * 60\<rparr>]"
proof -
  let ?c = "c\<lparr>wire := st_pool st 0\<rparr>" and ?ex = "st_now st + seconds SESSION_LIFETIME"
  have "respond (sign_in_handler lib st request) c = (resp, c1)"
    using serve_success [of find_route, OF assms(1,4,5)] by simp
  from sign_in_handler_opened [OF this assms(5)] obtain body fields email password a tok where
    body: "rq_body request = Inr body" "from_slice lib body = Some (JObject fields)"
      "map_of fields (lit ''email'') = Some (JString email)" "map_of fields (lit ''password'') = Some (JString password)"
    and run: "sign_in email (blocking_verify lib password) (result_ok (st_new_token st)) ?ex ?c = (Inr (a, tok), c1)"
    and resp: "resp = (status_response NO_CONTENT)\<lparr>rs_cookies := [cookie_of (lit (session_token_str tok)) SESSION_LIFETIME]\<rparr>"
    by blast
  have healthy: "wire ?c = Healthy" using assms(2) by simp
  from sign_in_run [OF healthy run] obtain u th where
    u: "u \<in> set (users (committed c))" "u_actor_id u = a" "ascii_lower (u_email u) = ascii_lower email"
      "blocking_verify lib password (u_password_hash u) = Some True"
    and tok: "result_ok (st_new_token st) = Some (tok, th)" by auto
  from tok assms(3) have th: "th = hash_session_token (sha256 lib) (lit (session_token_str tok))"
    by (auto simp: result_ok_def new_session_token_def Let_def split: sum.splits)
  have "filter (live (clock c2) th) (sessions (committed c1)) =
    (if clock c2 < ?ex then [\<lparr>s_id = uuids ?c (drawn ?c), s_actor = a, s_token_hash = hash_str th, s_expires_at = ?ex,
       s_revoked_at = None\<rparr>] else [])"
    by (rule opened_session [OF healthy run [unfolded tok]])
  then have "session_actor lib later c2 = (if clock c2 < ?ex then Some a else None)"
    using brought assms(7) by (simp add: session_actor_def resp cookie_of_def th)
  then show ?thesis
    using body u by (auto simp: resp cookie_of_def COOKIE_NAME_def SESSION_LIFETIME_def)
qed

text \<open>Short tokens, so that the witnesses evaluate quickly.\<close>

definition short_state :: "instant \<Rightarrow> state_data" where
  "short_state t = (demo_state t)
     \<lparr>st_new_token := new_session_token (sha256 demo_lib) (\<lambda>bs. Inr (take 1 bs) :: unit + byte list),
      st_new_invite_token := Inr (InviteToken ''t'', TokenHash ''ef'')\<rparr>"

theorem sign_in_cookie_authenticates_witness:
  "session_actor demo_lib (ask GET ''/api/v1/me'' ''https://chat'' [(COOKIE_NAME, [48, 48])] [])
     (conn_at 14 (committed (snd (serve_request demo_lib demo_find (short_state 13)
        (ask POST ''/api/v1/sessions'' ''https://chat'' [] [1]) (conn_at 13 demo))))) = Some 4000"
proof -
  let ?q = "ask POST ''/api/v1/sessions'' ''https://chat'' [] [1]"
  let ?run = "serve_request demo_lib demo_find (short_state 13) ?q (conn_at 13 demo)"
  let ?later = "ask GET ''/api/v1/me'' ''https://chat'' [(COOKIE_NAME, [48, 48])] []"
  have found: "demo_find router ?q = Found SignInHandler" by code_simp
  have token: "st_new_token (short_state 13) = new_session_token (sha256 demo_lib) (\<lambda>bs. Inr (take 1 bs) :: unit + byte list)"
    and pool: "st_pool (short_state 13) 0 = Healthy" by (simp_all add: short_state_def demo_state_def)
  have resp: "fst ?run = (status_response 204)\<lparr>rs_cookies := [cookie_of ([48, 48]) SESSION_LIFETIME]\<rparr>" by code_simp
  have brought: "jar_get demo_lib (rq_headers ?later) (ck_name (hd (rs_cookies (fst ?run))))
      = Some (ck_value (hd (rs_cookies (fst ?run))))"
    unfolding resp by code_simp
  have bob: "map_of [(lit ''email'', JString (lit ''bob@x'')), (lit ''password'', JString (lit ''secret''))] (lit ''email'')
      = Some (JString (lit ''bob@x''))"
    and doc: "from_slice demo_lib (projr (rq_body ?q)) = Some (JObject [(lit ''email'', JString (lit ''bob@x'')),
      (lit ''password'', JString (lit ''secret''))])"
    by (simp_all add: demo_lib_def demo_document_def ask_def)
  have only: "list_all (\<lambda>u. ascii_lower (u_email u) = ascii_lower (lit ''bob@x'') \<longrightarrow> u_actor_id u = 4000) (users demo)"
    by code_simp
  have status: "rs_status (fst ?run) < 400" by (simp add: resp)
  have run: "?run = (fst ?run, snd ?run)" by simp
  have c2: "committed (conn_at 14 (committed (snd ?run))) = committed (snd ?run)" by simp
  from sign_in_cookie_authenticates [of demo_find, OF found pool token run status brought c2]
  obtain fields email u where
    "from_slice demo_lib (projr (rq_body ?q)) = Some (JObject fields)" "map_of fields (lit ''email'') = Some (JString email)"
    "u \<in> set (users (committed (conn_at 13 demo)))" "ascii_lower (u_email u) = ascii_lower email"
    and actor: "session_actor demo_lib ?later (conn_at 14 (committed (snd ?run))) = (if clock (conn_at 14 (committed (snd ?run)))
       < st_now (short_state 13) + seconds (14 * 24 * 60 * 60) then Some (u_actor_id u) else None)"
    by blast
  with bob doc have "u \<in> set (users demo)" "ascii_lower (u_email u) = ascii_lower (lit ''bob@x'')" by simp_all
  with only actor show ?thesis by (simp add: short_state_def demo_state_def seconds_def list_all_iff)
qed

section \<open>What an invite may promise\<close>

lemma with_session_go:
  assumes "with_session lib st request k c = (Inr resp, c1)" "st_pool st 0 = Healthy"
  shows "\<exists>who c'. k who c' = (Inr resp, c1) \<and> session_actor lib request c = Some (au_actor who) \<and> committed c' = committed c
    \<and> uuids c' = uuids c \<and> drawn c' = drawn c"
proof -
  from assms(1) obtain who c' where r: "from_request_parts lib st request c = (Inr who, c')" "k who c' = (Inr resp, c1)"
    by (auto simp: with_session_def goes)
  have "committed c' = committed c" using from_request_parts_unchanged [of lib st request c] r by simp
  moreover have "session_actor lib request c = Some (au_actor who)"
    using from_request_parts_result [OF assms(2), of lib request c] r by (auto split: option.splits)
  moreover have "uuids c' = uuids c \<and> drawn c' = drawn c"
    using r(1) assms(2) by (auto simp: from_request_parts_def goes Let_def on_pool_apply resolve_session_run)
  ultimately show ?thesis using r(2) by blast
qed

lemma max_uses_range: "(if b then integer entries key 1 100 else Inr 1) = Inr n \<Longrightarrow> 1 \<le> n \<and> n \<le> 100"
  by (auto simp: integer_Inr split: if_splits)

lemma integer_range: "integer entries key lo hi = Inr n \<Longrightarrow> lo \<le> n \<and> n \<le> hi"
  by (simp add: integer_Inr)

lemma create_handler_created:
  assumes "create_handler lib st request who c = (Inr resp, c1)"
  obtains expires_in max_uses org formatted i tok where
    "1 \<le> max_uses" "max_uses \<le> 100" "300 \<le> expires_in" "expires_in \<le> 604800"
    "path_identifier (parse_uuid lib) (rq_path request) 4 = Inr org"
    "create_invite (au_actor who) org (result_ok (st_new_invite_token st)) (st_now st + seconds expires_in)
        max_uses (c\<lparr>wire := st_pool st 1\<rparr>) = (Inr (i, tok), c1)"
    "resp = json_response CREATED (JObject
           [(lit ''id'', JString (uuid_text lib i)),
            (lit ''token'', JString (lit (invite_token_str tok))),
            (lit ''link'', JString (st_origin st @ lit ''/invite#'' @ lit (invite_token_str tok))),
            (lit ''expires_at'', JString formatted),
            (lit ''max_uses'', JInt max_uses)])"
  using assms
  unfolding create_handler_def goes Let_def on_pool_apply split_paired_Ex prod.case sum.inject
  by (elim exE conjE) (hypsubst, rule that [OF max_uses_range [THEN conjunct1] max_uses_range [THEN conjunct2]
      integer_range [THEN conjunct1] integer_range [THEN conjunct2]], (assumption | rule refl)+)

lemma served_creation:
  assumes "find_route router request = Found CreateHandler" "st_pool st 0 = Healthy"
    and "serve_request lib find_route st request c = (resp, c1)" "rs_status resp < 400"
  obtains who c' where "create_handler lib st request who c' = (Inr resp, c1)"
    and "session_actor lib request c = Some (au_actor who)" "committed c' = committed c"
    and "uuids c' = uuids c" "drawn c' = drawn c"
proof -
  have run: "respond (with_session lib st request (create_handler lib st request)) c = (resp, c1)"
    using serve_success [of find_route, OF assms(1,3,4)] by simp
  have "with_session lib st request (create_handler lib st request) c = (Inr resp, c1)"
    by (rule respond_ok [OF run assms(4)])
      (auto simp: with_session_def from_request_parts_def create_handler_def stops Let_def
        dest!: field_errors path_identifier_Inl object_Inl split: if_splits)
  from with_session_go [OF this assms(2)] that show thesis by blast
qed

lemma inviter_role:
  assumes "access_of (session_for (Actor p) c) d org p InviteMember = Inr Allowed"
  shows "\<exists>m ro. m \<in> set (organization_members d) \<and> is_member org p m \<and> om_status m = ''active''
    \<and> om_role m = role_str ro \<and> ro \<in> {Owner, Admin}"
proof -
  from assms obtain m ro where m: "active_membership org p (session_for (Actor p) c) d = Some m"
    and ro: "om_role m = role_str ro" "holds ro InviteMember"
    unfolding access_of_Allowed by blast
  from m have "m \<in> set (organization_members d)" "is_member org p m" "om_status m = ''active''"
    unfolding active_membership_def is_member_def by (auto dest!: fetch_optional_SomeD)
  moreover have "ro \<in> {Owner, Admin}" using ro(2) by auto
  ultimately show ?thesis using ro(1) by blast
qed

definition created_fields :: "library \<Rightarrow> state_data \<Rightarrow> invite_id \<Rightarrow> invite_token \<Rightarrow> ustring \<Rightarrow> int \<Rightarrow> (ustring \<times> json) list" where
  "created_fields lib st i tok formatted max_uses =
     [(lit ''id'', JString (uuid_text lib i)), (lit ''token'', JString (lit (invite_token_str tok))),
      (lit ''link'', JString (st_origin st @ lit ''/invite#'' @ lit (invite_token_str tok))),
      (lit ''expires_at'', JString formatted), (lit ''max_uses'', JInt max_uses)]"

lemma created_fields_lookup:
  "map_of (created_fields lib st i tok formatted max_uses) (lit ''link'')
     = Some (JString (st_origin st @ lit ''/invite#'' @ lit (invite_token_str tok)))"
  "map_of (created_fields lib st i tok formatted max_uses) (lit ''max_uses'') = Some (JInt max_uses)"
  by (simp_all add: created_fields_def lit_def)

lemma result_ok_Some: "result_ok r = Some x \<Longrightarrow> r = Inr x"
  by (auto simp: result_ok_def split: sum.splits)

text \<open>C16: A created invite is for the organization of the path, was created by the session's person, who is an
  owner or admin there, lasts between 300 seconds and 7 days from now, may be used 1 to 100 times, and its
  link carries the token whose hash is stored; nothing else is changed but the audit.\<close>

theorem created_invites_are_bounded:
  assumes "find_route router request = Found CreateHandler" "st_pool st 0 = Healthy" "st_pool st 1 = Healthy"
    and "serve_request lib find_route st request c = (resp, c1)" "rs_status resp < 400"
  shows "\<exists>p org i tok th expires_in max_uses x.
    session_actor lib request c = Some p
    \<and> (\<exists>m ro. m \<in> set (organization_members (committed c)) \<and> is_member org p m \<and> om_status m = ''active''
         \<and> om_role m = role_str ro \<and> ro \<in> {Owner, Admin})
    \<and> path_identifier (parse_uuid lib) (rq_path request) 4 = Inr org
    \<and> 300 \<le> expires_in \<and> expires_in \<le> 604800 \<and> 1 \<le> max_uses \<and> max_uses \<le> 100
    \<and> st_new_invite_token st = Inr (tok, th) \<and> hash_str th \<notin> key_set i_token_hash (invites (committed c))
    \<and> committed c1 = audited (uuids c (Suc (drawn c))) (invite_created org i max_uses) org p
        ((committed c)\<lparr>invites := invites (committed c) @ [new_invite_row i org th
           (st_now st + seconds expires_in) max_uses p x]\<rparr>)
    \<and> rs_status resp = 201 \<and> (\<exists>fields. rs_body resp = JsonBody (JObject fields)
         \<and> map_of fields (lit ''link'') = Some (JString (st_origin st @ lit ''/invite#'' @ lit (invite_token_str tok)))
         \<and> map_of fields (lit ''max_uses'') = Some (JInt max_uses))"
proof -
  from served_creation [OF assms(1,2,4,5)] obtain who c' where
    handler: "create_handler lib st request who c' = (Inr resp, c1)"
    and who: "session_actor lib request c = Some (au_actor who)" "committed c' = committed c"
      "uuids c' = uuids c" "drawn c' = drawn c" .
  from create_handler_created [OF handler] obtain expires_in max_uses org formatted i tok where
    fields: "1 \<le> max_uses" "max_uses \<le> 100" "300 \<le> expires_in" "expires_in \<le> 604800"
      "path_identifier (parse_uuid lib) (rq_path request) 4 = Inr org"
    and create: "create_invite (au_actor who) org (result_ok (st_new_invite_token st)) (st_now st + seconds expires_in)
        max_uses (c'\<lparr>wire := st_pool st 1\<rparr>) = (Inr (i, tok), c1)"
    and resp: "resp = json_response CREATED (JObject (created_fields lib st i tok formatted max_uses))"
    unfolding created_fields_def .
  have "wire (c'\<lparr>wire := st_pool st 1\<rparr>) = Healthy" using assms(3) by simp
  from create_invite_run [OF this create] obtain th where
    access: "access_of (session_for (Actor (au_actor who)) (c'\<lparr>wire := st_pool st 1\<rparr>)) (committed c) org (au_actor who)
        InviteMember = Inr Allowed"
    and tok: "result_ok (st_new_invite_token st) = Some (tok, th)"
    and rest: "hash_str th \<notin> key_set i_token_hash (invites (committed c))"
      "committed c1 = audited (uuids c (Suc (drawn c))) (invite_created org i max_uses) org (au_actor who)
        ((committed c)\<lparr>invites := invites (committed c) @ [new_invite_row i org th
           (st_now st + seconds expires_in) max_uses (au_actor who) (Suc (xid (session c')))]\<rparr>)"
    by (auto simp: who)
  from inviter_role [OF access] obtain m ro where
    m: "m \<in> set (organization_members (committed c))" "is_member org (au_actor who) m" "om_status m = ''active''"
      "om_role m = role_str ro" "ro \<in> {Owner, Admin}" by blast
  have body: "rs_status resp = 201" "rs_body resp = JsonBody (JObject (created_fields lib st i tok formatted max_uses))"
    by (simp_all add: resp json_response_def CREATED_def)
  show ?thesis
    by (intro exI [of _ "au_actor who"] exI [of _ org] exI [of _ i] exI [of _ tok] exI [of _ th]
        exI [of _ expires_in] exI [of _ max_uses] exI [of _ "Suc (xid (session c'))"] conjI
        exI [of _ "created_fields lib st i tok formatted max_uses"]
        exI [of _ m] exI [of _ ro]) (fact who fields rest m body created_fields_lookup result_ok_Some [OF tok])+
qed

definition demo_ann :: db where
  "demo_ann = committed (run_request any_v7 (SignIn (lit ''ann@x'') (\<lambda>h. Some True) (Some (''c'', TokenHash ''ce'')) 1000)
     (conn_at 13 demo))"

definition anns_cookie :: headers where
  "anns_cookie = [(COOKIE_NAME, [78])]"

definition invite_request :: http_request where
  "invite_request = ask POST ''/api/v1/organizations/00000000-0000-0000-0000-0000000007d0/invites''
     ''https://chat'' anns_cookie [2]"

theorem created_invites_are_bounded_witness:
  "\<exists>i. i \<in> set (invites (committed (snd (serve_request demo_lib demo_find (short_state 14) invite_request (conn_at 14 demo_ann)))))
     \<and> i_created_by i = 1000 \<and> i_expires_at i \<le> 14 + seconds 604800 \<and> i_max_uses i \<le> 100"
proof -
  let ?run = "serve_request demo_lib demo_find (short_state 14) invite_request (conn_at 14 demo_ann)"
  have found: "demo_find router invite_request = Found CreateHandler" by code_simp
  have pool: "st_pool (short_state 14) 0 = Healthy" "st_pool (short_state 14) 1 = Healthy" by (simp_all add: short_state_def demo_state_def)
  have status: "rs_status (fst ?run) < 400" by code_simp
  have who: "session_actor demo_lib invite_request (conn_at 14 demo_ann) = Some 1000" by code_simp
  have run: "?run = (fst ?run, snd ?run)" by simp
  from created_invites_are_bounded [of demo_find, OF found pool run status]
  obtain p org j tok th expires_in max_uses x where made:
    "session_actor demo_lib invite_request (conn_at 14 demo_ann) = Some p" "expires_in \<le> 604800" "max_uses \<le> 100"
    "committed (snd ?run) = audited (uuids (conn_at 14 demo_ann) (Suc (drawn (conn_at 14 demo_ann))))
       (invite_created org j max_uses) org p ((committed (conn_at 14 demo_ann))\<lparr>invites := invites (committed (conn_at 14 demo_ann))
       @ [new_invite_row j org th (st_now (short_state 14) + seconds expires_in) max_uses p x]\<rparr>)"
    by blast
  from made(1) have "p = 1000" unfolding who by simp
  moreover have "st_now (short_state 14) = 14" by (simp add: short_state_def demo_state_def)
  ultimately show ?thesis using made(2,3)
    by (intro exI [of _ "new_invite_row j org th (14 + seconds expires_in) max_uses 1000 x"])
      (simp add: made(4) new_invite_row_def seconds_def)
qed

section \<open>The order of an acceptance's checks\<close>

lemma accept_handler_refused:
  assumes "reachable api (committed c)" "st_pool st 0 = Healthy" "rq_body request = Inr b"
    and "from_slice lib b = Some (JObject entries)" "map_of entries (lit ''token'') = Some (JString token)"
  defines "opens \<equiv> (\<exists>i \<in> set (invites (committed c)). admits c (hash_invite_token (sha256 lib) token) i)"
  assumes "\<not> opens \<or> acceptance_fields entries = Inl s"
  shows "accept_handler lib st request c = (Inl (if opens then UNPROCESSABLE_ENTITY else NOT_FOUND),
      snd (invite_is_usable (hash_invite_token (sha256 lib) token) (c\<lparr>wire := st_pool st 0\<rparr>)))"
proof -
  let ?th = "hash_invite_token (sha256 lib) token" and ?c = "c\<lparr>wire := st_pool st 0\<rparr>"
  have c: "reachable api (committed ?c)" "wire ?c = Healthy" using assms(1,2) by simp_all
  have "find (admits ?c ?th) (invites (committed ?c)) \<noteq> None \<longleftrightarrow> opens"
    by (auto simp: opens_def find_None_iff admits_def)
  with invite_is_usable_result [OF c, of ?th] obtain d where
    run: "invite_is_usable ?th ?c = (Inr opens, d)" by (cases "invite_is_usable ?th ?c") auto
  have "object (from_slice lib) (rq_body request) = Inr entries" "string_field entries (lit ''token'') = Inr token"
    using assms(3-5) by (simp_all add: object_Inr string_field_Inr)
  with run assms(7) show ?thesis
    by (auto simp: accept_handler_def Let_def require_ok_def attempt_def on_pool_apply throw_def dest: acceptance_fields_Inl)
qed

text \<open>C29: In a reachable database an acceptance whose token opens no invite that is unused, unrevoked and unexpired
  is answered 404 whatever else it says, so nothing about the other fields can be learned without a token; only
  then are ill-formed fields answered 422. Neither changes anything, and no password is hashed.\<close>

theorem acceptance_checks_the_token_first:
  assumes "reachable api (committed c)" "find_route router request = Found AcceptHandler" "st_pool st 0 = Healthy"
    and "header_get_all (rq_headers request) ''origin'' = [utf8_bytes (st_origin st)]"
    and "rq_body request = Inr b" "from_slice lib b = Some (JObject entries)"
    and "map_of entries (lit ''token'') = Some (JString token)"
    and "acceptance_fields entries = Inl s \<or> \<not> (\<exists>i \<in> set (invites (committed c)). admits c (hash_invite_token (sha256 lib) token) i)"
  shows "fst (serve_request lib find_route st request c) = status_response
      (if \<exists>i \<in> set (invites (committed c)). admits c (hash_invite_token (sha256 lib) token) i then 422 else 404)
    \<and> committed (snd (serve_request lib find_route st request c)) = committed c
    \<and> serve_request lib find_route (st\<lparr>st_hash_invite_password := hasher\<rparr>) request c
      = serve_request lib find_route st request c"
proof -
  let ?th = "hash_invite_token (sha256 lib) token" and ?st = "st\<lparr>st_hash_invite_password := hasher\<rparr>"
  let ?opens = "\<exists>i \<in> set (invites (committed c)). admits c ?th i"
  let ?d = "snd (invite_is_usable ?th (c\<lparr>wire := st_pool st 0\<rparr>))"
  have guard: "same_origin (st_origin st) request" using assms(4) by (simp add: same_origin_def)
  have pool: "st_pool ?st 0 = Healthy" using assms(3) by simp
  have "?d = ?d \<and> committed ?d = committed c" by (simp add: readers_change_nothing)
  moreover have "accept_handler lib st request c = (Inl (if ?opens then 422 else 404), ?d)"
    "accept_handler lib ?st request c = (Inl (if ?opens then 422 else 404), ?d)"
    using accept_handler_refused [OF assms(1,3,5,6,7), of s] accept_handler_refused [OF assms(1) pool assms(5,6,7), of s] assms(8)
    unfolding UNPROCESSABLE_ENTITY_def NOT_FOUND_def by auto
  ultimately show ?thesis
    by (simp add: serve_found [of find_route, OF assms(2)] guard respond_def is_client_error_def)
qed

theorem acceptance_checks_the_token_first_witness:
  "fst (serve_request demo_lib demo_find (demo_state 200)
     (ask POST ''/api/v1/invite-acceptances'' ''https://chat'' [] [3]) (conn_at 200 demo)) = status_response 404"
proof -
  let ?q = "ask POST ''/api/v1/invite-acceptances'' ''https://chat'' [] [3]" and ?c = "conn_at 200 demo"
  let ?doc = "[(lit ''token'', JString (lit ''+'')), (lit ''email'', JString (lit ''cid@x'')),
    (lit ''password'', JString (lit ''password'')), (lit ''display_name'', JString (lit '' Cid ''))]"
  have found: "demo_find router ?q = Found AcceptHandler" by code_simp
  have reach: "reachable any_v7 (committed ?c)" by (simp add: demo_reachable)
  have pool: "st_pool (demo_state 200) 0 = Healthy" by (simp add: demo_state_def)
  have origin: "header_get_all (rq_headers ?q) ''origin'' = [utf8_bytes (st_origin (demo_state 200))]"
    by (simp add: header_get_all_def ask_def demo_state_def)
  have body: "rq_body ?q = Inr [3]" "from_slice demo_lib [3] = Some (JObject ?doc)"
    "map_of ?doc (lit ''token'') = Some (JString (lit ''+''))"
    by (simp_all add: ask_def demo_lib_def demo_document_def)
  have none: "\<not> (\<exists>i \<in> set (invites (committed ?c)). admits ?c (hash_invite_token (sha256 demo_lib) (lit ''+'')) i)"
    by code_simp
  from acceptance_checks_the_token_first [of any_v7 ?c demo_find ?q "demo_state 200", OF reach found pool origin body, of 0] none
  show ?thesis by simp
qed

end
