(* ===== verification/Config.thy ===== *)
theory Config
  imports Prelude
begin

text \<open>
  \<open>crates/app/src/config.rs\<close>: the environment variables of the server, and the one form of public origin it
  accepts. The URI parser of the crate \<open>http\<close> and the socket address parser are parameters.
\<close>

text \<open>\<open>std::env::var\<close>; each message the code builds is a constructor.\<close>

datatype env_var = Present ustring | NotPresent | NotUnicode

datatype config_error =
    InvalidBindAddress
  | InspectorUrlSet
  | DatabaseUrlRequired
  | OriginRequired
  | OriginShape
  | OriginNotAsSent
  | OriginInsecure

record 'u uri_api =
  parse_uri :: "ustring \<Rightarrow> 'u option"
  uri_host :: "'u \<Rightarrow> ustring option"
  uri_authority :: "'u \<Rightarrow> ustring option"
  uri_scheme :: "'u \<Rightarrow> ustring option"

definition bind_address ::
    "(ustring \<Rightarrow> 'socket option) \<Rightarrow> 'socket \<Rightarrow> env_var \<Rightarrow> config_error + 'socket" where
  "bind_address parse_socket loopback_8080 var =
     (case var of
        Present value \<Rightarrow>
          (case parse_socket value of Some s \<Rightarrow> Inr s | None \<Rightarrow> Inl InvalidBindAddress)
      | NotPresent \<Rightarrow> Inr loopback_8080
      | NotUnicode \<Rightarrow> Inl InvalidBindAddress)"

text \<open>\<open>var_os\<close> of the inspector's URL: any value, valid Unicode or not, is refused.\<close>

definition database_url :: "env_var \<Rightarrow> env_var \<Rightarrow> config_error + ustring" where
  "database_url inspector_url url =
     (if inspector_url \<noteq> NotPresent then Inl InspectorUrlSet
      else (case url of Present value \<Rightarrow> Inr value | _ \<Rightarrow> Inl DatabaseUrlRequired))"

section \<open>Strings of the standard library\<close>

fun strip_prefix :: "ustring \<Rightarrow> ustring \<Rightarrow> ustring option" where
  "strip_prefix [] t = Some t"
| "strip_prefix (p # ps) [] = None"
| "strip_prefix (p # ps) (c # cs) = (if p = c then strip_prefix ps cs else None)"

fun split_once :: "ustring \<Rightarrow> ustring \<Rightarrow> (ustring \<times> ustring) option" where
  "split_once sep [] = (if sep = [] then Some ([], []) else None)"
| "split_once sep (c # cs) =
     (case strip_prefix sep (c # cs) of
        Some rest \<Rightarrow> Some ([], rest)
      | None \<Rightarrow> map_option (\<lambda>(before_sep, rest). (c # before_sep, rest)) (split_once sep cs))"

definition is_digit :: "nat \<Rightarrow> bool" where
  "is_digit c \<longleftrightarrow> 48 \<le> c \<and> c \<le> 57"

definition decimal_value :: "ustring \<Rightarrow> nat" where
  "decimal_value digits = foldl (\<lambda>n d. n * 10 + (d - 48)) 0 digits"

text \<open>\<open>str::parse::<u16>\<close>: decimal digits, one leading plus sign allowed, at most 65535.\<close>

definition parse_u16 :: "ustring \<Rightarrow> nat option" where
  "parse_u16 t =
     (let digits = (case t of c # cs \<Rightarrow> if c = 43 then cs else t | [] \<Rightarrow> [])
      in if digits \<noteq> [] \<and> list_all is_digit digits \<and> decimal_value digits \<le> 65535
         then Some (decimal_value digits) else None)"

fun decimal :: "nat \<Rightarrow> ustring" where
  "decimal n = (if n < 10 then [48 + n] else decimal (n div 10) @ [48 + n mod 10])"

declare decimal.simps [simp del]

section \<open>The public origin\<close>

definition validate_public_origin :: "'u uri_api \<Rightarrow> ustring \<Rightarrow> config_error + unit" where
  "validate_public_origin api value =
     (case split_once (lit ''://'') value of
        None \<Rightarrow> Inl OriginShape
      | Some (scheme, authority) \<Rightarrow>
     if authority = [] \<or> list_ex (\<lambda>c. c \<in> set (lit ''/?#@'')) authority then Inl OriginShape
     else
     (case parse_uri api value of
        None \<Rightarrow> Inl OriginShape
      | Some uri \<Rightarrow>
     (case uri_host api uri of
        None \<Rightarrow> Inl OriginShape
      | Some host \<Rightarrow>
     (case uri_authority api uri of
        None \<Rightarrow> Inl OriginShape
      | Some parsed_authority \<Rightarrow>
     if parsed_authority \<noteq> authority \<or> uri_scheme api uri \<noteq> Some scheme then Inl OriginShape
     else
     (case strip_prefix host authority of
        None \<Rightarrow> Inl OriginShape
      | Some suffix \<Rightarrow>
     (if suffix \<noteq> [] \<and>
         (case strip_prefix (lit '':'') suffix of
            None \<Rightarrow> True
          | Some port \<Rightarrow> map_option decimal (parse_u16 port) \<noteq> Some port)
      then Inl OriginShape
      else
        (let default_port = (if scheme = lit ''https'' then lit '':443''
                             else if scheme = lit ''http'' then lit '':80'' else [])
         in if value \<noteq> ascii_lower value \<or> (default_port \<noteq> [] \<and> suffix = default_port)
            then Inl OriginNotAsSent
            else if scheme \<noteq> lit ''https''
              \<and> \<not> (scheme = lit ''http'' \<and> (host = lit ''localhost'' \<or> host = lit ''127.0.0.1'' \<or> host = lit ''[::1]''))
            then Inl OriginInsecure
            else Inr ())))))))"

definition public_origin :: "'u uri_api \<Rightarrow> env_var \<Rightarrow> config_error + ustring" where
  "public_origin api var =
     (case var of
        Present value \<Rightarrow>
          (case validate_public_origin api value of Inl e \<Rightarrow> Inl e | Inr _ \<Rightarrow> Inr value)
      | _ \<Rightarrow> Inl OriginRequired)"

lemma strip_prefix_Some: "strip_prefix p t = Some r \<longleftrightarrow> t = p @ r"
  by (induction p t rule: strip_prefix.induct) auto

lemma split_once_Some: "split_once sep t = Some (a, b) \<Longrightarrow> t = a @ sep @ b"
proof (induction sep t arbitrary: a rule: split_once.induct)
  case (2 sep c cs)
  show ?case
  proof (cases "strip_prefix sep (c # cs)")
    case None
    with 2(2) obtain a' where "split_once sep cs = Some (a', b)" "a = c # a'" by auto
    with 2(1) [OF None] show ?thesis by simp
  next
    case (Some r)
    with 2(2) have "a = []" "b = r" by simp_all
    with Some show ?thesis by (simp add: strip_prefix_Some)
  qed
qed (simp split: if_splits)

lemma decimal_digits: "list_all is_digit (decimal n) \<and> decimal n \<noteq> []"
  unfolding is_digit_def [abs_def]
  by (induction n rule: decimal.induct) (subst (1 2) decimal.simps, auto)

lemma decimal_value_snoc: "decimal_value (ds @ [d]) = decimal_value ds * 10 + (d - 48)"
  by (simp add: decimal_value_def)

lemma decimal_value_decimal: "decimal_value (decimal n) = n"
proof (induction n rule: decimal.induct)
  case (1 n)
  then show ?case
    by (subst decimal.simps) (simp add: decimal_value_snoc, simp add: decimal_value_def)
qed

lemma parse_u16_decimal: "n \<le> 65535 \<Longrightarrow> parse_u16 (decimal n) = Some n"
proof -
  assume n: "n \<le> 65535"
  obtain c cs where c: "decimal n = c # cs" using decimal_digits by (cases "decimal n") blast+
  then have "c \<noteq> 43" using decimal_digits [of n] by (auto simp: is_digit_def)
  then show ?thesis using n decimal_digits [of n] decimal_value_decimal [of n]
    by (simp add: parse_u16_def c)
qed

text \<open>The form a public origin must have: scheme, host and optional port, and nothing else.\<close>

definition port_text :: "nat option \<Rightarrow> ustring" where
  "port_text port = (case port of None \<Rightarrow> [] | Some n \<Rightarrow> lit '':'' @ decimal n)"

text \<open>A host is one pair of brackets around an IPv6 address, or has no colon.\<close>

definition plain_host :: "ustring \<Rightarrow> bool" where
  "plain_host host \<longleftrightarrow>
     (if take 1 host = lit ''['' then last host = 93 \<and> 93 \<notin> set (butlast host) else 58 \<notin> set host)"

definition canonical_origin :: "ustring \<Rightarrow> bool" where
  "canonical_origin v \<longleftrightarrow> ascii_lower v = v \<and> (\<exists>scheme host port.
     v = scheme @ lit ''://'' @ host @ port_text port \<and> host @ port_text port \<noteq> []
     \<and> plain_host host \<and> (\<forall>n. port = Some n \<longrightarrow> n \<le> 65535)
     \<and> set host \<inter> set (lit ''/?#@'') = {}
     \<and> (scheme = lit ''https'' \<and> port \<noteq> Some 443
        \<or> scheme = lit ''http'' \<and> port \<noteq> Some 80 \<and> host \<in> {lit ''localhost'', lit ''127.0.0.1'', lit ''[::1]''}))"

text \<open>
  What the code relies on of \<open>http::Uri\<close>, for the texts it asks about: if the parser takes
  \<open>https://\<close> or \<open>http://\<close> followed by an authority without \<open>/ ? # @\<close>, it reports that scheme and that
  authority as they stand, and as the host what precedes the first colon, or the whole of a bracketed
  address, whose bracket the parser has seen closed. Which texts it takes is left open.
\<close>

definition host_part :: "ustring \<Rightarrow> ustring" where
  "host_part authority =
     (if take 1 authority = lit ''['' then takeWhile (\<lambda>c. c \<noteq> 93) authority @ lit '']''
      else takeWhile (\<lambda>c. c \<noteq> 58) authority)"

definition reads_uris :: "'u uri_api \<Rightarrow> bool" where
  "reads_uris api \<longleftrightarrow> (\<forall>scheme authority u.
     scheme \<in> {lit ''https'', lit ''http''} \<and> authority \<noteq> [] \<and> set authority \<inter> set (lit ''/?#@'') = {}
     \<and> parse_uri api (scheme @ lit ''://'' @ authority) = Some u \<longrightarrow>
       uri_scheme api u = Some scheme \<and> uri_authority api u = Some authority
       \<and> uri_host api u = Some (host_part authority)
       \<and> (take 1 authority = lit ''['' \<longrightarrow> 93 \<in> set authority))"

lemma reads_urisD:
  assumes "reads_uris api" "scheme \<in> {lit ''https'', lit ''http''}" "authority \<noteq> []"
    and "set authority \<inter> set (lit ''/?#@'') = {}" "parse_uri api (scheme @ lit ''://'' @ authority) = Some u"
  shows "uri_scheme api u = Some scheme" "uri_authority api u = Some authority"
    "uri_host api u = Some (host_part authority)" "take 1 authority = lit ''['' \<longrightarrow> 93 \<in> set authority"
  using assms unfolding reads_uris_def by blast+

lemma port_suffix:
  assumes "map_option decimal (parse_u16 port) = Some port"
  obtains n where "port = decimal n" "n \<le> 65535"
proof -
  from assms obtain n where n: "parse_u16 port = Some n" "port = decimal n" by auto
  then have "n \<le> 65535" by (auto simp: parse_u16_def Let_def split: if_splits)
  with n that show thesis by blast
qed

lemma result_cases:
  "(case x of None \<Rightarrow> Inl e | Some a \<Rightarrow> k a) = Inr b \<longleftrightarrow> (\<exists>a. x = Some a \<and> k a = Inr b)"
  "(if p then Inl e else m) = Inr b \<longleftrightarrow> \<not> p \<and> m = Inr b"
  "(case y of (c, d) \<Rightarrow> h c d) = Inr b \<longleftrightarrow> (\<exists>c d. y = (c, d) \<and> h c d = Inr b)"
  by (auto split: option.split prod.split)

lemma answer_cases:
  "a \<in> S \<Longrightarrow> (\<And>x. k x \<in> S) \<Longrightarrow> (case o1 of None \<Rightarrow> a | Some x \<Rightarrow> k x) \<in> S"
  "a \<in> S \<Longrightarrow> b \<in> S \<Longrightarrow> (if p then a else b) \<in> S"
  "(\<And>c d. h c d \<in> S) \<Longrightarrow> (case y of (c, d) \<Rightarrow> h c d) \<in> S"
  by (auto split: option.split prod.split)

lemma lit_inject: "lit s = lit t \<longleftrightarrow> s = t"
  by (auto simp: lit_def inj_map_eq_map inj_on_def)

lemma takeWhile_stop: "x \<in> set xs \<Longrightarrow> \<exists>ys. xs = takeWhile (\<lambda>c. c \<noteq> x) xs @ x # ys"
  by (induction xs) auto

text \<open>The host the parser reports is a plain one, and a plain host is what it reports.\<close>

lemma host_part_plain:
  assumes "take 1 authority = lit ''['' \<longrightarrow> 93 \<in> set authority"
  shows "plain_host (host_part authority)"
proof (cases "take 1 authority = lit ''[''")
  case True
  then obtain cs where a: "authority = 91 # cs" by (cases authority) (auto simp: lit_def)
  then have "93 \<notin> set (takeWhile (\<lambda>c. c \<noteq> 93) authority)" by (auto dest: set_takeWhileD)
  with a show ?thesis by (auto simp: plain_host_def host_part_def lit_def)
next
  case False
  let ?h = "takeWhile (\<lambda>c. c \<noteq> 58) authority"
  have "take 1 ?h \<noteq> lit ''[''" using False by (cases authority) (auto simp: lit_def)
  moreover have "58 \<notin> set ?h" by (auto dest: set_takeWhileD)
  ultimately show ?thesis using False by (simp add: plain_host_def host_part_def)
qed

lemma port_text_head: "port_text p = [] \<or> (\<exists>q. port_text p = 58 # q)"
  by (cases p) (auto simp: port_text_def lit_def)

lemma host_part_of_plain:
  assumes "plain_host host"
  shows "host_part (host @ port_text port) = host"
proof (cases "take 1 host = lit ''[''")
  case True
  with assms have l: "last host = 93" "93 \<notin> set (butlast host)" "host \<noteq> []"
    by (auto simp: plain_host_def lit_def)
  then obtain h where h: "host = h @ [93]" "93 \<notin> set h" using append_butlast_last_id [of host] by metis
  from True have "take 1 (host @ port_text port) = lit ''[''" by (cases host) (auto simp: lit_def)
  moreover have "takeWhile (\<lambda>c. c \<noteq> 93) (host @ port_text port) = h"
    using h by (simp add: takeWhile_append)
  ultimately show ?thesis using h by (simp add: host_part_def lit_def)
next
  case False
  with assms have n: "58 \<notin> set host" by (simp add: plain_host_def)
  then have t: "takeWhile (\<lambda>c. c \<noteq> 58) (host @ port_text port) = host"
    using port_text_head [of port] by (auto simp: takeWhile_append)
  have "take 1 (host @ port_text port) \<noteq> lit ''[''"
    using False port_text_head [of port] by (cases host) (auto simp: lit_def)
  with t show ?thesis by (simp add: host_part_def)
qed

lemma validated_parts:
  assumes "reads_uris api" "validate_public_origin api v = Inr u"
  obtains scheme authority host suffix uri where
    "split_once (lit ''://'') v = Some (scheme, authority)" "parse_uri api v = Some uri"
    and "\<not> list_ex (\<lambda>c. c \<in> set (lit ''/?#@'')) authority"
    and "strip_prefix host authority = Some suffix" "plain_host host" "authority \<noteq> []"
    and "suffix \<noteq> [] \<longrightarrow> (\<exists>p. strip_prefix (lit '':'') suffix = Some p
    \<and> map_option decimal (parse_u16 p) = Some p)"
    and "v = ascii_lower v"
    and "scheme = lit ''https'' \<longrightarrow> suffix \<noteq> lit '':443''"
    "scheme = lit ''http'' \<longrightarrow> suffix \<noteq> lit '':80''"
    and "scheme = lit ''https'' \<or> scheme = lit ''http''
    \<and> (host = lit ''localhost'' \<or> host = lit ''127.0.0.1'' \<or> host = lit ''[::1]'')"
proof -
  from assms(2) obtain scheme authority uri host suffix where
    split: "split_once (lit ''://'') v = Some (scheme, authority)"
    and clean: "\<not> (authority = [] \<or> list_ex (\<lambda>c. c \<in> set (lit ''/?#@'')) authority)"
    and uri: "parse_uri api v = Some uri" "uri_host api uri = Some host"
    and host: "strip_prefix host authority = Some suffix"
    and port: "\<not> (suffix \<noteq> [] \<and> (case strip_prefix (lit '':'') suffix of None \<Rightarrow> True
          | Some port \<Rightarrow> map_option decimal (parse_u16 port) \<noteq> Some port))"
    and sent: "\<not> (v \<noteq> ascii_lower v \<or>
        (if scheme = lit ''https'' then lit '':443'' else if scheme = lit ''http'' then lit '':80'' else []) \<noteq> []
        \<and> suffix = (if scheme = lit ''https'' then lit '':443''
                     else if scheme = lit ''http'' then lit '':80'' else []))"
    and allowed: "\<not> (scheme \<noteq> lit ''https'' \<and> \<not> (scheme = lit ''http''
        \<and> (host = lit ''localhost'' \<or> host = lit ''127.0.0.1'' \<or> host = lit ''[::1]'')))"
    unfolding validate_public_origin_def Let_def result_cases by (elim exE conjE) (hypsubst, rule that, assumption+)
  have "v = scheme @ lit ''://'' @ authority" by (rule split_once_Some [OF split])
  moreover have "scheme \<in> {lit ''https'', lit ''http''}" using allowed by blast
  moreover have "set authority \<inter> set (lit ''/?#@'') = {}" using clean by (auto simp: list_ex_iff)
  moreover have "authority \<noteq> []" using clean by blast
  moreover have "parse_uri api (scheme @ lit ''://'' @ authority) = Some uri" using uri(1) calculation(1) by simp
  ultimately have "uri_host api uri = Some (host_part authority)" "take 1 authority = lit ''['' \<longrightarrow> 93 \<in> set authority"
    using reads_urisD [OF assms(1), of scheme authority uri] by blast+
  with uri(2) have "host = host_part authority" "take 1 authority = lit ''['' \<longrightarrow> 93 \<in> set authority" by simp_all
  then have plain: "plain_host host" using host_part_plain by blast
  show thesis
  proof (rule that [OF split uri(1) _ host plain])
    show "authority \<noteq> []" using clean by blast
    show "scheme = lit ''https'' \<longrightarrow> suffix \<noteq> lit '':443''" using sent by (auto simp: lit_def)
    show "scheme = lit ''http'' \<longrightarrow> suffix \<noteq> lit '':80''" using sent by (auto simp: lit_def)
    show "suffix \<noteq> [] \<longrightarrow> (\<exists>p. strip_prefix (lit '':'') suffix = Some p \<and> map_option decimal (parse_u16 p) = Some p)"
      using port by (auto simp del: option.map_disc_iff split: option.splits)
  qed (use clean sent allowed in blast)+
qed

lemma suffix_is_port:
  assumes "suffix \<noteq> [] \<Longrightarrow> \<exists>p. strip_prefix (lit '':'') suffix = Some p \<and> map_option decimal (parse_u16 p) = Some p"
  obtains port where "suffix = port_text port" "\<And>n. port = Some n \<Longrightarrow> n \<le> 65535"
proof (cases "suffix = []")
  case True
  then show thesis by (intro that [of None]) (simp_all add: port_text_def)
next
  case False
  with assms obtain q where q: "suffix = lit '':'' @ q" "map_option decimal (parse_u16 q) = Some q"
    by (auto simp: strip_prefix_Some)
  from q(2) obtain n where "q = decimal n" "n \<le> 65535" by (rule port_suffix)
  with q(1) show thesis by (intro that [of "Some n"]) (simp_all add: port_text_def)
qed

lemma validate_public_origin_ok:
  assumes "reads_uris api" "validate_public_origin api v = Inr u"
  shows "canonical_origin v \<and> (\<exists>uri. parse_uri api v = Some uri)"
proof -
  obtain scheme authority host suffix uri where
    split: "split_once (lit ''://'') v = Some (scheme, authority)" and uri: "parse_uri api v = Some uri"
    and clean: "\<not> list_ex (\<lambda>c. c \<in> set (lit ''/?#@'')) authority"
    and host: "strip_prefix host authority = Some suffix" "plain_host host" "authority \<noteq> []"
    and port: "suffix \<noteq> [] \<longrightarrow> (\<exists>p. strip_prefix (lit '':'') suffix = Some p
        \<and> map_option decimal (parse_u16 p) = Some p)"
    and lower: "v = ascii_lower v"
    and default: "scheme = lit ''https'' \<longrightarrow> suffix \<noteq> lit '':443''"
      "scheme = lit ''http'' \<longrightarrow> suffix \<noteq> lit '':80''"
    and allowed: "scheme = lit ''https'' \<or> scheme = lit ''http''
        \<and> (host = lit ''localhost'' \<or> host = lit ''127.0.0.1'' \<or> host = lit ''[::1]'')"
    using assms by (rule validated_parts)
  have authority: "authority = host @ suffix" using host(1) by (simp add: strip_prefix_Some)
  have set: "set host \<inter> set (lit ''/?#@'') = {}" using clean unfolding authority by (auto simp: list_ex_iff)
  obtain port where p: "suffix = port_text port" "\<And>n. port = Some n \<Longrightarrow> n \<le> 65535"
    using suffix_is_port [of suffix] port by blast
  have "decimal 443 = lit ''443''" "decimal 80 = lit ''80''" by (simp_all add: decimal.simps lit_def)
  then have "scheme = lit ''https'' \<longrightarrow> port \<noteq> Some 443" "scheme = lit ''http'' \<longrightarrow> port \<noteq> Some 80"
    using p(1) default by (auto simp: port_text_def lit_def)
  with allowed have ok: "scheme = lit ''https'' \<and> port \<noteq> Some 443
      \<or> scheme = lit ''http'' \<and> port \<noteq> Some 80 \<and> host \<in> {lit ''localhost'', lit ''127.0.0.1'', lit ''[::1]''}"
    by blast
  have "v = scheme @ lit ''://'' @ host @ port_text port" "host @ port_text port \<noteq> []"
    using split_once_Some [OF split] p(1) host(3) unfolding authority by metis+
  with set ok p host(2) lower [symmetric] have "canonical_origin v"
    unfolding canonical_origin_def by blast
  with uri show ?thesis by blast
qed

section \<open>Exactly the canonical origins\<close>

lemma split_once_scheme: "58 \<notin> set a \<Longrightarrow> split_once (lit ''://'') (a @ lit ''://'' @ b) = Some (a, b)"
  by (induction a) (auto simp: lit_def)

lemma decimal_range: "c \<in> set (decimal n) \<Longrightarrow> 48 \<le> c \<and> c \<le> 57"
  using decimal_digits [of n] by (auto simp: list_all_iff is_digit_def)

lemma port_text_inject: "port_text p = port_text q \<longleftrightarrow> p = q"
proof (cases p; cases q)
  fix m n assume pq: "p = Some m" "q = Some n"
  have "decimal m = decimal n \<longleftrightarrow> m = n" using decimal_value_decimal by metis
  with pq show ?thesis by (simp add: port_text_def lit_def)
qed (auto simp: port_text_def lit_def)

text \<open>The parts of a canonical origin are determined by it, so the checks read the parts it was made of.\<close>

lemma validate_canonical:
  assumes "reads_uris api" "canonical_origin v" "parse_uri api v = Some u"
  shows "validate_public_origin api v = Inr ()"
proof -
  from assms(2) obtain scheme host port where
    v: "v = scheme @ lit ''://'' @ host @ port_text port" and ne: "host @ port_text port \<noteq> []"
    and plain: "plain_host host" and range: "\<And>n. port = Some n \<Longrightarrow> n \<le> 65535"
    and clean: "set host \<inter> set (lit ''/?#@'') = {}" and lower: "ascii_lower v = v"
    and ok: "scheme = lit ''https'' \<and> port \<noteq> Some 443
      \<or> scheme = lit ''http'' \<and> port \<noteq> Some 80 \<and> host \<in> {lit ''localhost'', lit ''127.0.0.1'', lit ''[::1]''}"
    unfolding canonical_origin_def by blast
  have scheme: "scheme \<in> {lit ''https'', lit ''http''}" using ok by blast
  then have "58 \<notin> set scheme" by (auto simp: lit_def)
  then have split: "split_once (lit ''://'') v = Some (scheme, host @ port_text port)"
    by (simp add: v split_once_scheme)
  have digits: "set (port_text port) \<inter> set (lit ''/?#@'') = {}"
    by (auto simp: port_text_def lit_def dest: decimal_range split: option.splits)
  with clean have forbidden: "set (host @ port_text port) \<inter> set (lit ''/?#@'') = {}" by auto
  have u: "uri_host api u = Some host" "uri_authority api u = Some (host @ port_text port)"
    "uri_scheme api u = Some scheme"
    using reads_urisD [OF assms(1) scheme ne forbidden assms(3) [unfolded v]]
    unfolding host_part_of_plain [OF plain] by blast+
  have okport: "port_text port \<noteq> [] \<Longrightarrow> \<exists>q. strip_prefix (lit '':'') (port_text port) = Some q
      \<and> map_option decimal (parse_u16 q) = Some q"
    using range by (cases port) (auto simp: port_text_def strip_prefix_Some parse_u16_decimal)
  have "port_text port \<noteq> port_text (Some 443)" if "scheme = lit ''https''" using ok that by (auto simp: port_text_inject lit_def)
  moreover have "port_text port \<noteq> port_text (Some 80)" if "scheme = lit ''http''" using ok that by (auto simp: port_text_inject lit_def)
  moreover have "port_text (Some 443) = lit '':443''" "port_text (Some 80) = lit '':80''"
    by (simp_all add: port_text_def decimal.simps lit_def)
  ultimately have default: "scheme = lit ''https'' \<Longrightarrow> port_text port \<noteq> lit '':443''"
    "scheme = lit ''http'' \<Longrightarrow> port_text port \<noteq> lit '':80''" by simp_all
  have clean': "\<not> list_ex (\<lambda>c. c \<in> set (lit ''/?#@'')) (host @ port_text port)"
    using forbidden by (auto simp: list_ex_iff)
  have host: "strip_prefix host (host @ port_text port) = Some (port_text port)" by (simp add: strip_prefix_Some)
  show ?thesis
    unfolding validate_public_origin_def Let_def result_cases
  proof (intro exI conjI)
    show "split_once (lit ''://'') v = Some (scheme, host @ port_text port)" by (rule split)
    show "parse_uri api v = Some u" by (rule assms(3))
  qed (use u host clean' ne lower default ok okport in \<open>auto simp del: append_is_Nil_conv split: option.splits\<close>)
qed

text \<open>C35: Of the values the URI parser takes, a public origin is accepted exactly when it is written in the one
  form the guard can compare: lower case, https (or http on one of the three loopback names), a host without
  path, query, fragment or credentials, and a port only when it is not the scheme's default, in decimal without
  leading zeros and at most 65535. The value is kept as it is; every other value is an error, and so is a
  missing one.\<close>

theorem accepted_origins_are_canonical:
  assumes "reads_uris api"
  shows "(public_origin api (Present v) = Inr v \<longleftrightarrow> canonical_origin v \<and> parse_uri api v \<noteq> None)
    \<and> (\<not> (canonical_origin v \<and> parse_uri api v \<noteq> None)
         \<longleftrightarrow> public_origin api (Present v) \<in> {Inl OriginShape, Inl OriginNotAsSent, Inl OriginInsecure})
    \<and> public_origin api NotPresent = Inl OriginRequired \<and> public_origin api NotUnicode = Inl OriginRequired"
proof -
  have "validate_public_origin api v = Inr () \<longleftrightarrow> canonical_origin v \<and> parse_uri api v \<noteq> None"
    using validate_public_origin_ok [OF assms] validate_canonical [OF assms] by blast
  moreover have "validate_public_origin api v \<in> {Inr (), Inl OriginShape, Inl OriginNotAsSent, Inl OriginInsecure}"
    unfolding validate_public_origin_def Let_def by (intro answer_cases) simp_all
  ultimately show ?thesis by (auto simp: public_origin_def)
qed

text \<open>A parser that keeps the promise, for texts with a scheme, an authority and perhaps a path.\<close>

definition sample_uris :: "(ustring \<times> ustring) uri_api" where
  "sample_uris = \<lparr>parse_uri = (\<lambda>v. case split_once (lit ''://'') v of None \<Rightarrow> None
       | Some (scheme, rest) \<Rightarrow>
           (let authority = takeWhile (\<lambda>c. c \<notin> set (lit ''/?#'')) rest
            in if authority = [] \<or> (take 1 authority = lit ''['' \<and> 93 \<notin> set authority) then None
               else Some (scheme, authority))),
     uri_host = (\<lambda>u. Some (host_part (snd u))), uri_authority = (\<lambda>u. Some (snd u)),
     uri_scheme = (\<lambda>u. Some (fst u))\<rparr>"

lemma sample_uris_reads: "reads_uris sample_uris"
  unfolding reads_uris_def
proof (intro allI impI, elim conjE)
  fix scheme authority u
  assume s: "scheme \<in> {lit ''https'', lit ''http''}" and ne: "authority \<noteq> []"
    and clean: "set authority \<inter> set (lit ''/?#@'') = {}"
    and p: "parse_uri sample_uris (scheme @ lit ''://'' @ authority) = Some u"
  from s have "58 \<notin> set scheme" by (auto simp: lit_def)
  then have split: "split_once (lit ''://'') (scheme @ lit ''://'' @ authority) = Some (scheme, authority)"
    by (rule split_once_scheme)
  have "takeWhile (\<lambda>c. c \<notin> set (lit ''/?#'')) authority = authority"
    using clean by (auto simp: takeWhile_eq_all_conv lit_def)
  with p split have "u = (scheme, authority)" "take 1 authority = lit ''['' \<longrightarrow> 93 \<in> set authority"
    by (auto simp: sample_uris_def split: if_splits)
  then show "uri_scheme sample_uris u = Some scheme \<and> uri_authority sample_uris u = Some authority
      \<and> uri_host sample_uris u = Some (host_part authority) \<and> (take 1 authority = lit ''['' \<longrightarrow> 93 \<in> set authority)"
    by (simp add: sample_uris_def)
qed

theorem accepted_origins_are_canonical_witness:
  "reads_uris sample_uris
   \<and> public_origin sample_uris (Present (lit ''https://chat:8443'')) = Inr (lit ''https://chat:8443'')
   \<and> canonical_origin (lit ''https://chat:8443'') \<and> canonical_origin (lit ''http://[::1]:8080'')
   \<and> public_origin sample_uris (Present (lit ''https://chat/'')) = Inl OriginShape
   \<and> \<not> canonical_origin (lit ''https://chat/'') \<and> \<not> canonical_origin (lit ''https://chat:443'')
   \<and> \<not> canonical_origin (lit ''https://chat:08443'') \<and> \<not> canonical_origin (lit ''http://chat'')"
proof -
  have evals: "public_origin sample_uris (Present (lit ''https://chat:8443'')) = Inr (lit ''https://chat:8443'')"
    "public_origin sample_uris (Present (lit ''http://[::1]:8080'')) = Inr (lit ''http://[::1]:8080'')"
    "public_origin sample_uris (Present (lit ''https://chat/'')) = Inl OriginShape"
    "public_origin sample_uris (Present (lit ''https://chat:443'')) = Inl OriginNotAsSent"
    "public_origin sample_uris (Present (lit ''https://chat:08443'')) = Inl OriginShape"
    "public_origin sample_uris (Present (lit ''http://chat'')) = Inl OriginInsecure"
    by (simp_all add: public_origin_def validate_public_origin_def sample_uris_def host_part_def parse_u16_def
        decimal_value_def decimal.simps is_digit_def ascii_lower_def ascii_lower_char_def lit_def)
  have parsed: "parse_uri sample_uris v \<noteq> None" if "v \<in> {lit ''https://chat/'', lit ''https://chat:443'',
      lit ''https://chat:08443'', lit ''http://chat''}" for v
    using that by (auto simp: sample_uris_def lit_def)
  note law = accepted_origins_are_canonical [OF sample_uris_reads]
  show ?thesis
    using sample_uris_reads evals parsed law [of "lit ''https://chat:8443''"] law [of "lit ''http://[::1]:8080''"]
      law [of "lit ''https://chat/''"] law [of "lit ''https://chat:443''"] law [of "lit ''https://chat:08443''"]
      law [of "lit ''http://chat''"]
    by simp
qed

end
