(* ===== verification/Accountability.thy ===== *)
theory Accountability
  imports Lifecycle Scenario
begin

text \<open>
  The audit log as an account of the administration: nothing an organization consists of changes without a
  record that names who acted, and no record is written in another's name.
\<close>

section \<open>What an organization consists of\<close>

record governance =
  g_organizations :: "organization_row list"
  g_members :: "(organization_id \<times> actor_id \<times> string \<times> string) list"
  g_teams :: "team_row list"
  g_team_members :: "team_member_row list"
  g_invites :: "invite_row list"
  g_channels :: "(channel_id \<times> organization_id \<times> team_id option \<times> string \<times> ustring) list"
  g_channel_members :: "channel_member_row list"

definition governance_of :: "db \<Rightarrow> governance" where
  "governance_of d = \<lparr>g_organizations = organizations d,
     g_members = map (\<lambda>m. (om_org m, om_actor m, om_role m, om_status m)) (organization_members d),
     g_teams = teams d, g_team_members = team_members d, g_invites = invites d,
     g_channels = map channel_identity (channels d), g_channel_members = channel_members d\<rparr>"

text \<open>Who a request names as acting; an acceptance is recorded in the name of the person it creates.\<close>

fun acts_for :: "request \<Rightarrow> actor_id option" where
  "acts_for (CreateOrganization a n sl) = Some a"
| "acts_for (ChangeMemberRole p org a r) = Some p"
| "acts_for (SuspendMember p org a) = Some p"
| "acts_for (ReactivateMember p org a) = Some p"
| "acts_for (CreateTeam p org n) = Some p"
| "acts_for (AddTeamMember p org t a r) = Some p"
| "acts_for (ChangeTeamMemberRole p org t a r) = Some p"
| "acts_for (RemoveTeamMember p org t a) = Some p"
| "acts_for (CreateChannel p org sc n) = Some p"
| "acts_for (AddChannelMember p org ch a) = Some p"
| "acts_for (CreateInvite p org t ex n) = Some p"
| "acts_for (RevokeInvite p org i) = Some p"
| "acts_for (LeaveService a) = Some a"
| "acts_for _ = None"

definition accounted :: "actor_id option \<Rightarrow> db \<Rightarrow> db \<Rightarrow> bool" where
  "accounted who d d' \<longleftrightarrow> (\<exists>es. audit_events d' = audit_events d @ es
     \<and> (es = [] \<longrightarrow> governance_of d' = governance_of d)
     \<and> (\<forall>e \<in> set es. case who of Some p \<Rightarrow> ae_actor e = p | None \<Rightarrow> ae_actor e \<notin> key_set a_id (actors d)))"

lemma accounted_quiet:
  "audit_events d' = audit_events d \<Longrightarrow> governance_of d' = governance_of d \<Longrightarrow> accounted who d d'"
  by (simp add: accounted_def)

lemma accounted_same: "accounted who d d"
  by (rule accounted_quiet) simp_all

lemma accounted_audited:
  "audit_events d' = audit_events d \<Longrightarrow> accounted (Some p) d (audited i ev org p d')"
  by (auto simp: accounted_def audited_def audit_row_of_def)

lemma accounted_twice:
  "audit_events d' = audit_events d \<Longrightarrow> accounted (Some p) d (audited i ev org p (audited j ev' org p d'))"
  by (auto simp: accounted_def audited_def audit_row_of_def)

lemma accounted_newcomer:
  "audit_events d' = audit_events d \<Longrightarrow> p \<notin> key_set a_id (actors d) \<Longrightarrow> accounted None d (audited i ev org p d')"
  by (auto simp: accounted_def audited_def audit_row_of_def)

section \<open>Departures\<close>

lemma records_actor: "records p es evs \<Longrightarrow> \<forall>e \<in> set es. ae_actor e = p"
  unfolding records_def
proof (induction rule: list_all2_induct)
  case (Cons e es ev evs)
  then show ?case by (cases ev) (simp; metis audit_row.select_convs(3) audit_row_of_def)
qed simp

lemma silent_departure:
  assumes "schema_ok d" "departure_events d a = []"
  shows "governance_of (departed_rows a t d) = governance_of d"
proof -
  have quiet: "organization_departure d a (om_org m, om_status m) = []"
    if "m \<in> set (organization_members d)" "om_actor m = a" for m
    using assms(2) that by (auto simp: departure_events_def own_memberships_def)
  have left: "om_status m = ''left''" if "m \<in> set (organization_members d)" "om_actor m = a" for m
    using quiet [OF that] by (auto simp: organization_departure_def split: if_splits)
  have "tm_actor m \<noteq> a" if m: "m \<in> set (team_members d)" for m
  proof
    assume a: "tm_actor m = a"
    have "(tm_org m, tm_actor m) \<in> key_set (\<lambda>x. (om_org x, om_actor x)) (organization_members d)"
      using assms(1) m by (simp add: schema_ok_def team_members_ok_def)
    then obtain x where x: "x \<in> set (organization_members d)" "om_org x = tm_org m" "om_actor x = a"
      using a by (auto simp: key_set_def)
    with quiet [OF x(1,3)] m a show False
      by (auto simp: organization_departure_def team_memberships_left_def filter_empty_conv)
  qed
  moreover have "cm_actor m \<noteq> a" if m: "m \<in> set (channel_members d)" for m
  proof
    assume a: "cm_actor m = a"
    then have "cm_org m \<in> set (own_channel_organizations d a)" using m by (auto simp: own_channel_organizations_def)
    then have "set (listed_channels d a (cm_org m)) = {}"
      using assms(2) by (auto simp: departure_events_def channel_departure_def)
    with m a show False by (auto simp: listed_channels_def)
  qed
  ultimately show ?thesis
    using left by (auto simp: governance_of_def departed_rows_def update_where_def left_row_def intro!: filter_True)
qed

section \<open>Every request accounts for what it does\<close>

lemma governance_identity:
  "map channel_identity (bumped ch org rows) = map channel_identity rows"
  unfolding bumped_def by (rule update_where_map_key) (simp add: channel_identity_def)

lemma accounted_members:
  assumes h: "wire c = Healthy"
  shows "change_member_role p org a r c = (Inr u1, c') \<Longrightarrow> accounted (Some p) (committed c) (committed c')"
    and "suspend_member p org a c = (Inr u2, c') \<Longrightarrow> accounted (Some p) (committed c) (committed c')"
    and "reactivate_member p org a c = (Inr u3, c') \<Longrightarrow> accounted (Some p) (committed c) (committed c')"
    and "create_team p org n c = (Inr u4, c') \<Longrightarrow> accounted (Some p) (committed c) (committed c')"
    and "add_team_member p org t a tr c = (Inr u5, c') \<Longrightarrow> accounted (Some p) (committed c) (committed c')"
    and "change_team_member_role p org t a tr c = (Inr u6, c') \<Longrightarrow> accounted (Some p) (committed c) (committed c')"
    and "remove_team_member p org t a c = (Inr u7, c') \<Longrightarrow> accounted (Some p) (committed c) (committed c')"
    and "create_channel p org sc n c = (Inr u8, c') \<Longrightarrow> accounted (Some p) (committed c) (committed c')"
    and "add_channel_member p org ch a c = (Inr u9, c') \<Longrightarrow> accounted (Some p) (committed c) (committed c')"
    and "create_organization p n sl c = (Inr u10, c') \<Longrightarrow> accounted (Some p) (committed c) (committed c')"
  by (drule change_member_role_run [OF h] suspend_member_run [OF h] reactivate_member_run [OF h] create_team_run [OF h]
      add_team_member_run [OF h] change_team_member_role_run [OF h] remove_team_member_run [OF h]
      create_channel_run [OF h] add_channel_member_run [OF h] create_organization_run [OF h];
    auto intro!: accounted_audited accounted_twice accounted_same split: if_splits)+

lemma accounted_invites:
  assumes h: "wire c = Healthy"
  shows "create_invite p org t ex n c = (Inr u1, c') \<Longrightarrow> accounted (Some p) (committed c) (committed c')"
    and "revoke_invite p org iv c = (Inr u2, c') \<Longrightarrow> accounted (Some p) (committed c) (committed c')"
    and "accept_invite th e hs n' c = (Inr u3, c') \<Longrightarrow> accounted None (committed c) (committed c')"
proof -
  show "create_invite p org t ex n c = (Inr u1, c') \<Longrightarrow> accounted (Some p) (committed c) (committed c')"
    by (cases u1) (auto dest!: create_invite_run [OF h] intro!: accounted_audited)
  show "revoke_invite p org iv c = (Inr u2, c') \<Longrightarrow> accounted (Some p) (committed c) (committed c')"
    by (auto dest!: revoke_invite_run [OF h] intro!: accounted_audited accounted_same split: if_splits)
  show "accept_invite th e hs n' c = (Inr u3, c') \<Longrightarrow> accounted None (committed c) (committed c')"
    by (cases u3) (auto dest!: accept_invite_run [OF h] intro!: accounted_newcomer simp: person_rows_def)
qed

lemma accounted_others:
  assumes h: "wire c = Healthy" and sch: "schema_ok (committed c)"
  shows "register e hs n c = (Inr u1, c') \<Longrightarrow> accounted None (committed c) (committed c')"
    and "sign_in e v t ex c = (Inr u2, c') \<Longrightarrow> accounted None (committed c) (committed c')"
    and "revoke_session a th c = (Inr u3, c') \<Longrightarrow> accounted None (committed c) (committed c')"
    and "post_message api org ch a i b c = (Inr u4, c') \<Longrightarrow> accounted None (committed c) (committed c')"
    and "leave_service a c = (Inr u5, c') \<Longrightarrow> accounted (Some a) (committed c) (committed c')"
proof -
  show "register e hs n c = (Inr u1, c') \<Longrightarrow> accounted None (committed c) (committed c')"
    by (auto dest!: register_run [OF h] intro!: accounted_quiet simp: person_rows_def governance_of_def)
  show "sign_in e v t ex c = (Inr u2, c') \<Longrightarrow> accounted None (committed c) (committed c')"
    by (cases u2) (auto dest!: sign_in_run [OF h] intro!: accounted_quiet simp: governance_of_def)
  show "revoke_session a th c = (Inr u3, c') \<Longrightarrow> accounted None (committed c) (committed c')"
    by (auto dest!: revoke_session_run [OF h] intro!: accounted_quiet simp: governance_of_def)
  show "post_message api org ch a i b c = (Inr u4, c') \<Longrightarrow> accounted None (committed c) (committed c')"
    by (drule post_message_effect [OF _ h])
      (auto intro!: accounted_quiet accounted_same simp: governance_of_def governance_identity)
  assume "leave_service a c = (Inr u5, c')"
  from leave_service_run [OF h this sch] obtain es where
    c': "committed c' = (departed_rows a (clock c) (committed c))\<lparr>audit_events := audit_events (committed c) @ es\<rparr>"
    and es: "records a es (departure_events (committed c) a)" by blast
  have "departure_events (committed c) a = []" if "es = []" using es that by (simp add: records_def)
  then show "accounted (Some a) (committed c) (committed c')"
    using silent_departure [OF sch] records_actor [OF es]
    by (auto simp: accounted_def c' governance_of_def)
qed

lemma accounted_request:
  assumes "wire c = Healthy" "request_ok api r c" "schema_ok (committed c)"
  shows "accounted (acts_for r) (committed c) (committed (run_request api r c))"
proof -
  note accounts = accounted_members [OF assms(1)] accounted_invites [OF assms(1)] accounted_others [OF assms(1,3)]
  show ?thesis
    using assms(2)
    by (cases r) (auto dest!: succeeded dest: accounts reading_runs [OF assms(1)] simp: accounted_same)
qed

text \<open>C10: Nothing an organization consists of (organizations, memberships with role and status, teams, team and
  channel memberships, channels, invites) changes without an audit record: every request, whatever the
  connection does, appends records to the log, at least one if it changed anything, each in the name of who
  acted; the record of an acceptance is in the name of the person it created.\<close>

theorem every_change_is_recorded:
  assumes "reachable api (committed c)"
  shows "\<exists>es. audit_events (committed (run_request api r c)) = audit_events (committed c) @ es
     \<and> (es = [] \<longrightarrow> governance_of (committed (run_request api r c)) = governance_of (committed c))
     \<and> (\<forall>e \<in> set es. case acts_for r of Some p \<Rightarrow> ae_actor e = p
          | None \<Rightarrow> ae_actor e \<notin> key_set a_id (actors (committed c)))"
proof -
  have sch: "schema_ok (committed (heal c))" using reachable_schema [OF assms] by simp
  have "accounted (acts_for r) (committed c) (committed (run_request api r (heal c)))"
  proof (cases "request_ok api r (heal c)")
    case True
    then show ?thesis using accounted_request [of "heal c"] sch by simp
  next
    case False
    then show ?thesis using request_contract [of api r "heal c"] accounted_same by simp
  qed
  then have "accounted (acts_for r) (committed c) (committed (run_request api r c))"
    using request_contract [of api r c] accounted_same by metis
  then show ?thesis by (simp add: accounted_def)
qed

theorem every_change_is_recorded_witness:
  "\<exists>e es. audit_events (committed (run_request any_v7 (CreateTeam 1000 2000 (lit ''Ops'')) (conn_at 13 demo)))
     = audit_events demo @ e # es \<and> ae_actor e = 1000"
proof -
  let ?d' = "committed (run_request any_v7 (CreateTeam 1000 2000 (lit ''Ops'')) (conn_at 13 demo))"
  have "length (g_teams (governance_of ?d')) \<noteq> length (g_teams (governance_of (committed (conn_at 13 demo))))" by code_simp
  then have changed: "governance_of ?d' \<noteq> governance_of (committed (conn_at 13 demo))" by metis
  have "reachable any_v7 (committed (conn_at 13 demo))" by (simp add: demo_reachable)
  from every_change_is_recorded [OF this, of "CreateTeam 1000 2000 (lit ''Ops'')"] changed
  obtain es where es: "audit_events ?d' = audit_events demo @ es" "es \<noteq> []" "\<And>e. e \<in> set es \<Longrightarrow> ae_actor e = 1000"
    by auto
  then show ?thesis by (cases es) auto
qed

end
