(* ===== verification/Administration.thy ===== *)
theory Administration
  imports Lifecycle Scenario
begin

text \<open>
  The outcome of every administrative operation on every branch: what an active member of the organization is
  answered, and when the operation succeeds.
\<close>

section \<open>Statements in the sight of an active member\<close>

lemma active_sees:
  assumes "schema_ok d" "active_member d org p"
  shows "in_active (session_for (Actor p) c) d org" "visible_organization org (session_for (Actor p) c) d \<noteq> None"
proof -
  show act: "in_active (session_for (Actor p) c) d org" using assms(2) by (simp add: in_active_session_for)
  show "visible_organization org (session_for (Actor p) c) d \<noteq> None"
    using visible_organization_Some [OF assms(1)] act by blast
qed

lemma member_row_in_active:
  "in_active s d org \<Longrightarrow> member_row org a s d = find (is_member org a) (organization_members d)"
  by (simp add: member_row_def sees_in_active find_filter)

lemma stored_member_parses:
  assumes "schema_ok d" "m \<in> set (organization_members d)"
  obtains ro st where "om_role m = role_str ro" "om_status m = status_str st"
  using assms by (auto simp: schema_ok_def members_ok_def)

lemma attempt_member:
  assumes "wire c = Healthy" "schema_ok (view c)" "in_active (session c) (view c) org"
  shows "attempt f (member org a) k c = (case find (is_member org a) (organization_members (view c)) of
      None \<Rightarrow> k None c
    | Some m \<Rightarrow> k (Some (the (role_parse (om_role m)), the (status_parse (om_status m)))) c)"
proof (cases "find (is_member org a) (organization_members (view c))")
  case None
  then show ?thesis using assms by (simp add: member_def tx_simps member_row_in_active)
next
  case (Some m)
  then have "m \<in> set (organization_members (view c))" using find_in by fast
  from stored_member_parses [OF assms(2) this] obtain ro st where "om_role m = role_str ro" "om_status m = status_str st" .
  with Some show ?thesis using assms
    by (simp add: member_def tx_simps member_row_in_active attempt_def [of f "Pair x" for x])
qed

lemma update_member_by_active:
  assumes "in_active s d org" "actor_setting s = Some p"
    and same: "\<And>m. is_member org a m \<Longrightarrow> is_member org a (f m)"
    and active: "\<And>m. m \<in> set (organization_members d) \<Longrightarrow> is_member org a m \<Longrightarrow> a = p \<Longrightarrow> om_status m = ''active''"
  shows "update_member s org a f d = Inr ((), rewrite_member org a f d)"
proof -
  have "\<not> guard_inactive_role s m (f m) \<and> may_write_member s d (f m) \<and> sees_member s d (f m)"
    if "m \<in> set (organization_members d)" "is_member org a m" for m
    using assms(1,2) same [OF that(2)] active [OF that] that(2)
    by (auto simp: guard_inactive_role_def may_write_member_def sees_member_def is_member_def is_self_def)
  then show ?thesis
    unfolding update_member_Inr rewrite_member_def sees_in_active [OF assms(1)]
    using assms(1) by (auto simp: is_member_def)
qed

lemma audit_by_active:
  assumes "in_active s d org" "i \<notin> key_set ae_id (audit_events d)" "org \<in> key_set o_id (organizations d)" "p \<in> key_set a_id (actors d)"
    "event_ok ev"
  shows "insert_audit s (audit_row_of i ev org p) d = Inr ((), audited i ev org p d)"
  unfolding insert_audit_eq [OF assms(5)] audited_def using assms(1-4)
  by (simp add: audit_admitted_def may_insert_audit_def audit_row_of_def)

lemma attempt_write_event:
  assumes "wire c = Healthy" "in_active (session c) (view c) org" "uuids c (drawn c) \<notin> key_set ae_id (audit_events (view c))"
    "org \<in> key_set o_id (organizations (view c))" "p \<in> key_set a_id (actors (view c))" "event_ok ev"
  shows "attempt f (write_event ev org p) k c
    = k () (c\<lparr>drawn := Suc (drawn c), view := audited (uuids c (drawn c)) ev org p (view c)\<rparr>)"
  using assms by (simp add: write_event_def tx_simps audit_by_active)

section \<open>Membership\<close>

lemma still_active:
  assumes "active_member d org p" "\<And>m. is_member org a m \<Longrightarrow> is_member org a (f m)"
    and "\<And>m. om_status (f m) = om_status m \<or> a \<noteq> p"
  shows "active_member (rewrite_member org a f d) org p"
proof -
  from assms(1) obtain m where m: "m \<in> set (organization_members d)" "om_org m = org" "om_actor m = p" "om_status m = ''active''"
    by (auto simp: active_member_def list_ex_iff)
  let ?m = "if is_member org a m then f m else m"
  have "?m \<in> set (organization_members (rewrite_member org a f d))" using m(1) by (auto simp: update_where_def)
  moreover have "om_org ?m = org \<and> om_actor ?m = p \<and> om_status ?m = ''active''"
    using m assms(2) [of m] assms(3) [of m] by (auto simp: is_member_def)
  ultimately show ?thesis by (auto simp: active_member_def list_ex_iff)
qed

text \<open>What a change of role or status needs, all of which holds for an active performer.\<close>

lemma member_update_facts:
  assumes "schema_ok d" "active_member d org p"
    and same: "\<And>m. is_member org a m \<Longrightarrow> is_member org a (f m)"
  shows "update_member (session_for (Actor p) c) org a f d = Inr ((), rewrite_member org a f d)"
    and "(\<And>m. om_status (f m) = om_status m \<or> a \<noteq> p) \<Longrightarrow> in_active (session_for (Actor p) c) (rewrite_member org a f d) org"
    and "org \<in> key_set o_id (organizations d)" "p \<in> key_set a_id (actors d)"
proof -
  show "update_member (session_for (Actor p) c) org a f d = Inr ((), rewrite_member org a f d)"
  proof (rule update_member_by_active [OF _ _ same])
    show "om_status m = ''active''" if "m \<in> set (organization_members d)" "is_member org a m" "a = p" for m
    proof -
      from assms(2) obtain x where "x \<in> set (organization_members d)" "is_member org p x" "om_status x = ''active''"
        by (auto simp: active_member_def list_ex_iff is_member_def)
      with member_row_unique [OF assms(1) that(1) _ that(2)] that(3) show ?thesis by blast
    qed
  qed (simp_all add: active_sees [OF assms(1,2)])
  show "(\<And>m. om_status (f m) = om_status m \<or> a \<noteq> p) \<Longrightarrow> in_active (session_for (Actor p) c) (rewrite_member org a f d) org"
    using still_active [OF assms(2) same] by (simp add: in_active_session_for)
  show "org \<in> key_set o_id (organizations d)" "p \<in> key_set a_id (actors d)"
    using assms(1,2) by (auto simp: active_member_def schema_ok_def members_ok_def list_ex_iff)
qed

definition departed :: "db \<Rightarrow> actor_id \<Rightarrow> bool" where
  "departed d a \<longleftrightarrow> list_ex (\<lambda>r. a_id r = a \<and> a_deleted_at r \<noteq> None) (actors d)"

text \<open>Whoever has a row in an organization is visible to its active members.\<close>

lemma departed_state_of_member:
  assumes "schema_ok d" "in_active s d org" "m \<in> set (organization_members d)" "is_member org a m"
  shows "departed_state s d a = Some (departed d a)"
proof -
  from assms(1,3,4) obtain r where r: "r \<in> set (actors d)" "a_id r = a"
    by (auto simp: schema_ok_def members_ok_def key_set_def is_member_def)
  have uniq: "distinct (map a_id (actors d))" using assms(1) by (simp add: schema_ok_def actors_ok_def uniq_def)
  have "sees_actor s d r" using assms(2-4) r(2) by (force simp: sees_actor_def sees_member_def is_member_def)
  then have "filter (sees_actor s d) (filter (\<lambda>x. a_id x = a_id r) (actors d)) = [r]"
    by (simp only: filter_key_singleton [OF uniq r(1)]) simp
  then have "filter (\<lambda>r. sees_actor s d r \<and> a_id r = a) (actors d) = [r]"
    using r(2) by (simp add: conj_commute)
  moreover have "departed d a \<longleftrightarrow> a_deleted_at r \<noteq> None"
  proof
    assume "departed d a"
    then obtain x where "x \<in> set (actors d)" "a_id x = a" "a_deleted_at x \<noteq> None" by (auto simp: departed_def list_ex_iff)
    with distinct_key_unique [OF uniq _ r(1)] r(2) show "a_deleted_at r \<noteq> None" by metis
  qed (use r in \<open>auto simp: departed_def list_ex_iff\<close>)
  ultimately show ?thesis by (simp add: departed_state_def)
qed

lemma last_owner_check:
  assumes "in_active s d org"
  shows "check_owner_change (map om_actor (owner_rows org s d)) change
    = (if other_owner d org (changed_actor change) then Inr () else Inl last_owner.LastOwner)"
proof (cases "check_owner_change (map om_actor (owner_rows org s d)) change")
  case (Inl e)
  then show ?thesis using check_owner_change_other [OF assms, of change] by (cases e) auto
next
  case (Inr u)
  then show ?thesis using check_owner_change_other [OF assms, of change] by simp
qed

lemma change_member_role_result:
  assumes "schema_ok (committed c)" "wire c = Healthy" "active_member (committed c) org p"
    and fresh: "uuids c (drawn c) \<notin> key_set ae_id (audit_events (committed c))"
  shows "fst (change_member_role p org a r c) =
      (case find (is_member org a) (organization_members (committed c)) of
         None \<Rightarrow> Inl change_member_role_error.NotFound
       | Some m \<Rightarrow>
           if om_status m = ''left'' then Inl change_member_role_error.NotFound
           else if om_role m \<noteq> role_str r \<and> om_role m = ''owner'' \<and> om_status m = ''active''
             \<and> \<not> other_owner (committed c) org a then Inl change_member_role_error.LastOwner
           else Inr ())"
proof (cases "find (is_member org a) (organization_members (committed c))")
  case None
  then show ?thesis
    using assms active_sees [OF assms(1,3)] by (simp add: change_member_role_def tx_simps attempt_member)
next
  case (Some m)
  then have "m \<in> set (organization_members (committed c))" using find_in by fast
  from stored_member_parses [OF assms(1) this] obtain ro st where m: "om_role m = role_str ro" "om_status m = status_str st" .
  have upd: "update_member (session_for (Actor p) c) org a (\<lambda>m. m\<lparr>om_role := x\<rparr>) (committed c)
      = Inr ((), rewrite_member org a (\<lambda>m. m\<lparr>om_role := x\<rparr>) (committed c))"
    and after_update: "in_active (session_for (Actor p) c) (rewrite_member org a (\<lambda>m. m\<lparr>om_role := x\<rparr>) (committed c)) org"
    and keys: "org \<in> key_set o_id (organizations (committed c))" "p \<in> key_set a_id (actors (committed c))" for x
    by (rule member_update_facts [OF assms(1,3)], simp_all)+
  show ?thesis
    using assms(2) fresh active_sees [OF assms(1,3)] Some m
    by (simp add: change_member_role_def tx_simps attempt_member assms(1) last_owner_check set_member_role_def
        change_member_role_of_last_owner_def upd after_update keys attempt_write_event Let_def)
qed

lemma self_suspension_unrecorded:
  assumes "wire c = Healthy" "session c = session_for (Actor p) c0" "view c = rewrite_member org p (\<lambda>m. m\<lparr>om_status := ''suspended''\<rparr>) d"
    "uuids c (drawn c) \<notin> key_set ae_id (audit_events d)" "org \<in> key_set o_id (organizations d)" "p \<in> key_set a_id (actors d)"
  shows "fst (attempt f (write_event (member_suspended p) org p) k c) = Inl (f RowSecurity)"
proof -
  have "\<not> may_insert_audit (session c) (view c) (audit_row_of (uuids c (drawn c)) (member_suspended p) org p)"
    using self_suspension_refused [of p c0 org d "uuids c (drawn c)"] assms(2-6) by (simp add: audit_admitted_def)
  then show ?thesis using assms(1) by (simp add: write_event_def tx_simps insert_audit_def checked.simps)
qed

lemma suspend_member_result:
  assumes "schema_ok (committed c)" "wire c = Healthy" "active_member (committed c) org p"
    and fresh: "uuids c (drawn c) \<notin> key_set ae_id (audit_events (committed c))"
  shows "fst (suspend_member p org a c) =
      (case find (is_member org a) (organization_members (committed c)) of
         None \<Rightarrow> Inl suspend_member_error.NotFound
       | Some m \<Rightarrow>
           if om_status m \<noteq> ''active'' then Inl suspend_member_error.NotActive
           else if om_role m = ''owner'' \<and> \<not> other_owner (committed c) org a then Inl suspend_member_error.LastOwner
           else if a = p then Inl (suspend_member_error.Database RowSecurity)
           else Inr ())"
proof (cases "find (is_member org a) (organization_members (committed c))")
  case None
  then show ?thesis
    using assms active_sees [OF assms(1,3)] by (simp add: suspend_member_def tx_simps attempt_member)
next
  case (Some m)
  then have "m \<in> set (organization_members (committed c))" using find_in by fast
  from stored_member_parses [OF assms(1) this] obtain ro st where m: "om_role m = role_str ro" "om_status m = status_str st" .
  have upd: "update_member (session_for (Actor p) c) org a (\<lambda>m. m\<lparr>om_status := x\<rparr>) (committed c)
      = Inr ((), rewrite_member org a (\<lambda>m. m\<lparr>om_status := x\<rparr>) (committed c))"
    and after_update: "a \<noteq> p \<Longrightarrow> in_active (session_for (Actor p) c) (rewrite_member org a (\<lambda>m. m\<lparr>om_status := x\<rparr>) (committed c)) org"
    and keys: "org \<in> key_set o_id (organizations (committed c))" "p \<in> key_set a_id (actors (committed c))" for x
    by (rule member_update_facts [OF assms(1,3)], simp_all)+
  note ev = suspend_member_def tx_simps attempt_member assms(1) last_owner_check set_member_status_def
    suspend_member_of_last_owner_def upd Let_def
  show ?thesis
  proof (cases "a = p")
    case True
    then show ?thesis
      using assms(2) fresh active_sees [OF assms(1,3)] Some m
      by (simp add: ev upd [unfolded True] self_suspension_unrecorded [where ?c0.0 = c and d = "committed c"] keys)
  next
    case False
    then show ?thesis
      using assms(2) fresh active_sees [OF assms(1,3)] Some m
      by (simp add: ev after_update keys attempt_write_event)
  qed
qed

lemma reactivate_member_result:
  assumes "schema_ok (committed c)" "wire c = Healthy" "active_member (committed c) org p"
    and fresh: "uuids c (drawn c) \<notin> key_set ae_id (audit_events (committed c))"
  shows "fst (reactivate_member p org a c) =
      (case find (is_member org a) (organization_members (committed c)) of
         None \<Rightarrow> Inl reactivate_member_error.NotFound
       | Some m \<Rightarrow>
           if departed (committed c) a then Inl reactivate_member_error.ActorDeparted
           else if om_status m \<noteq> ''suspended'' then Inl reactivate_member_error.NotSuspended
           else Inr ())"
proof (cases "find (is_member org a) (organization_members (committed c))")
  case None
  then show ?thesis
    using assms active_sees [OF assms(1,3)] by (simp add: reactivate_member_def tx_simps attempt_member)
next
  case (Some m)
  then have mem: "m \<in> set (organization_members (committed c))" "is_member org a m" using find_in by fast+
  from stored_member_parses [OF assms(1) mem(1)] obtain ro st where m: "om_role m = role_str ro" "om_status m = status_str st" .
  have gone: "departed_state (session_for (Actor p) c) (committed c) a = Some (departed (committed c) a)"
    by (rule departed_state_of_member [OF assms(1) active_sees(1) [OF assms(1,3)] mem])
  have upd: "update_member (session_for (Actor p) c) org a (\<lambda>m. m\<lparr>om_status := x\<rparr>) (committed c)
      = Inr ((), rewrite_member org a (\<lambda>m. m\<lparr>om_status := x\<rparr>) (committed c))"
    and after_update: "a \<noteq> p \<Longrightarrow> in_active (session_for (Actor p) c) (rewrite_member org a (\<lambda>m. m\<lparr>om_status := x\<rparr>) (committed c)) org"
    and keys: "org \<in> key_set o_id (organizations (committed c))" "p \<in> key_set a_id (actors (committed c))" for x
    by (rule member_update_facts [OF assms(1,3)], simp_all)+
  have self: "a = p \<Longrightarrow> st = Active"
    using active_phase [OF assms(1,3)] phase_Some [OF assms(1) mem] m(2) by (cases st) (auto simp: status_parse_def)
  show ?thesis
  proof (cases "a = p")
    case True
    then show ?thesis
      using assms(2) active_sees [OF assms(1,3)] Some m self
      by (simp add: reactivate_member_def tx_simps attempt_member assms(1) gone [unfolded True] status_parse_def)
  next
    case False
    then show ?thesis
      using assms(2) fresh active_sees [OF assms(1,3)] Some m
      by (simp add: reactivate_member_def tx_simps attempt_member assms(1) set_member_status_def upd gone
        after_update keys attempt_write_event)
  qed
qed

text \<open>C19: In a reachable database an active member who changes, suspends or reactivates a membership (with an
  unused id for the record) is answered exactly as follows. There is no such membership: not found. It is left,
  not active, not suspended, or its actor has departed: the operation's own error. The last active owner would
  be demoted or suspended: last owner. Otherwise it succeeds, except that nobody can suspend themselves: their
  own record of it is refused by row security.\<close>

theorem membership_outcome:
  assumes "reachable api (committed c)" "wire c = Healthy" "active_member (committed c) org p"
    and "uuids c (drawn c) \<notin> key_set ae_id (audit_events (committed c))"
  shows "case find (is_member org a) (organization_members (committed c)) of
      None \<Rightarrow> fst (change_member_role p org a r c) = Inl change_member_role_error.NotFound
        \<and> fst (suspend_member p org a c) = Inl suspend_member_error.NotFound
        \<and> fst (reactivate_member p org a c) = Inl reactivate_member_error.NotFound
    | Some m \<Rightarrow>
        fst (change_member_role p org a r c) =
          (if om_status m = ''left'' then Inl change_member_role_error.NotFound
           else if om_role m \<noteq> role_str r \<and> om_role m = ''owner'' \<and> om_status m = ''active''
             \<and> \<not> other_owner (committed c) org a then Inl change_member_role_error.LastOwner
           else Inr ())
        \<and> fst (suspend_member p org a c) =
          (if om_status m \<noteq> ''active'' then Inl suspend_member_error.NotActive
           else if om_role m = ''owner'' \<and> \<not> other_owner (committed c) org a then Inl suspend_member_error.LastOwner
           else if a = p then Inl (suspend_member_error.Database RowSecurity) else Inr ())
        \<and> fst (reactivate_member p org a c) =
          (if departed (committed c) a then Inl reactivate_member_error.ActorDeparted
           else if om_status m \<noteq> ''suspended'' then Inl reactivate_member_error.NotSuspended else Inr ())"
proof -
  have sch: "schema_ok (committed c)" by (rule reachable_schema [OF assms(1)])
  show ?thesis
    using change_member_role_result [OF sch assms(2-4), of a r] suspend_member_result [OF sch assms(2-4), of a]
      reactivate_member_result [OF sch assms(2-4), of a]
    by (cases "find (is_member org a) (organization_members (committed c))") simp_all
qed

theorem membership_outcome_witness:
  "fst (change_member_role 4000 2000 1000 Admin (conn_at 13 demo)) = Inl change_member_role_error.LastOwner
   \<and> fst (suspend_member 1000 2000 4000 (conn_at 13 demo)) = Inr ()
   \<and> fst (suspend_member 4000 2000 4000 (conn_at 13 demo)) = Inl (suspend_member_error.Database RowSecurity)
   \<and> fst (reactivate_member 1000 2000 4000 (conn_at 13 demo)) = Inl reactivate_member_error.NotSuspended
   \<and> fst (change_member_role 1000 2000 4711 Admin (conn_at 13 demo)) = Inl change_member_role_error.NotFound"
proof -
  have reach: "reachable any_v7 (committed (conn_at 13 demo))" by (simp add: demo_reachable)
  have active: "active_member (committed (conn_at 13 demo)) 2000 1000" "active_member (committed (conn_at 13 demo)) 2000 4000"
    by (simp_all add: demo_def active_member_def)
  have fresh: "uuids (conn_at 13 demo) (drawn (conn_at 13 demo)) \<notin> key_set ae_id (audit_events (committed (conn_at 13 demo)))"
    by code_simp
  have rows: "find (is_member 2000 1000) (organization_members demo) = Some (organization_members demo ! 0)"
    "find (is_member 2000 4000) (organization_members demo) = Some (organization_members demo ! 1)"
    "find (is_member 2000 4711) (organization_members demo) = None"
    "om_role (organization_members demo ! 0) = ''owner''" "om_status (organization_members demo ! 0) = ''active''"
    "om_role (organization_members demo ! 1) = ''member''" "om_status (organization_members demo ! 1) = ''active''"
    "\<not> other_owner demo 2000 1000" "\<not> departed demo 4000"
    by (simp_all add: demo_def is_member_def other_owner_def departed_def)
  note outcome = membership_outcome [OF reach conn_at_simps(2) _ fresh]
  show ?thesis
    using outcome [OF active(2), of 1000 Admin] outcome [OF active(1), of 4000 Admin]
      outcome [OF active(2), of 4000 Admin] outcome [OF active(1), of 4711 Admin]
    by (simp add: rows [unfolded One_nat_def])
qed

section \<open>Teams\<close>

definition has_team :: "db \<Rightarrow> organization_id \<Rightarrow> team_id \<Rightarrow> bool" where
  "has_team d org t \<longleftrightarrow> list_ex (\<lambda>r. t_org r = org \<and> t_id r = t) (teams d)"

definition on_team :: "db \<Rightarrow> organization_id \<Rightarrow> team_id \<Rightarrow> actor_id \<Rightarrow> bool" where
  "on_team d org t a \<longleftrightarrow> list_ex (\<lambda>m. tm_org m = org \<and> tm_team m = t \<and> tm_actor m = a) (team_members d)"

lemma team_row_of_in_active: "in_active s d org \<Longrightarrow> team_row_of org t s d = None \<longleftrightarrow> \<not> has_team d org t"
  by (auto simp: team_row_of_def has_team_def sees_team_def filter_empty_conv list_ex_iff)

lemma team_member_row_in_active:
  "in_active s d org \<Longrightarrow> team_member_row_of org t a s d
    = find (\<lambda>m. tm_org m = org \<and> tm_team m = t \<and> tm_actor m = a) (team_members d)"
  unfolding team_member_row_of_def find_filter
  by (rule arg_cong [where f = fetch_optional], rule filter_cong) (auto simp: sees_team_member_def)

lemma on_team_find:
  "on_team d org t a \<longleftrightarrow> find (\<lambda>m. tm_org m = org \<and> tm_team m = t \<and> tm_actor m = a) (team_members d) \<noteq> None"
  by (auto simp: on_team_def list_ex_iff find_None_iff)

lemma team_keys:
  assumes "schema_ok d" "has_team d org t"
  shows "(t, a) \<in> key_set (\<lambda>m. (tm_team m, tm_actor m)) (team_members d) \<longleftrightarrow> on_team d org t a"
    and "(t, org) \<in> key_set (\<lambda>t. (t_id t, t_org t)) (teams d)"
proof -
  obtain r where r: "r \<in> set (teams d)" "t_org r = org" "t_id r = t"
    using assms(2) by (auto simp: has_team_def list_ex_iff)
  then show "(t, org) \<in> key_set (\<lambda>t. (t_id t, t_org t)) (teams d)" by (force simp: key_set_def)
  have uniq: "distinct (map t_id (teams d))" using assms(1) by (simp add: schema_ok_def teams_ok_def uniq_def)
  have "tm_org m = org" if m: "m \<in> set (team_members d)" "tm_team m = t" for m
  proof -
    have "(tm_team m, tm_org m) \<in> key_set (\<lambda>t. (t_id t, t_org t)) (teams d)"
      using assms(1) m(1) by (simp add: schema_ok_def team_members_ok_def)
    then obtain x where "x \<in> set (teams d)" "t_id x = tm_team m" "t_org x = tm_org m" by (auto simp: key_set_def)
    with distinct_key_unique [OF uniq _ r(1)] m(2) r(2,3) show ?thesis by metis
  qed
  moreover have "(t, a) \<in> key_set (\<lambda>m. (tm_team m, tm_actor m)) (team_members d)
      \<longleftrightarrow> (\<exists>m \<in> set (team_members d). tm_team m = t \<and> tm_actor m = a)"
    by (auto simp: key_set_def image_iff)
  ultimately show "(t, a) \<in> key_set (\<lambda>m. (tm_team m, tm_actor m)) (team_members d) \<longleftrightarrow> on_team d org t a"
    unfolding on_team_def list_ex_iff by blast
qed

lemma set_team_member_role_in_active:
  assumes "in_active s d org"
  shows "set_team_member_role s org t a r d = Inr ((), d\<lparr>team_members :=
      update_where (\<lambda>m. tm_org m = org \<and> tm_team m = t \<and> tm_actor m = a) (\<lambda>m. m\<lparr>tm_role := team_role_str r\<rparr>) (team_members d)\<rparr>)"
proof -
  have hit: "(\<lambda>m. sees_team_member s d m \<and> in_active s d (tm_org m) \<and> tm_org m = org \<and> tm_team m = t \<and> tm_actor m = a)
      = (\<lambda>m. tm_org m = org \<and> tm_team m = t \<and> tm_actor m = a)"
    using assms by (auto simp: sees_team_member_def)
  show ?thesis
    using assms unfolding set_team_member_role_def hit
    by (auto simp: rls_update_def Let_def no_trigger_def list_ex_iff list_all_iff sees_team_member_def)
qed

lemma stored_team_role: "schema_ok d \<Longrightarrow> m \<in> set (team_members d) \<Longrightarrow> \<exists>tr. tm_role m = team_role_str tr"
  by (auto simp: schema_ok_def team_members_ok_def)

lemma team_operations_result:
  assumes "schema_ok (committed c)" "wire c = Healthy" "active_member (committed c) org p"
    and fresh: "uuids c (drawn c) \<notin> key_set ae_id (audit_events (committed c))"
  shows "fst (change_team_member_role p org t a r c)
      = (if on_team (committed c) org t a then Inr () else Inl change_team_member_role_error.NotFound)"
    and "fst (remove_team_member p org t a c)
      = (if on_team (committed c) org t a then Inr () else Inl remove_team_member_error.NotFound)"
proof -
  let ?d = "committed c" and ?s = "session_for (Actor p) c"
  have act: "in_active ?s ?d org" and vis: "visible_organization org ?s ?d \<noteq> None"
    using active_sees [OF assms(1,3)] by blast+
  have keys: "org \<in> key_set o_id (organizations ?d)" "p \<in> key_set a_id (actors ?d)"
    using member_update_facts(3,4) [OF assms(1,3), of a "\<lambda>m. m"] by blast+
  have still: "in_active ?s (?d\<lparr>team_members := x\<rparr>) org" for x
    using act by (simp add: in_active_iff)
  show "fst (change_team_member_role p org t a r c)
      = (if on_team ?d org t a then Inr () else Inl change_team_member_role_error.NotFound)"
  proof (cases "find (\<lambda>m. tm_org m = org \<and> tm_team m = t \<and> tm_actor m = a) (team_members ?d)")
    case None
    then show ?thesis
      using assms(2) act vis by (simp add: change_team_member_role_def tx_simps team_member_row_in_active on_team_find)
  next
    case (Some m)
    then have "m \<in> set (team_members ?d)" using find_in by fast
    from stored_team_role [OF assms(1) this] obtain tr where "tm_role m = team_role_str tr" by blast
    with Some show ?thesis
      using assms(2) act vis fresh keys still
      by (simp add: change_team_member_role_def tx_simps team_member_row_in_active on_team_find
          set_team_member_role_in_active attempt_write_event)
  qed
  have deleted: "delete_team_member ?s org t a ?d = Inr (length (filter (\<lambda>m. tm_org m = org \<and> tm_team m = t \<and> tm_actor m = a) (team_members ?d)),
      ?d\<lparr>team_members := filter (\<lambda>m. \<not> (tm_org m = org \<and> tm_team m = t \<and> tm_actor m = a)) (team_members ?d)\<rparr>)"
    using delete_team_member_run [OF act] by blast
  have none: "filter (\<lambda>m. tm_org m = org \<and> tm_team m = t \<and> tm_actor m = a) (team_members ?d) = [] \<longleftrightarrow> \<not> on_team ?d org t a"
    by (auto simp: on_team_def list_ex_iff filter_empty_conv)
  show "fst (remove_team_member p org t a c)
      = (if on_team ?d org t a then Inr () else Inl remove_team_member_error.NotFound)"
    using assms(2) act vis fresh keys still
    by (simp add: remove_team_member_def tx_simps deleted none attempt_write_event)
qed

lemma insert_team_member_by_active:
  assumes "schema_ok d" "in_active s d org" "has_team d org t" "m \<in> set (organization_members d)" "is_member org a m"
  shows "insert_team_member s t a org r d =
    (if on_team d org t a then Inl (ConstraintViolation ''team_members_pkey'')
     else Inr ((), d\<lparr>team_members := team_members d @ [\<lparr>tm_team = t, tm_actor = a, tm_org = org, tm_role = team_role_str r\<rparr>]\<rparr>))"
proof -
  have "(org, a) \<in> key_set (\<lambda>m. (om_org m, om_actor m)) (organization_members d)"
    using assms(4,5) by (force simp: key_set_def is_member_def)
  then show ?thesis
    using assms(2) team_keys [OF assms(1,3)] by (simp add: insert_team_member_def checked.simps)
qed

lemma add_team_member_result:
  assumes "schema_ok (committed c)" "wire c = Healthy" "active_member (committed c) org p"
    and fresh: "uuids c (drawn c) \<notin> key_set ae_id (audit_events (committed c))"
  shows "fst (add_team_member p org t a r c) =
      (case find (is_member org a) (organization_members (committed c)) of
         None \<Rightarrow> Inl add_team_member_error.NotFound
       | Some m \<Rightarrow>
           if \<not> has_team (committed c) org t then Inl add_team_member_error.NotFound
           else if departed (committed c) a then Inl add_team_member_error.ActorDeparted
           else if om_status m \<noteq> ''active'' then Inl add_team_member_error.NotAnActiveMember
           else if on_team (committed c) org t a then Inl add_team_member_error.AlreadyMember
           else Inr ())"
proof -
  let ?d = "committed c" and ?s = "session_for (Actor p) c"
  have act: "in_active ?s ?d org" and vis: "visible_organization org ?s ?d \<noteq> None"
    using active_sees [OF assms(1,3)] by blast+
  note ev = add_team_member_def tx_simps member_row_in_active team_row_of_in_active
  show ?thesis
  proof (cases "find (is_member org a) (organization_members ?d)")
    case None
    then show ?thesis using assms(2) act vis by (simp add: ev)
  next
    case (Some m)
    then have mem: "m \<in> set (organization_members ?d)" "is_member org a m" using find_in by fast+
    from stored_member_parses [OF assms(1) mem(1)] obtain ro st where m: "om_role m = role_str ro" "om_status m = status_str st" .
    have gone: "departed_state ?s ?d a = Some (departed ?d a)" by (rule departed_state_of_member [OF assms(1) act mem])
    have keys: "org \<in> key_set o_id (organizations ?d)" "p \<in> key_set a_id (actors ?d)"
      using member_update_facts(3,4) [OF assms(1,3), of a "\<lambda>m. m"] by blast+
    have still: "in_active ?s (?d\<lparr>team_members := x\<rparr>) org" for x using act by (simp add: in_active_iff)
    show ?thesis
    proof (cases "has_team ?d org t")
      case False
      then show ?thesis using assms(2) act vis Some by (simp add: ev)
    next
      case True
      have "insert_team_member ?s t a org r ?d = (if on_team ?d org t a then Inl (ConstraintViolation ''team_members_pkey'')
         else Inr ((), ?d\<lparr>team_members := team_members ?d @ [\<lparr>tm_team = t, tm_actor = a, tm_org = org, tm_role = team_role_str r\<rparr>]\<rparr>))"
        by (rule insert_team_member_by_active [OF assms(1) act True mem])
      with True show ?thesis
        using assms(2) act vis Some m fresh keys still by (simp add: ev gone attempt_write_event)
    qed
  qed
qed

text \<open>C20: In a reachable database an active member who edits a team (with an unused id for the record) is answered
  exactly as follows. Adding: not found without that team or that membership, the operation's own errors for the
  departed, the not active and those already on the team, otherwise success. Changing a role and removing:
  success exactly for those on the team, otherwise not found.\<close>

theorem team_outcome:
  assumes "reachable api (committed c)" "wire c = Healthy" "active_member (committed c) org p"
    and "uuids c (drawn c) \<notin> key_set ae_id (audit_events (committed c))"
  shows "fst (add_team_member p org t a r c) =
      (case find (is_member org a) (organization_members (committed c)) of
         None \<Rightarrow> Inl add_team_member_error.NotFound
       | Some m \<Rightarrow>
           if \<not> has_team (committed c) org t then Inl add_team_member_error.NotFound
           else if departed (committed c) a then Inl add_team_member_error.ActorDeparted
           else if om_status m \<noteq> ''active'' then Inl add_team_member_error.NotAnActiveMember
           else if on_team (committed c) org t a then Inl add_team_member_error.AlreadyMember
           else Inr ())
    \<and> fst (change_team_member_role p org t a r' c)
      = (if on_team (committed c) org t a then Inr () else Inl change_team_member_role_error.NotFound)
    \<and> fst (remove_team_member p org t a c)
      = (if on_team (committed c) org t a then Inr () else Inl remove_team_member_error.NotFound)"
  using add_team_member_result [OF reachable_schema [OF assms(1)] assms(2-4)]
    team_operations_result [OF reachable_schema [OF assms(1)] assms(2-4)] by blast

theorem team_outcome_witness:
  "fst (add_team_member 1000 2000 5000 1000 Manager (conn_at 13 demo)) = Inr ()
   \<and> fst (add_team_member 1000 2000 5000 4000 Manager (conn_at 13 demo)) = Inl add_team_member_error.AlreadyMember
   \<and> fst (add_team_member 1000 2000 4711 4000 Manager (conn_at 13 demo)) = Inl add_team_member_error.NotFound
   \<and> fst (remove_team_member 1000 2000 5000 4000 (conn_at 13 demo)) = Inr ()"
proof -
  have reach: "reachable any_v7 (committed (conn_at 13 demo))" by (simp add: demo_reachable)
  have active: "active_member (committed (conn_at 13 demo)) 2000 1000"
    by (simp add: demo_def active_member_def)
  have fresh: "uuids (conn_at 13 demo) (drawn (conn_at 13 demo)) \<notin> key_set ae_id (audit_events (committed (conn_at 13 demo)))"
    by code_simp
  have rows: "find (is_member 2000 1000) (organization_members demo) = Some (organization_members demo ! 0)"
    "find (is_member 2000 4000) (organization_members demo) = Some (organization_members demo ! 1)"
    "om_status (organization_members demo ! 0) = ''active''" "om_status (organization_members demo ! 1) = ''active''"
    "\<not> departed demo 1000" "\<not> departed demo 4000" "has_team demo 2000 5000" "\<not> has_team demo 2000 4711"
    "on_team demo 2000 5000 4000" "\<not> on_team demo 2000 5000 1000"
    by (simp_all add: demo_def is_member_def departed_def has_team_def on_team_def)
  note outcome = team_outcome [OF reach conn_at_simps(2) active fresh]
  show ?thesis
    using outcome [of 5000 1000 Manager] outcome [of 5000 4000 Manager] outcome [of 4711 4000 Manager]
    by (simp add: rows [unfolded One_nat_def])
qed

end
