(* ===== verification/Finality.thy ===== *)
theory Finality
  imports Joining Administration SessionLife Erasure
begin

text \<open>
  What is final: a revoked invite admits no one, a departed person gets back in by no way and a session that was
  signed out stays ended, whatever requests run in between.
\<close>

section \<open>What later requests lead to\<close>

inductive leads_to :: "uuid_api \<Rightarrow> db \<Rightarrow> db \<Rightarrow> bool" for api :: uuid_api where
  same: "leads_to api d d"
| further: "leads_to api d (committed c) \<Longrightarrow> leads_to api d (committed (run_request api r c))"

lemma leads_to_history: "leads_to api d d' \<Longrightarrow> history d d'"
  by (induction rule: leads_to.induct) (blast intro: history_refl history_trans path_history request_path)+

lemma leads_to_reachable: "leads_to api d d' \<Longrightarrow> reachable api d \<Longrightarrow> reachable api d'"
  by (induction rule: leads_to.induct) (auto intro: reachable.request)

lemma leads_to_run_all: "leads_to any_v7 d (run_all t rs d)"
proof -
  have "leads_to any_v7 d e \<Longrightarrow> leads_to any_v7 d (run_all t rs e)" for e
  proof (induction rs arbitrary: t e)
    case (Cons r rs)
    have "leads_to any_v7 d (committed (run_request any_v7 r (conn_at t e)))"
      by (rule leads_to.further) (simp add: Cons.prems)
    then show ?case by (simp add: Cons.IH)
  qed simp
  then show ?thesis by (simp add: leads_to.same)
qed

section \<open>Revoked invites\<close>

text \<open>A revocation leaves the invite's row revoked, with the uses it had.\<close>

lemma revoked_row:
  assumes "schema_ok (committed c)" "wire c = Healthy" "revoke_invite p org (Some i) c = (Inr u, c')"
    and r: "r \<in> set (invites (committed c))" "i_id r = i"
  shows "\<exists>r' \<in> set (invites (committed c')). invite_identity r' = invite_identity r
    \<and> i_used_count r' = i_used_count r \<and> i_revoked_at r' \<noteq> None"
proof -
  from revoke_invite_run [OF assms(2,3)] obtain row where
    row: "invite_row_of org i (session_for (Actor p) c) (committed c) = Some row" and
    eff: "if i_revoked_at row \<noteq> None then committed c' = committed c
          else committed c' = audited (uuids c (drawn c)) (invite_revoked org i) org p
            ((committed c)\<lparr>invites := update_where (\<lambda>r. i_org r = org \<and> i_id r = i)
               (\<lambda>r. r\<lparr>i_revoked_at := Some (clock c), i_xmin := Suc (xid (session c))\<rparr>)
               (invites (committed c))\<rparr>)" by blast
  from row have "row \<in> set (invites (committed c))" "i_org row = org" "i_id row = i"
    by (auto simp: invite_row_of_def dest!: fetch_optional_SomeD)
  with invite_unique(2) [OF assms(1) _ r(1)] r(2) have same: "row = r" "i_org r = org" by auto
  show ?thesis
  proof (cases "i_revoked_at r = None")
    case True
    have "r\<lparr>i_revoked_at := Some (clock c), i_xmin := Suc (xid (session c))\<rparr> \<in> set (invites (committed c'))"
      using eff True same r by (force simp: update_where_def)
    then show ?thesis by (rule bexI [rotated]) (simp add: invite_identity_def)
  next
    case False
    with eff same r(1) show ?thesis by (intro bexI [of _ r]) simp_all
  qed
qed

lemma history_keeps_revocations:
  assumes "history d d'" "schema_ok d'" "r \<in> set (invites d)" "i_revoked_at r \<noteq> None"
  obtains r' where "r' \<in> set (invites d')" "invite_identity r' = invite_identity r"
    "i_used_count r' = i_used_count r" "i_revoked_at r' \<noteq> None"
proof -
  from assms(1,3,4) obtain x where x: "x \<in> set (invites d')" "i_id x = i_id r" "i_used_count x = i_used_count r"
    "i_revoked_at x \<noteq> None"
    unfolding history_def invites_advance_def by fastforce
  have "prefix (map invite_identity (invites d)) (map invite_identity (invites d'))"
    using assms(1) by (simp add: history_def)
  with assms(3) have "invite_identity r \<in> set (map invite_identity (invites d'))"
    using set_mono_prefix by fastforce
  then obtain y where y: "y \<in> set (invites d')" "invite_identity y = invite_identity r" by auto
  then have "i_id y = i_id r" by (simp add: invite_identity_def)
  with invite_unique(2) [OF assms(2) x(1) y(1)] x(2) have "x = y" by simp
  with that x y show thesis by simp
qed

lemma revoked_admits_none:
  assumes "schema_ok d" "r \<in> set (invites d)" "i_token_hash r = hash_str th" "i_revoked_at r \<noteq> None"
  shows "find (admits c th) (invites d) = None"
proof -
  have "\<not> admits c th x" if x: "x \<in> set (invites d)" for x
  proof
    assume "admits c th x"
    then have "i_token_hash x = i_token_hash r" "i_revoked_at x = None" using assms(3) by (simp_all add: admits_def)
    with invite_unique(1) [OF assms(1) x assms(2)] assms(4) show False by simp
  qed
  then show ?thesis by (auto simp: find_None_iff)
qed

text \<open>C11: Once an invite is revoked, in every database any requests lead to from there, its token is usable to
  nobody: an acceptance is refused as unusable and changes nothing, and the invite's use count never grows.\<close>

theorem revoked_invites_admit_no_one:
  assumes "reachable api (committed c)" "wire c = Healthy" "revoke_invite p org (Some i) c = (Inr u, c1)"
    and "r \<in> set (invites (committed c))" "i_id r = i" "i_token_hash r = hash_str th"
    and "leads_to api (committed c1) (committed c2)" "wire c2 = Healthy"
  shows "fst (accept_invite th email h name c2) = Inl accept_invite_error.InviteUnusable
    \<and> committed (snd (accept_invite th email h name c2)) = committed c2
    \<and> fst (invite_is_usable th c2) = Inr False
    \<and> (\<exists>r' \<in> set (invites (committed c2)). i_id r' = i \<and> i_used_count r' = i_used_count r)"
proof -
  have c1: "committed c1 = committed (run_request api (RevokeInvite p org (Some i)) c)" using assms(3) by simp
  have reach: "reachable api (committed c2)"
    using leads_to_reachable [OF assms(7)] reachable.request [OF assms(1)] unfolding c1 .
  note sch = reachable_schema [OF reach]
  from revoked_row [OF reachable_schema [OF assms(1)] assms(2-5)] obtain r1 where
    r1: "r1 \<in> set (invites (committed c1))" "invite_identity r1 = invite_identity r"
      "i_used_count r1 = i_used_count r" "i_revoked_at r1 \<noteq> None" by blast
  from history_keeps_revocations [OF leads_to_history [OF assms(7)] sch r1(1,4)] obtain r2 where
    r2: "r2 \<in> set (invites (committed c2))" "invite_identity r2 = invite_identity r"
      "i_used_count r2 = i_used_count r" "i_revoked_at r2 \<noteq> None" using r1 by metis
  then have id: "i_id r2 = i" "i_token_hash r2 = hash_str th" using assms(5,6) by (simp_all add: invite_identity_def)
  have none: "find (admits c2 th) (invites (committed c2)) = None"
    by (rule revoked_admits_none [OF sch r2(1) id(2) r2(4)])
  have refused: "fst (accept_invite th email h name c2) = Inl accept_invite_error.InviteUnusable"
    by (rule unusable_refused [OF sch assms(8) none])
  then have "committed (snd (accept_invite th email h name c2)) = committed c2"
    using accept_invite.failure_changes_nothing [OF assms(8)] by (metis prod.collapse)
  with refused none r2 id show ?thesis by (auto simp: invite_is_usable_result [OF reach assms(8)])
qed

theorem revoked_invites_admit_no_one_witness:
  "fst (accept_invite (TokenHash ''ab'') (lit ''cid@x'') ''h3'' (lit ''Cid'')
      (conn_at 15 (run_all 14 [CreateTeam 1000 2000 (lit ''Ops'')]
        (committed (snd (revoke_invite 1000 2000 (Some 3000) (conn_at 13 demo)))))))
    = Inl accept_invite_error.InviteUnusable"
proof -
  let ?run = "revoke_invite 1000 2000 (Some 3000) (conn_at 13 demo)"
  have "fst ?run = Inr ()" by code_simp
  then have run: "?run = (Inr (), snd ?run)" by (metis prod.collapse)
  have reach: "reachable any_v7 (committed (conn_at 13 demo))" by (simp add: demo_reachable)
  have row: "invites demo ! 0 \<in> set (invites (committed (conn_at 13 demo)))" "i_id (invites demo ! 0) = 3000"
    "i_token_hash (invites demo ! 0) = hash_str (TokenHash ''ab'')" by (simp_all add: demo_def)
  let ?later = "conn_at 15 (run_all 14 [CreateTeam 1000 2000 (lit ''Ops'')] (committed (snd ?run)))"
  have "leads_to any_v7 (committed (snd ?run)) (committed ?later)"
    unfolding conn_at_simps by (rule leads_to_run_all)
  from revoked_invites_admit_no_one [OF reach conn_at_simps(2) run row this conn_at_simps(2)]
  show ?thesis by (rule conjunct1)
qed

section \<open>Departed people\<close>

lemma departed_forever:
  assumes "history d d'" "departed d a"
  shows "departed d' a"
  using assms unfolding departed_def list_ex_iff history_def deleted_stays_def by metis

lemma departed_departed_rows:
  assumes "r \<in> set (actors d)" "a_id r = a"
  shows "departed ((departed_rows a t d)\<lparr>audit_events := es\<rparr>) a"
proof -
  have "r\<lparr>a_display_name := None, a_deleted_at := Some t\<rparr> \<in> set (actors (departed_rows a t d))"
    using assms by (force simp: departed_rows_def update_where_def)
  then show ?thesis unfolding departed_def list_ex_iff
    by (rule_tac x = "r\<lparr>a_display_name := None, a_deleted_at := Some t\<rparr>" in bexI) (simp_all add: assms)
qed

text \<open>Whoever has departed cannot be reached by any of the ways in.\<close>

definition locked_out :: "db \<Rightarrow> actor_id \<Rightarrow> bool" where
  "locked_out d a \<longleftrightarrow> a \<notin> key_set u_actor_id (users d) \<and> a \<notin> key_set s_actor (sessions d)
     \<and> (\<forall>m \<in> set (organization_members d). om_actor m = a \<longrightarrow> om_status m = ''left'')
     \<and> (\<forall>r \<in> set (actors d). a_id r = a \<longrightarrow> a_deleted_at r \<noteq> None) \<and> a \<in> key_set a_id (actors d)"

lemma departed_locked_out:
  assumes "reachable api d" "departed d a"
  shows "locked_out d a"
proof -
  from assms(2) obtain r where r: "r \<in> set (actors d)" "a_id r = a" "a_deleted_at r \<noteq> None"
    by (auto simp: departed_def list_ex_iff)
  with reachable_departed_clean [OF assms(1)] have "erased d a" unfolding departed_clean_def by blast
  moreover have "x = r" if "x \<in> set (actors d)" "a_id x = a" for x
    using actor_row_unique [OF reachable_schema [OF assms(1)] that(1) r(1)] that(2) r(2) by simp
  moreover have "a \<in> key_set a_id (actors d)" using r key_set_member [of r "actors d" a_id] by simp
  ultimately show ?thesis using r(3) unfolding locked_out_def erased_def by metis
qed

lemma locked_out_sessions:
  assumes "locked_out (committed c) a" "wire c = Healthy"
  shows "fst (resolve_session th c) \<noteq> Inr a" and "fst (sign_in e v nt ex c) \<noteq> Inr (a, tok)"
    and "fst (me a c) = Inl session_error.NoSession"
proof -
  show "fst (resolve_session th c) \<noteq> Inr a"
  proof (cases "fetch_optional (filter (live (clock c) th) (sessions (committed c)))")
    case (Some r)
    then have "s_actor r \<in> key_set s_actor (sessions (committed c))" by (auto dest!: fetch_optional_SomeD intro: key_set_member)
    then have "s_actor r \<noteq> a" using assms(1) by (auto simp: locked_out_def)
    with Some show ?thesis using assms(2) by (simp add: resolve_session_result)
  qed (use assms(2) in \<open>simp add: resolve_session_result\<close>)
  show "fst (sign_in e v nt ex c) \<noteq> Inr (a, tok)"
  proof
    assume "fst (sign_in e v nt ex c) = Inr (a, tok)"
    then have "sign_in e v nt ex c = (Inr (a, tok), snd (sign_in e v nt ex c))" by (metis prod.collapse)
    from sign_in_run [OF assms(2) this] assms(1) show False by (auto simp: locked_out_def key_set_def)
  qed
  have "filter (\<lambda>r. sees_actor (session_for (Actor a) c) (committed c) r \<and> a_id r = a \<and> a_deleted_at r = None) (actors (committed c)) = []"
    using assms(1) by (auto simp: locked_out_def filter_empty_conv)
  then have "self_with_user a (session_for (Actor a) c) (committed c) = None"
    by (simp add: self_with_user_def)
  then show "fst (me a c) = Inl session_error.NoSession"
    using assms(2) by (simp add: me_def tx_simps)
qed

lemma locked_out_founding:
  assumes "locked_out (committed c) a" "wire c = Healthy" "schema_ok (committed c)"
  shows "fst (create_organization a n sl c) = Inl create_organization_error.ActorDeparted"
proof -
  let ?s = "session_for (Actor a) c"
  from assms(1) obtain r where r: "r \<in> set (actors (committed c))" "a_id r = a" "a_deleted_at r \<noteq> None"
    by (auto simp: locked_out_def key_set_def)
  have "filter (\<lambda>x. a_id x = a_id r) (actors (committed c)) = [r]"
    using assms(3) r(1) by (auto simp: schema_ok_def actors_ok_def uniq_def intro: filter_key_singleton)
  moreover have "filter (\<lambda>x. sees_actor ?s (committed c) x \<and> a_id x = a) (actors (committed c))
      = filter (\<lambda>x. a_id x = a_id r) (actors (committed c))"
    by (rule filter_cong) (auto simp: sees_actor_def r(2))
  ultimately have "departed_state ?s (committed c) a = Some True"
    using r by (simp add: departed_state_def)
  then show ?thesis using assms(2) by (simp add: create_organization_def tx_simps)
qed

text \<open>C12: Once a person has left the service, in every database any requests lead to from there: no session
  resolves to them, no sign-in signs them in, they have no self to read, they cannot found an organization and
  they are an active member of none - so every operation on an organization answers them as an outsider.\<close>

theorem departed_people_stay_out:
  assumes "reachable api (committed c)" "wire c = Healthy" "leave_service a c = (Inr u, c1)"
    and "leads_to api (committed c1) (committed c2)" "wire c2 = Healthy"
  shows "fst (resolve_session th c2) \<noteq> Inr a \<and> fst (sign_in e v nt ex c2) \<noteq> Inr (a, tok)
    \<and> fst (me a c2) = Inl session_error.NoSession
    \<and> fst (create_organization a n sl c2) = Inl create_organization_error.ActorDeparted
    \<and> \<not> active_member (committed c2) org a"
proof -
  have c1: "committed c1 = committed (run_request api (LeaveService a) c)" using assms(3) by simp
  have reach: "reachable api (committed c2)"
    using leads_to_reachable [OF assms(4)] reachable.request [OF assms(1)] unfolding c1 .
  from leave_service_run [OF assms(2,3) reachable_schema [OF assms(1)]] obtain r es where
    "r \<in> set (actors (committed c))" "a_id r = a"
    "committed c1 = (departed_rows a (clock c) (committed c))\<lparr>audit_events := es\<rparr>" by blast
  then have "departed (committed c1) a" by (simp add: departed_departed_rows)
  then have "departed (committed c2) a" by (rule departed_forever [OF leads_to_history [OF assms(4)]])
  then have out: "locked_out (committed c2) a" by (rule departed_locked_out [OF reach])
  then have "\<not> active_member (committed c2) org a" by (auto simp: active_member_def locked_out_def list_ex_iff)
  with locked_out_sessions [OF out assms(5)] locked_out_founding [OF out assms(5) reachable_schema [OF reach]]
  show ?thesis by (intro conjI)
qed

theorem departed_people_stay_out_witness:
  "fst (resolve_session (TokenHash ''cd'') (conn_at 15 (run_all 14 [CreateTeam 1000 2000 (lit ''Ops'')]
      (committed (snd (leave_service 4000 (conn_at 13 demo))))))) \<noteq> Inr 4000
   \<and> fst (create_organization 4000 (lit ''B'') (lit ''b'') (conn_at 15 (run_all 14 [CreateTeam 1000 2000 (lit ''Ops'')]
      (committed (snd (leave_service 4000 (conn_at 13 demo))))))) = Inl create_organization_error.ActorDeparted"
proof -
  let ?run = "leave_service 4000 (conn_at 13 demo)"
  have "fst ?run = Inr ()" by code_simp
  then have run: "?run = (Inr (), snd ?run)" by (metis prod.collapse)
  have reach: "reachable any_v7 (committed (conn_at 13 demo))" by (simp add: demo_reachable)
  let ?later = "conn_at 15 (run_all 14 [CreateTeam 1000 2000 (lit ''Ops'')] (committed (snd ?run)))"
  have "leads_to any_v7 (committed (snd ?run)) (committed ?later)"
    unfolding conn_at_simps by (rule leads_to_run_all)
  note out = departed_people_stay_out [OF reach conn_at_simps(2) run this conn_at_simps(2)]
  show ?thesis by (rule conjI [OF out [THEN conjunct1] out [THEN conjunct2, THEN conjunct2, THEN conjunct2, THEN conjunct1]])
qed

section \<open>Sessions signed out\<close>

text \<open>A session's row stays, revoked, until its person leaves the service.\<close>

definition signed_off :: "token_hash \<Rightarrow> actor_id \<Rightarrow> db \<Rightarrow> bool" where
  "signed_off th a d \<longleftrightarrow> departed d a
     \<or> (\<exists>r \<in> set (sessions d). s_token_hash r = hash_str th \<and> s_actor r = a \<and> s_revoked_at r \<noteq> None)"

lemma signed_off_mono:
  "signed_off th a d \<Longrightarrow> set (sessions d) \<subseteq> set (sessions d') \<Longrightarrow> set (actors d) \<subseteq> set (actors d')
    \<Longrightarrow> signed_off th a d'"
  unfolding signed_off_def departed_def list_ex_iff by blast

lemma signed_off_people:
  "kept_on_success (signed_off th a) (register e h n)"
  "kept_on_success (signed_off th a) (create_organization p on sl)"
  "kept_on_success (signed_off th a) (accept_invite ih e h n)"
  "kept_on_success (signed_off th a) (sign_in e v nt ex)"
  apply (rule kept_on_successI, drule (1) register_run, erule signed_off_mono, auto simp: person_rows_def)[1]
  apply (rule kept_on_successI, drule (1) create_organization_run, erule signed_off_mono, auto)[1]
  apply (rule kept_on_successI, case_tac x, simp, drule (1) accept_invite_run, erule signed_off_mono;
    elim conjE bexE; force simp: person_rows_def)
  apply (rule kept_on_successI, case_tac x, simp, drule (1) sign_in_run, erule signed_off_mono, auto)[1]
  done

lemma signed_off_members:
  "kept_on_success (signed_off th a) (change_member_role p org m r)"
  "kept_on_success (signed_off th a) (suspend_member p org m)"
  "kept_on_success (signed_off th a) (reactivate_member p org m)"
  "kept_on_success (signed_off th a) (create_team p org n)"
  "kept_on_success (signed_off th a) (add_team_member p org t m tr)"
  "kept_on_success (signed_off th a) (change_team_member_role p org t m tr)"
  "kept_on_success (signed_off th a) (remove_team_member p org t m)"
  apply (rule kept_on_successI, drule (1) change_member_role_run, erule signed_off_mono, auto split: if_splits)[1]
  apply (rule kept_on_successI, drule (1) suspend_member_run, erule signed_off_mono, auto)[1]
  apply (rule kept_on_successI, drule (1) reactivate_member_run, erule signed_off_mono, auto)[1]
  apply (rule kept_on_successI, drule (1) create_team_run, erule signed_off_mono, auto)[1]
  apply (rule kept_on_successI, drule (1) add_team_member_run, erule signed_off_mono, auto)[1]
  apply (rule kept_on_successI, drule (1) change_team_member_role_run, erule signed_off_mono, auto)[1]
  apply (rule kept_on_successI, drule (1) remove_team_member_run, erule signed_off_mono; elim conjE; simp)
  done

lemma signed_off_channels:
  "kept_on_success (signed_off th a) (create_channel p org sc n)"
  "kept_on_success (signed_off th a) (add_channel_member p org ch m)"
  "kept_on_success (signed_off th a) (post_message api org ch m i b)"
  "kept_on_success (signed_off th a) (create_invite p org nt ex mu)"
  "kept_on_success (signed_off th a) (revoke_invite p org iv)"
  apply (rule kept_on_successI, drule (1) create_channel_run, erule signed_off_mono, auto)[1]
  apply (rule kept_on_successI, drule (1) add_channel_member_run, erule signed_off_mono, auto)[1]
  apply (rule kept_on_successI, drule (1) post_message_effect, erule signed_off_mono, auto)[1]
  apply (rule kept_on_successI, case_tac x, simp, drule (1) create_invite_run, erule signed_off_mono, auto)[1]
  apply (rule kept_on_successI, drule (1) revoke_invite_run, erule signed_off_mono, auto split: if_splits)[1]
  done

lemma signed_off_kept: "kept_by_operations api (signed_off th a)"
  unfolding kept_by_operations_def
proof (intro conjI allI)
  show "kept_on_success (signed_off th a) (revoke_session b th')" for b th'
  proof (rule kept_on_successI)
    fix c x c' assume h: "wire c = Healthy" and run: "revoke_session b th' c = (Inr x, c')"
      and inv: "signed_off th a (committed c)"
    let ?p = "\<lambda>r. s_actor r = b \<and> s_token_hash r = hash_str th'"
    let ?f = "\<lambda>r. r\<lparr>s_revoked_at := Some (case s_revoked_at r of Some t \<Rightarrow> t | None \<Rightarrow> clock c)\<rparr>"
    have eff: "committed c' = (committed c)\<lparr>sessions := update_where ?p ?f (sessions (committed c))\<rparr>"
      using revoke_session_run [OF h run] by blast
    show "signed_off th a (committed c')"
    proof (cases "departed (committed c) a")
      case True
      then show ?thesis by (simp add: signed_off_def departed_def eff)
    next
      case False
      with inv obtain r where r: "r \<in> set (sessions (committed c))" "s_token_hash r = hash_str th"
        "s_actor r = a" "s_revoked_at r \<noteq> None" by (auto simp: signed_off_def)
      then have "(if ?p r then ?f r else r) \<in> set (sessions (committed c'))"
        by (force simp: eff update_where_def)
      moreover have "s_token_hash (if ?p r then ?f r else r) = hash_str th \<and> s_actor (if ?p r then ?f r else r) = a
          \<and> s_revoked_at (if ?p r then ?f r else r) \<noteq> None" using r by simp
      ultimately show ?thesis unfolding signed_off_def by blast
    qed
  qed
  show "kept_on_success (signed_off th a) (leave_service b)" for b
  proof (rule kept_on_successI)
    fix c x c' assume h: "wire c = Healthy" and run: "leave_service b c = (Inr x, c')"
      and sch: "schema_ok (committed c)" and inv: "signed_off th a (committed c)"
    from leave_service_run [OF h run sch] obtain r es where r: "r \<in> set (actors (committed c))" "a_id r = b"
      and eff: "committed c' = (departed_rows b (clock c) (committed c))\<lparr>audit_events := es\<rparr>" by blast
    have "departed (committed c') a" if "a = b" using departed_departed_rows [OF r] that by (simp add: eff)
    moreover have "departed (committed c') a" if "a \<noteq> b" "departed (committed c) a"
    proof -
      from that(2) obtain x where "x \<in> set (actors (committed c))" "a_id x = a" "a_deleted_at x \<noteq> None"
        by (auto simp: departed_def list_ex_iff)
      then show ?thesis using that(1) unfolding eff departed_def departed_rows_def list_ex_iff
        by (intro bexI [of _ x]) (simp_all add: set_update_where)
    qed
    moreover have "signed_off th a (committed c')" if "a \<noteq> b" "\<not> departed (committed c) a"
      using inv that unfolding eff by (auto simp: signed_off_def departed_rows_def)
    ultimately show "signed_off th a (committed c')" unfolding signed_off_def by blast
  qed
qed (rule signed_off_people signed_off_members signed_off_channels)+

lemma leads_to_signed_off:
  "leads_to api d d' \<Longrightarrow> reachable api d \<Longrightarrow> signed_off th a d \<Longrightarrow> signed_off th a d'"
proof (induction rule: leads_to.induct)
  case (further d c r)
  then have "reachable api (committed c)" by (blast intro: leads_to_reachable)
  with further show ?case by (blast intro: kept_by_request [OF signed_off_kept] reachable_schema)
qed

text \<open>C34: A sign-out ends the session for good: in every database any requests lead to from there, at any time, its
  token never resolves to its person again, and to nobody at all unless that person has left the service, with whom
  the row goes that keeps the token taken. The sign-out itself changes no other session and no other table.\<close>

theorem sign_out_ends_the_session:
  assumes "reachable api (committed c)" "wire c = Healthy" "revoke_session a th c = (Inr u, c1)"
    and "leads_to api (committed c1) (committed c2)" "wire c2 = Healthy"
  shows "fst (resolve_session th c2) \<noteq> Inr a
    \<and> (fst (resolve_session th c2) = Inl session_error.NoSession \<or> departed (committed c2) a)
    \<and> filter (\<lambda>r. \<not> (s_token_hash r = hash_str th \<and> s_actor r = a)) (sessions (committed c1))
      = filter (\<lambda>r. \<not> (s_token_hash r = hash_str th \<and> s_actor r = a)) (sessions (committed c))
    \<and> committed c1 = (committed c)\<lparr>sessions := sessions (committed c1)\<rparr>"
proof -
  have c1: "committed c1 = committed (run_request api (RevokeSession a th) c)" using assms(3) by simp
  have reach1: "reachable api (committed c1)" using reachable.request [OF assms(1)] unfolding c1 .
  then have reach: "reachable api (committed c2)" by (rule leads_to_reachable [OF assms(4)])
  have "signed_off th a (committed c1)" using signed_out(1) [OF assms(2,3)] by (simp add: signed_off_def)
  then have "signed_off th a (committed c2)" by (rule leads_to_signed_off [OF assms(4) reach1])
  then have "departed (committed c2) a \<or> fst (resolve_session th c2) = Inl session_error.NoSession"
    using revoked_not_resolved [OF reachable_schema [OF reach] assms(5)] by (auto simp: signed_off_def)
  moreover have "fst (resolve_session th c2) \<noteq> Inr a" if "departed (committed c2) a"
    using locked_out_sessions(1) [OF departed_locked_out [OF reach that] assms(5)] .
  ultimately show ?thesis using signed_out(2,3) [OF assms(2,3)] by force
qed

text \<open>Bob signs out; a team is created; he signs in again with another token: the first one stays dead.\<close>

theorem sign_out_ends_the_session_witness:
  "fst (resolve_session (TokenHash ''cd'') (conn_at 16 (run_all 14 [CreateTeam 1000 2000 (lit ''Ops''),
      SignIn (lit ''Bob@X'') (\<lambda>h. Some (h = ''h2'')) (Some (''tok'', TokenHash ''ce'')) 20]
      (committed (snd (revoke_session 4000 (TokenHash ''cd'') (conn_at 13 demo))))))) = Inl session_error.NoSession"
proof -
  let ?run = "revoke_session 4000 (TokenHash ''cd'') (conn_at 13 demo)"
  have "fst ?run = Inr ()" by code_simp
  then have run: "?run = (Inr (), snd ?run)" by (metis prod.collapse)
  have reach: "reachable any_v7 (committed (conn_at 13 demo))" by (simp add: demo_reachable)
  let ?later = "conn_at 16 (run_all 14 [CreateTeam 1000 2000 (lit ''Ops''),
      SignIn (lit ''Bob@X'') (\<lambda>h. Some (h = ''h2'')) (Some (''tok'', TokenHash ''ce'')) 20] (committed (snd ?run)))"
  have "leads_to any_v7 (committed (snd ?run)) (committed ?later)"
    unfolding conn_at_simps by (rule leads_to_run_all)
  from sign_out_ends_the_session [OF reach conn_at_simps(2) run this conn_at_simps(2)]
  have "fst (resolve_session (TokenHash ''cd'') ?later) = Inl session_error.NoSession \<or> departed (committed ?later) 4000"
    by blast
  moreover have "\<not> departed (committed ?later) 4000" by code_simp
  ultimately show ?thesis by blast
qed

end
