(* ===== verification/Creation.thy ===== *)
theory Creation
  imports Administration
begin

text \<open>
  The outcome of founding an organization, and of creating a channel and adding someone to it, on every branch.
\<close>

section \<open>Founding an organization\<close>

lemma departed_state_of_self:
  assumes "schema_ok d"
  shows "departed_state (session_for (Actor a) c) d a
    = (if a \<in> key_set a_id (actors d) then Some (departed d a) else None)"
proof (cases "a \<in> key_set a_id (actors d)")
  case True
  then obtain r where r: "r \<in> set (actors d)" "a_id r = a" by (auto simp: key_set_def)
  have uniq: "distinct (map a_id (actors d))" using assms by (simp add: schema_ok_def actors_ok_def uniq_def)
  have "filter (\<lambda>x. sees_actor (session_for (Actor a) c) d x \<and> a_id x = a) (actors d) = filter (\<lambda>x. a_id x = a_id r) (actors d)"
    by (rule filter_cong) (auto simp: sees_actor_def r(2))
  also have "\<dots> = [r]" by (rule filter_key_singleton [OF uniq r(1)])
  finally have only: "filter (\<lambda>x. sees_actor (session_for (Actor a) c) d x \<and> a_id x = a) (actors d) = [r]" .
  have "departed d a \<longleftrightarrow> a_deleted_at r \<noteq> None"
    using r distinct_key_unique [OF uniq _ r(1)] unfolding departed_def list_ex_iff by metis
  then show ?thesis using True only by (simp add: departed_state_def)
next
  case False
  then have "filter (\<lambda>x. sees_actor (session_for (Actor a) c) d x \<and> a_id x = a) (actors d) = []"
    by (auto simp: filter_empty_conv key_set_def)
  then show ?thesis using False by (simp add: departed_state_def)
qed

definition founded :: "organization_id \<Rightarrow> actor_id \<Rightarrow> ustring \<Rightarrow> ustring \<Rightarrow> db \<Rightarrow> db" where
  "founded org a name slug d = d\<lparr>organizations := organizations d @ [\<lparr>o_id = org, o_name = name, o_slug = slug\<rparr>],
     organization_members := organization_members d
       @ [\<lparr>om_org = org, om_actor = a, om_role = ''owner'', om_status = ''active'', om_display_name = None\<rparr>]\<rparr>"

lemma no_members_yet:
  "schema_ok d \<Longrightarrow> org \<notin> key_set o_id (organizations d) \<Longrightarrow> m \<in> set (organization_members d) \<Longrightarrow> om_org m \<noteq> org"
  by (auto simp: schema_ok_def members_ok_def)

lemma insert_first_member:
  assumes "schema_ok d" "org \<notin> key_set o_id (organizations d)" "a \<in> key_set a_id (actors d)"
  shows "insert_member (session_for (Actor a) c) org a ''owner'' ''active''
      (d\<lparr>organizations := organizations d @ [\<lparr>o_id = org, o_name = name, o_slug = slug\<rparr>]\<rparr>)
    = Inr ((), founded org a name slug d)"
proof -
  have none: "\<not> organization_has_members d org" "(org, a) \<notin> key_set (\<lambda>m. (om_org m, om_actor m)) (organization_members d)"
    using no_members_yet [OF assms(1,2)] by (auto simp: organization_has_members_def list_ex_iff key_set_def)
  then show ?thesis
    using assms(3) by (simp add: insert_member_def Let_def checked.simps may_insert_member_def is_self_def
        organization_has_members_def role_all_def status_all_def founded_def)
qed

lemma founded_simps [simp]:
  "actors (founded org a n sl d) = actors d" "audit_events (founded org a n sl d) = audit_events d"
  "organizations (founded org a n sl d) = organizations d @ [\<lparr>o_id = org, o_name = n, o_slug = sl\<rparr>]"
  by (simp_all add: founded_def)

lemma founder_in_active: "in_active (session_for (Actor a) c) (founded org a n sl d) org"
  by (simp add: in_active_iff founded_def)

lemma in_active_of_audited [simp]: "in_active s (audited i ev org p d) = in_active s d"
  by (rule ext) (simp add: in_active_iff)

lemma audit_row_id [simp]: "ae_id (audit_row_of i ev org p) = i"
  by (simp add: audit_row_of_def)

lemma create_organization_result:
  assumes sch: "schema_ok (committed c)" and h: "wire c = Healthy" and texts: "bindable name" "bindable slug"
    and fresh: "uuids c (drawn c) \<notin> key_set o_id (organizations (committed c))"
      "uuids c (Suc (drawn c)) \<notin> key_set ae_id (audit_events (committed c))"
      "uuids c (Suc (Suc (drawn c))) \<notin> key_set ae_id (audit_events (committed c))"
      "uuids c (Suc (Suc (drawn c))) \<noteq> uuids c (Suc (drawn c))"
  shows "fst (create_organization a name slug c) =
    (if a \<notin> key_set a_id (actors (committed c)) then Inl create_organization_error.ActorNotFound
     else if departed (committed c) a then Inl create_organization_error.ActorDeparted
     else if \<not> slug_ok slug then Inl create_organization_error.InvalidSlug
     else if slug \<in> key_set o_slug (organizations (committed c)) then Inl create_organization_error.SlugTaken
     else Inr (uuids c (drawn c)))"
proof (cases "a \<in> key_set a_id (actors (committed c)) \<and> \<not> departed (committed c) a")
  case False
  then show ?thesis using h by (auto simp: create_organization_def tx_simps departed_state_of_self [OF sch])
next
  case True
  let ?d = "committed c" and ?org = "uuids c (drawn c)"
  have insert: "insert_organization (session_for (Actor a) c) ?org name slug ?d =
      (if \<not> slug_ok slug then Inl (ConstraintViolation ''organizations_slug_format'')
       else if slug \<in> key_set o_slug (organizations ?d) then Inl (ConstraintViolation ''organizations_slug_key'')
       else Inr ((), ?d\<lparr>organizations := organizations ?d @ [\<lparr>o_id = ?org, o_name = name, o_slug = slug\<rparr>]\<rparr>))"
    using texts fresh(1) by (simp add: insert_organization_def checked.simps may_insert_organization_def)
  note member = insert_first_member [OF sch fresh(1), of a c name slug]
  show ?thesis
    using True h fresh(2-4) insert member
    by (simp add: create_organization_def tx_simps departed_state_of_self [OF sch] attempt_write_event
        founder_in_active in_active_of_audited)
qed

text \<open>C22: In a reachable database, with storable texts and unused ids drawn, founding an organization is
  answered exactly as follows: actor not found for whoever is not stored, actor departed for the departed,
  invalid slug, slug taken, otherwise the new id. On success the founder is its only member, an active owner.\<close>

theorem founding_outcome:
  assumes "reachable api (committed c)" "wire c = Healthy" "bindable name" "bindable slug"
    and "uuids c (drawn c) \<notin> key_set o_id (organizations (committed c))"
      "uuids c (Suc (drawn c)) \<notin> key_set ae_id (audit_events (committed c))"
      "uuids c (Suc (Suc (drawn c))) \<notin> key_set ae_id (audit_events (committed c))"
      "uuids c (Suc (Suc (drawn c))) \<noteq> uuids c (Suc (drawn c))"
  shows "fst (create_organization a name slug c) =
    (if a \<notin> key_set a_id (actors (committed c)) then Inl create_organization_error.ActorNotFound
     else if departed (committed c) a then Inl create_organization_error.ActorDeparted
     else if \<not> slug_ok slug then Inl create_organization_error.InvalidSlug
     else if slug \<in> key_set o_slug (organizations (committed c)) then Inl create_organization_error.SlugTaken
     else Inr (uuids c (drawn c)))
   \<and> (\<not> isl (fst (create_organization a name slug c)) \<longrightarrow>
        filter (\<lambda>m. om_org m = uuids c (drawn c)) (organization_members (committed (snd (create_organization a name slug c))))
        = [\<lparr>om_org = uuids c (drawn c), om_actor = a, om_role = ''owner'', om_status = ''active'', om_display_name = None\<rparr>])"
proof (intro conjI impI)
  note sch = reachable_schema [OF assms(1)]
  show "fst (create_organization a name slug c) =
    (if a \<notin> key_set a_id (actors (committed c)) then Inl create_organization_error.ActorNotFound
     else if departed (committed c) a then Inl create_organization_error.ActorDeparted
     else if \<not> slug_ok slug then Inl create_organization_error.InvalidSlug
     else if slug \<in> key_set o_slug (organizations (committed c)) then Inl create_organization_error.SlugTaken
     else Inr (uuids c (drawn c)))"
    by (rule create_organization_result [OF sch assms(2-8)])
  assume "\<not> isl (fst (create_organization a name slug c))"
  then obtain org where "create_organization a name slug c = (Inr org, snd (create_organization a name slug c))"
    by (metis isl_def prod.collapse sum.exhaust)
  from create_organization_run [OF assms(2) this] no_members_yet [OF sch assms(5)]
  show "filter (\<lambda>m. om_org m = uuids c (drawn c)) (organization_members (committed (snd (create_organization a name slug c))))
      = [\<lparr>om_org = uuids c (drawn c), om_actor = a, om_role = ''owner'', om_status = ''active'', om_display_name = None\<rparr>]"
    by (auto simp: filter_empty_conv)
qed

theorem founding_outcome_witness:
  "fst (create_organization 4000 (lit ''Bob'') (lit ''bob'') (conn_at 13 demo)) = Inr 13000
   \<and> fst (create_organization 4000 (lit ''Bob'') (lit ''org'') (conn_at 13 demo)) = Inl create_organization_error.SlugTaken
   \<and> fst (create_organization 4000 (lit ''Bob'') (lit ''-b'') (conn_at 13 demo)) = Inl create_organization_error.InvalidSlug
   \<and> fst (create_organization 4711 (lit ''Bob'') (lit ''bob'') (conn_at 13 demo)) = Inl create_organization_error.ActorNotFound"
proof -
  let ?c = "conn_at 13 demo"
  have reach: "reachable any_v7 (committed ?c)" by (simp add: demo_reachable)
  have texts: "bindable (lit ''Bob'')" "bindable (lit ''bob'')" "bindable (lit ''org'')" "bindable (lit ''-b'')"
    by code_simp+
  have ids: "uuids ?c (drawn ?c) \<notin> key_set o_id (organizations (committed ?c))"
    "uuids ?c (Suc (drawn ?c)) \<notin> key_set ae_id (audit_events (committed ?c))"
    "uuids ?c (Suc (Suc (drawn ?c))) \<notin> key_set ae_id (audit_events (committed ?c))"
    "uuids ?c (Suc (Suc (drawn ?c))) \<noteq> uuids ?c (Suc (drawn ?c))"
    by code_simp+
  have drawn: "uuids ?c (drawn ?c) = 13000" by code_simp
  have facts: "4000 \<in> key_set a_id (actors demo)" "4711 \<notin> key_set a_id (actors demo)" "\<not> departed demo 4000"
    "slug_ok (lit ''bob'')" "slug_ok (lit ''org'')" "\<not> slug_ok (lit ''-b'')"
    "lit ''bob'' \<notin> key_set o_slug (organizations demo)" "lit ''org'' \<in> key_set o_slug (organizations demo)"
    by code_simp+
  note outcome = founding_outcome [OF reach conn_at_simps(2) texts(1) _ ids, THEN conjunct1]
  show ?thesis
    using outcome [OF texts(2), of 4000] outcome [OF texts(3), of 4000] outcome [OF texts(4), of 4000]
      outcome [OF texts(2), of 4711] facts by (simp add: drawn)
qed

section \<open>Channels\<close>

text \<open>Names are compared without case, among the channels of the same team or the organization's own.\<close>

definition channel_name_taken :: "db \<Rightarrow> organization_id \<Rightarrow> channel_scope \<Rightarrow> ustring \<Rightarrow> bool" where
  "channel_name_taken d org scope name \<longleftrightarrow> (case scope of
     OrganizationScope \<Rightarrow> list_ex (\<lambda>r. ch_scope r = ''organization'' \<and> ch_org r = org
       \<and> ascii_lower (ch_name r) = ascii_lower name) (channels d)
   | TeamScope t \<Rightarrow> list_ex (\<lambda>r. ch_scope r = ''team'' \<and> ch_team r = Some t
       \<and> ascii_lower (ch_name r) = ascii_lower name) (channels d))"

lemma insert_channel_result:
  assumes "bindable name" "in_active s d org" "i \<notin> key_set ch_id (channels d)" "org \<in> key_set o_id (organizations d)"
    and "case scope of OrganizationScope \<Rightarrow> True | TeamScope t \<Rightarrow> (t, org) \<in> key_set (\<lambda>r. (t_id r, t_org r)) (teams d)"
  shows "insert_channel s i org (scope_team scope) scope name d =
    (if length name \<notin> {1..80} then Inl (ConstraintViolation ''channels_name_check'')
     else if channel_name_taken d org scope name
     then Inl (ConstraintViolation (case scope of OrganizationScope \<Rightarrow> ''channels_organization_name_key''
        | TeamScope t \<Rightarrow> ''channels_team_name_key''))
     else Inr ((), d\<lparr>channels := channels d @ [\<lparr>ch_id = i, ch_org = org, ch_team = scope_team scope,
       ch_scope = scope_str scope, ch_name = name, ch_next_seq = 0\<rparr>]\<rparr>))"
proof (cases scope)
  case OrganizationScope
  have "channel_name_taken d org scope name \<longleftrightarrow> (org, ascii_lower name)
      \<in> key_set (\<lambda>c. (ch_org c, ascii_lower (ch_name c))) (filter (\<lambda>c. ch_scope c = ''organization'') (channels d))"
    by (force simp: channel_name_taken_def OrganizationScope key_set_def list_ex_iff)
  then show ?thesis
    using assms by (auto simp: insert_channel_def checked.simps scope_team_def OrganizationScope)
next
  case (TeamScope t)
  have "channel_name_taken d org scope name \<longleftrightarrow> (Some t, ascii_lower name)
      \<in> key_set (\<lambda>c. (ch_team c, ascii_lower (ch_name c))) (filter (\<lambda>c. ch_scope c = ''team'') (channels d))"
    by (force simp: channel_name_taken_def TeamScope key_set_def list_ex_iff)
  then show ?thesis
    using assms by (auto simp: insert_channel_def checked.simps scope_team_def TeamScope)
qed

definition owned_by_scope :: "db \<Rightarrow> organization_id \<Rightarrow> channel_scope \<Rightarrow> bool" where
  "owned_by_scope d org scope \<longleftrightarrow> (case scope of OrganizationScope \<Rightarrow> True | TeamScope t \<Rightarrow> has_team d org t)"

lemma create_channel_result:
  assumes sch: "schema_ok (committed c)" and h: "wire c = Healthy" and act: "active_member (committed c) org p"
    and name: "bindable name"
    and fresh: "uuids c (drawn c) \<notin> key_set ch_id (channels (committed c))"
      "uuids c (Suc (drawn c)) \<notin> key_set ae_id (audit_events (committed c))"
  shows "fst (create_channel p org scope name c) =
    (if \<not> owned_by_scope (committed c) org scope then Inl create_channel_error.NotFound
     else if length name \<notin> {1..80} then Inl (create_channel_error.Database (ConstraintViolation ''channels_name_check''))
     else if channel_name_taken (committed c) org scope name then Inl create_channel_error.NameTaken
     else Inr (uuids c (drawn c)))"
proof -
  let ?d = "committed c" and ?s = "session_for (Actor p) c"
  have in_act: "in_active ?s ?d org" and vis: "visible_organization org ?s ?d \<noteq> None"
    using active_sees [OF sch act] by blast+
  have keys: "org \<in> key_set o_id (organizations ?d)" "p \<in> key_set a_id (actors ?d)"
    using member_update_facts(3,4) [OF sch act, of p "\<lambda>m. m"] by blast+
  have still: "in_active ?s (?d\<lparr>channels := x\<rparr>) org" for x using in_act by (simp add: in_active_iff)
  note ins = insert_channel_result [OF name in_act fresh(1) keys(1)]
  show ?thesis
  proof (cases scope)
    case OrganizationScope
    show ?thesis
      using h vis fresh(2) keys still ins [of OrganizationScope]
      by (simp add: create_channel_def tx_simps OrganizationScope owned_by_scope_def scope_team_def attempt_write_event)
  next
    case (TeamScope t)
    show ?thesis
    proof (cases "has_team ?d org t")
      case False
      then show ?thesis using h vis in_act
        by (simp add: create_channel_def tx_simps TeamScope owned_by_scope_def team_row_of_in_active attempt_def [of id])
    next
      case True
      then obtain tr where row: "team_row_of org t ?s ?d = Some tr" using team_row_of_in_active [OF in_act] by blast
      have "(t, org) \<in> key_set (\<lambda>r. (t_id r, t_org r)) (teams ?d)" by (rule team_keys(2) [OF sch True])
      then show ?thesis
        using h vis row fresh(2) keys still True ins [of "TeamScope t"]
        by (simp add: create_channel_def tx_simps TeamScope owned_by_scope_def scope_team_def attempt_write_event)
    qed
  qed
qed

text \<open>Whom a performer can name: itself, and whoever has a row in an organization it is active in.\<close>

definition known_to :: "db \<Rightarrow> actor_id \<Rightarrow> actor_id \<Rightarrow> bool" where
  "known_to d p a \<longleftrightarrow> a = p \<or> list_ex (\<lambda>m. om_actor m = a \<and> active_member d (om_org m) p) (organization_members d)"

lemma known_is_stored:
  assumes "schema_ok d" "active_member d org p" "known_to d p a"
  shows "a \<in> key_set a_id (actors d)"
  using assms by (auto simp: known_to_def active_member_def schema_ok_def members_ok_def list_ex_iff)

lemma departed_state_of_known:
  assumes "schema_ok d" "active_member d org p"
  shows "departed_state (session_for (Actor p) c) d a = (if known_to d p a then Some (departed d a) else None)"
proof (cases "known_to d p a")
  case True
  from known_is_stored [OF assms True] obtain r where r: "r \<in> set (actors d)" "a_id r = a" by (auto simp: key_set_def)
  have uniq: "distinct (map a_id (actors d))" using assms(1) by (simp add: schema_ok_def actors_ok_def uniq_def)
  have "sees_actor (session_for (Actor p) c) d r"
    using True r(2) unfolding known_to_def sees_actor_def by (force simp: list_ex_iff sees_member_def in_active_session_for)
  then have "sees_actor (session_for (Actor p) c) d x" if "x \<in> set (actors d)" "a_id x = a" for x
    using distinct_key_unique [OF uniq that(1) r(1)] that(2) r(2) by simp
  then have "filter (\<lambda>x. sees_actor (session_for (Actor p) c) d x \<and> a_id x = a) (actors d) = filter (\<lambda>x. a_id x = a_id r) (actors d)"
    by (intro filter_cong) (auto simp: r(2))
  also have "\<dots> = [r]" by (rule filter_key_singleton [OF uniq r(1)])
  finally have only: "filter (\<lambda>x. sees_actor (session_for (Actor p) c) d x \<and> a_id x = a) (actors d) = [r]" .
  have "departed d a \<longleftrightarrow> a_deleted_at r \<noteq> None"
    using r distinct_key_unique [OF uniq _ r(1)] unfolding departed_def list_ex_iff by metis
  then show ?thesis using True only by (simp add: departed_state_def)
next
  case False
  then have "\<not> sees_actor (session_for (Actor p) c) d x" if "a_id x = a" for x
    using that by (auto simp: known_to_def sees_actor_def list_ex_iff sees_member_def in_active_session_for)
  then have "filter (\<lambda>x. sees_actor (session_for (Actor p) c) d x \<and> a_id x = a) (actors d) = []"
    unfolding filter_empty_conv by blast
  then show ?thesis using False by (simp add: departed_state_def)
qed

lemma insert_channel_member_result:
  assumes "schema_ok d" "in_active s d org" "row \<in> set (channels d)" "ch_org row = org" "ch_id row = ch"
    and "ch_scope row = ''team''" "a \<in> key_set a_id (actors d)"
  shows "insert_channel_member s org ch a d =
    (if (ch, a) \<in> key_set (\<lambda>m. (cm_channel m, cm_actor m)) (channel_members d)
     then Inl (ConstraintViolation ''channel_members_pkey'')
     else Inr ((), d\<lparr>channel_members := channel_members d
       @ [\<lparr>cm_channel = ch, cm_scope = ''team'', cm_org = org, cm_actor = a\<rparr>]\<rparr>))"
proof -
  have uniq: "distinct (map ch_id (channels d))" using assms(1) by (simp add: schema_ok_def channels_ok_def uniq_def)
  have "filter (\<lambda>x. sees_channel s d x \<and> ch_org x = org \<and> ch_id x = ch) (channels d) = filter (\<lambda>x. ch_id x = ch_id row) (channels d)"
  proof (rule filter_cong)
    fix x assume x: "x \<in> set (channels d)"
    show "sees_channel s d x \<and> ch_org x = org \<and> ch_id x = ch \<longleftrightarrow> ch_id x = ch_id row"
    proof
      assume "ch_id x = ch_id row"
      then have "x = row" by (rule distinct_key_unique [OF uniq x assms(3)])
      then show "sees_channel s d x \<and> ch_org x = org \<and> ch_id x = ch"
        using assms(2,4,5) by (simp add: sees_channel_def)
    qed (simp add: assms(5))
  qed simp
  also have "\<dots> = [row]" by (rule filter_key_singleton [OF uniq assms(3)])
  finally have only: "filter (\<lambda>x. sees_channel s d x \<and> ch_org x = org \<and> ch_id x = ch) (channels d) = [row]" .
  have "ch \<in> ch_id ` set (filter (sees_channel s d) (channels d))"
    using assms(2-5) by (force simp: sees_channel_def)
  moreover have "(ch, ''team'', org) \<in> key_set (\<lambda>x. (ch_id x, ch_scope x, ch_org x)) (channels d)"
    using assms(3-6) by (force simp: key_set_def)
  ultimately show ?thesis
    using assms(4-7) by (simp add: insert_channel_member_def only checked.simps may_insert_channel_member_def Let_def)
qed

lemma add_channel_member_result:
  assumes sch: "schema_ok (committed c)" and h: "wire c = Healthy" and act: "active_member (committed c) org p"
    and fresh: "uuids c (drawn c) \<notin> key_set ae_id (audit_events (committed c))"
  shows "fst (add_channel_member p org ch a c) =
    (case find (\<lambda>r. ch_org r = org \<and> ch_id r = ch) (channels (committed c)) of
       None \<Rightarrow> Inl add_channel_member_error.NotFound
     | Some r \<Rightarrow>
         if ch_scope r = ''organization'' then Inl add_channel_member_error.OrganizationScoped
         else if \<not> known_to (committed c) p a then Inl add_channel_member_error.NotFound
         else if departed (committed c) a then Inl add_channel_member_error.ActorDeparted
         else if list_ex (\<lambda>m. cm_channel m = ch \<and> cm_actor m = a) (channel_members (committed c))
         then Inl add_channel_member_error.AlreadyMember
         else Inr ())"
proof -
  let ?d = "committed c" and ?s = "session_for (Actor p) c"
  have in_act: "in_active ?s ?d org" and vis: "visible_organization org ?s ?d \<noteq> None"
    using active_sees [OF sch act] by blast+
  have keys: "org \<in> key_set o_id (organizations ?d)" "p \<in> key_set a_id (actors ?d)"
    using member_update_facts(3,4) [OF sch act, of p "\<lambda>m. m"] by blast+
  have still: "in_active ?s (?d\<lparr>channel_members := x\<rparr>) org" for x using in_act by (simp add: in_active_iff)
  have row: "channel_row_of org ch ?s ?d = find (\<lambda>r. ch_org r = org \<and> ch_id r = ch) (channels ?d)"
    unfolding channel_row_of_def find_filter
    by (rule arg_cong [where f = fetch_optional], rule filter_cong) (use in_act in \<open>auto simp: sees_channel_def\<close>)
  note ev = add_channel_member_def tx_simps row departed_state_of_known [OF sch act]
  show ?thesis
  proof (cases "find (\<lambda>r. ch_org r = org \<and> ch_id r = ch) (channels ?d)")
    case None
    then show ?thesis using h vis by (simp add: ev)
  next
    case (Some r)
    then have r: "r \<in> set (channels ?d)" "ch_org r = org" "ch_id r = ch" using find_in [OF Some] by blast+
    show ?thesis
    proof (cases "ch_scope r = ''organization'' \<or> \<not> known_to ?d p a \<or> departed ?d a")
      case True
      then show ?thesis using h vis Some by (auto simp: ev)
    next
      case False
      have "ch_scope r = ''team''" using sch r(1) False by (auto simp: schema_ok_def channels_ok_def channel_row_ok_def)
      note result = insert_channel_member_result [OF sch in_act r this known_is_stored [OF sch act]]
      have listed: "(ch, a) \<in> key_set (\<lambda>m. (cm_channel m, cm_actor m)) (channel_members ?d)
          \<longleftrightarrow> list_ex (\<lambda>m. cm_channel m = ch \<and> cm_actor m = a) (channel_members ?d)"
        by (force simp: key_set_def list_ex_iff)
      have ins: "insert_channel_member ?s org ch a ?d =
        (if list_ex (\<lambda>m. cm_channel m = ch \<and> cm_actor m = a) (channel_members ?d)
         then Inl (ConstraintViolation ''channel_members_pkey'')
         else Inr ((), ?d\<lparr>channel_members := channel_members ?d
           @ [\<lparr>cm_channel = ch, cm_scope = ''team'', cm_org = org, cm_actor = a\<rparr>]\<rparr>))"
        using result [of a] False by (simp add: listed)
      show ?thesis using h vis Some False fresh keys still ins by (simp add: ev attempt_write_event)
    qed
  qed
qed

text \<open>C21: In a reachable database an active member (with unused ids for what is written) is answered exactly as
  follows. Creating a channel: not found for a team the organization does not have, a database error for a name
  of no or more than 80 characters, name taken, otherwise the new id. Adding to a channel: not found without that
  channel, organization scoped, not found for whoever the performer cannot see, actor departed, already member,
  otherwise success - a member of another organization included, if the performer is active there.\<close>

theorem channel_outcome:
  assumes "reachable api (committed c)" "wire c = Healthy" "active_member (committed c) org p" "bindable name"
    and "uuids c (drawn c) \<notin> key_set ch_id (channels (committed c))"
      "uuids c (drawn c) \<notin> key_set ae_id (audit_events (committed c))"
      "uuids c (Suc (drawn c)) \<notin> key_set ae_id (audit_events (committed c))"
  shows "fst (create_channel p org scope name c) =
      (if \<not> owned_by_scope (committed c) org scope then Inl create_channel_error.NotFound
       else if length name \<notin> {1..80} then Inl (create_channel_error.Database (ConstraintViolation ''channels_name_check''))
       else if channel_name_taken (committed c) org scope name then Inl create_channel_error.NameTaken
       else Inr (uuids c (drawn c)))
    \<and> fst (add_channel_member p org ch a c) =
      (case find (\<lambda>r. ch_org r = org \<and> ch_id r = ch) (channels (committed c)) of
         None \<Rightarrow> Inl add_channel_member_error.NotFound
       | Some r \<Rightarrow>
           if ch_scope r = ''organization'' then Inl add_channel_member_error.OrganizationScoped
           else if \<not> known_to (committed c) p a then Inl add_channel_member_error.NotFound
           else if departed (committed c) a then Inl add_channel_member_error.ActorDeparted
           else if list_ex (\<lambda>m. cm_channel m = ch \<and> cm_actor m = a) (channel_members (committed c))
           then Inl add_channel_member_error.AlreadyMember
           else Inr ())"
  by (intro conjI create_channel_result add_channel_member_result reachable_schema [OF assms(1)] assms(2-7))

theorem channel_outcome_witness:
  "fst (create_channel 4000 2000 OrganizationScope (lit ''ALL'') (conn_at 13 demo)) = Inl create_channel_error.NameTaken
   \<and> fst (create_channel 4000 2000 (TeamScope 5000) (lit ''ALL'') (conn_at 13 demo)) = Inr 13000
   \<and> fst (add_channel_member 1000 2000 8000 1000 (conn_at 13 demo)) = Inr ()
   \<and> fst (add_channel_member 1000 2000 8000 4000 (conn_at 13 demo)) = Inl add_channel_member_error.AlreadyMember
   \<and> fst (add_channel_member 1000 2000 7000 1000 (conn_at 13 demo)) = Inl add_channel_member_error.OrganizationScoped
   \<and> fst (add_channel_member 1000 2000 8000 4711 (conn_at 13 demo)) = Inl add_channel_member_error.NotFound"
proof -
  let ?c = "conn_at 13 demo"
  have reach: "reachable any_v7 (committed ?c)" by (simp add: demo_reachable)
  have active: "active_member (committed ?c) 2000 1000" "active_member (committed ?c) 2000 4000"
    by (simp_all add: demo_def active_member_def)
  have storable: "bindable (lit ''ALL'')" by code_simp
  have ids: "uuids ?c (drawn ?c) \<notin> key_set ch_id (channels (committed ?c))"
    "uuids ?c (drawn ?c) \<notin> key_set ae_id (audit_events (committed ?c))"
    "uuids ?c (Suc (drawn ?c)) \<notin> key_set ae_id (audit_events (committed ?c))"
    by code_simp+
  have drawn: "uuids ?c (drawn ?c) = 13000" by code_simp
  have names: "channel_name_taken demo 2000 OrganizationScope (lit ''ALL'')"
    "\<not> channel_name_taken demo 2000 (TeamScope 5000) (lit ''ALL'')" "length (lit ''ALL'') = 3"
    "owned_by_scope demo 2000 OrganizationScope" "owned_by_scope demo 2000 (TeamScope 5000)"
    by code_simp+
  have rows: "find (\<lambda>r. ch_org r = 2000 \<and> ch_id r = 8000) (channels demo) = Some (channels demo ! 1)"
    "find (\<lambda>r. ch_org r = 2000 \<and> ch_id r = 7000) (channels demo) = Some (channels demo ! 0)"
    "ch_scope (channels demo ! 1) = ''team''" "ch_scope (channels demo ! 0) = ''organization''"
    "known_to demo 1000 1000" "known_to demo 1000 4000" "\<not> known_to demo 1000 4711"
    "\<not> departed demo 1000" "\<not> departed demo 4000"
    "list_ex (\<lambda>m. cm_channel m = 8000 \<and> cm_actor m = 4000) (channel_members demo)"
    "\<not> list_ex (\<lambda>m. cm_channel m = 8000 \<and> cm_actor m = 1000) (channel_members demo)"
    by (simp_all add: demo_def known_to_def departed_def active_member_def)
  note outcome = channel_outcome [OF reach conn_at_simps(2) _ storable ids]
  show ?thesis
    using outcome [OF active(2), of OrganizationScope, THEN conjunct1] outcome [OF active(2), of "TeamScope 5000", THEN conjunct1]
      outcome [OF active(1), THEN conjunct2, of 8000 1000] outcome [OF active(1), THEN conjunct2, of 8000 4000]
      outcome [OF active(1), THEN conjunct2, of 7000 1000] outcome [OF active(1), THEN conjunct2, of 8000 4711]
    by (simp add: drawn names rows [unfolded One_nat_def])
qed

end
