(* ===== verification/Scripts.thy ===== *)
theory Scripts
  imports Departure Membership
begin

text \<open>
  The four operations that change memberships (\<open>membership.rs\<close>, \<open>leaving.rs\<close>) once more, this time as scripts:
  trees of single statements with the row locks each one waits for, so that other transactions can run between
  any two statements. A script run alone is the operation of \<open>Membership\<close> or \<open>Leaving\<close>; that is proved at the end.
\<close>

section \<open>Statements that wait\<close>

text \<open>
  \<open>FOR UPDATE\<close> excludes every other lock on the row. \<open>ForShare\<close> stands for \<open>FOR SHARE\<close> and for the
  \<open>FOR KEY SHARE\<close> a foreign key check takes: neither excludes the other.
\<close>

datatype lock_mode = ForUpdate | ForShare

datatype locked_row = ActorRow actor_id | OrganizationRow organization_id | MemberRow organization_id actor_id

type_synonym held = "(locked_row \<times> lock_mode) list"

definition blocks :: "locked_row \<times> lock_mode \<Rightarrow> locked_row \<times> lock_mode \<Rightarrow> bool" where
  "blocks x y \<longleftrightarrow> fst x = fst y \<and> \<not> (snd x = ForShare \<and> snd y = ForShare)"

definition compatible :: "held \<Rightarrow> held \<Rightarrow> bool" where
  "compatible xs ys \<longleftrightarrow> list_all (\<lambda>x. list_all (\<lambda>y. \<not> blocks x y) ys) xs"

text \<open>What a statement wrote: row versions that nobody else sees before the commit.\<close>

datatype change =
    RoleWritten organization_id actor_id string
  | StatusWritten organization_id actor_id string
  | LeftWritten organization_id actor_id
  | AuditAdded audit_row
  | TeamsDropped organization_id actor_id
  | ChannelsDropped organization_id actor_id
  | UserDropped actor_id
  | ActorErased actor_id instant

fun written :: "change \<Rightarrow> db \<Rightarrow> db" where
  "written (RoleWritten org a role) d = rewrite_member org a (\<lambda>m. m\<lparr>om_role := role\<rparr>) d"
| "written (StatusWritten org a status) d = rewrite_member org a (\<lambda>m. m\<lparr>om_status := status\<rparr>) d"
| "written (LeftWritten org a) d = rewrite_member org a (\<lambda>m. m\<lparr>om_status := ''left'', om_display_name := None\<rparr>) d"
| "written (AuditAdded e) d = d\<lparr>audit_events := audit_events d @ [e]\<rparr>"
| "written (TeamsDropped org a) d =
     d\<lparr>team_members := filter (\<lambda>m. \<not> (tm_org m = org \<and> tm_actor m = a)) (team_members d)\<rparr>"
| "written (ChannelsDropped org a) d =
     d\<lparr>channel_members := filter (\<lambda>m. \<not> (cm_org m = org \<and> cm_actor m = a)) (channel_members d)\<rparr>"
| "written (UserDropped a) d = d\<lparr>users := filter (\<lambda>u. u_actor_id u \<noteq> a) (users d),
     sessions := filter (\<lambda>r. \<not> (s_actor r = a \<and> a \<in> key_set u_actor_id (users d))) (sessions d)\<rparr>"
| "written (ActorErased a t) d = d\<lparr>actors := update_where (\<lambda>r. a_id r = a)
     (\<lambda>r. r\<lparr>a_display_name := None, a_deleted_at := Some t\<rparr>) (actors d)\<rparr>"

definition replay :: "change list \<Rightarrow> db \<Rightarrow> db" where
  "replay ws d = fold written ws d"

lemma replay_simps [simp]: "replay [] d = d" "replay (ws @ ws') d = replay ws' (replay ws d)"
  "replay (w # ws) d = replay ws (written w d)"
  by (simp_all add: replay_def)

datatype failure =
    RoleFailed change_member_role_error
  | SuspendFailed suspend_member_error
  | ReactivateFailed reactivate_member_error
  | LeaveFailed leave_service_error

text \<open>
  \<open>Read\<close> is a SELECT, evaluated on what is committed and the transaction's own writes when it runs. \<open>Lock\<close> waits
  for a row lock. \<open>Write\<close> waits for its locks, then fails or adds writes; the rest may depend on what it saw.
\<close>

datatype script =
    Fail failure
  | Commit
  | Read "session \<Rightarrow> db \<Rightarrow> script"
  | Lock locked_row lock_mode script
  | Draw "uuid \<Rightarrow> script"
  | Write held "session \<Rightarrow> db \<Rightarrow> sqlx_error + change list" "sqlx_error \<Rightarrow> failure" "session \<Rightarrow> db \<Rightarrow> script"

text \<open>A script with nothing running beside it: no lock has to be waited for.\<close>

primrec alone :: "script \<Rightarrow> session \<Rightarrow> (nat \<Rightarrow> uuid) \<Rightarrow> nat \<Rightarrow> change list \<Rightarrow> db \<Rightarrow> failure + db" where
  "alone (Fail e) s us n ws d = Inl e"
| "alone Commit s us n ws d = Inr (replay ws d)"
| "alone (Read k) s us n ws d = alone (k s (replay ws d)) s us n ws d"
| "alone (Lock row mode p) s us n ws d = alone p s us n ws d"
| "alone (Draw k) s us n ws d = alone (k (us n)) s us (Suc n) ws d"
| "alone (Write locks f h k) s us n ws d =
     (case f s (replay ws d) of
        Inl e \<Rightarrow> Inl (h e)
      | Inr w \<Rightarrow> alone (k s (replay ws d)) s us n (ws @ w) d)"

section \<open>The parts the operations share\<close>

definition outcome :: "sqlx_error + 'a \<Rightarrow> change list \<Rightarrow> sqlx_error + change list" where
  "outcome r ws = (case r of Inl e \<Rightarrow> Inl e | Inr _ \<Rightarrow> Inr ws)"

primrec lock_all :: "locked_row list \<Rightarrow> lock_mode \<Rightarrow> script \<Rightarrow> script" where
  "lock_all [] mode p = p"
| "lock_all (r # rs) mode p = Lock r mode (lock_all rs mode p)"

text \<open>
  \<open>lock_actor\<close>: the rows the statement sees are locked in the order of their ids; once a row is locked, its
  latest version is what the statement returns. Whether a row is visible is decided when the statement starts.
\<close>

definition latest_departed :: "actor_id \<Rightarrow> db \<Rightarrow> bool option" where
  "latest_departed actor d =
     map_option (\<lambda>r. a_deleted_at r \<noteq> None) (fetch_optional (filter (\<lambda>r. a_id r = actor) (actors d)))"

definition lock_actor_script :: "actor_id \<Rightarrow> actor_id \<Rightarrow> (bool option \<Rightarrow> script) \<Rightarrow> script" where
  "lock_actor_script actor performed_by k = Read (\<lambda>s d.
     let seen = map a_id (actor_pair actor performed_by s d)
     in lock_all (map ActorRow seen) ForShare (Read (\<lambda>s d.
          k (if actor \<in> set seen then latest_departed actor d else None))))"

definition lock_organization_script :: "organization_id \<Rightarrow> (bool \<Rightarrow> script) \<Rightarrow> script" where
  "lock_organization_script org k = Read (\<lambda>s d.
     if visible_organization org s d = None then k False else Lock (OrganizationRow org) ForUpdate (k True))"

definition member_script ::
    "organization_id \<Rightarrow> actor_id \<Rightarrow> (sqlx_error \<Rightarrow> failure) \<Rightarrow> ((organization_role \<times> member_status) option \<Rightarrow> script) \<Rightarrow> script" where
  "member_script org a h k = Read (\<lambda>s d. case member_row org a s d of
       None \<Rightarrow> k None
     | Some row \<Rightarrow>
         (case role_parse (om_role row) of
            None \<Rightarrow> Fail (h (Protocol ''invalid stored organization role''))
          | Some role \<Rightarrow>
              (case status_parse (om_status row) of
                 None \<Rightarrow> Fail (h (Protocol ''invalid stored membership status''))
               | Some status \<Rightarrow> k (Some (role, status)))))"

definition owners_script :: "organization_id \<Rightarrow> (actor_id list \<Rightarrow> script) \<Rightarrow> script" where
  "owners_script org k = Read (\<lambda>s d. k (map om_actor (owner_rows org s d)))"

text \<open>The audit INSERT checks its foreign keys: it locks the organization and the actor \<open>FOR KEY SHARE\<close>.\<close>

definition record_script :: "event \<Rightarrow> organization_id \<Rightarrow> actor_id \<Rightarrow> (sqlx_error \<Rightarrow> failure) \<Rightarrow> script \<Rightarrow> script" where
  "record_script ev org p h rest = Draw (\<lambda>i.
     Write [(OrganizationRow org, ForShare), (ActorRow p, ForShare)]
       (\<lambda>s d. outcome (insert_audit s (audit_row_of i ev org p) d) [AuditAdded (audit_row_of i ev org p)]) h
       (\<lambda>_ _. rest))"

text \<open>An UPDATE of one membership locks the row; it writes when the row is visible.\<close>

definition update_script ::
    "organization_id \<Rightarrow> actor_id \<Rightarrow> (session \<Rightarrow> db \<Rightarrow> sqlx_error + (unit \<times> db)) \<Rightarrow> change
       \<Rightarrow> (sqlx_error \<Rightarrow> failure) \<Rightarrow> script \<Rightarrow> script" where
  "update_script org a statement w h rest = Write [(MemberRow org a, ForUpdate)]
     (\<lambda>s d. outcome (statement s d) (if in_active s d org \<or> is_self s a then [w] else [])) h (\<lambda>_ _. rest)"

section \<open>The operations\<close>

definition change_role_script ::
    "actor_id \<Rightarrow> organization_id \<Rightarrow> actor_id \<Rightarrow> organization_role \<Rightarrow> script" where
  "change_role_script p org a role =
     lock_actor_script p p (\<lambda>_.
     lock_organization_script org (\<lambda>found.
     if \<not> found then Fail (RoleFailed change_member_role_error.NotFound)
     else
       member_script org a (\<lambda>e. RoleFailed (change_member_role_error.Database e)) (\<lambda>row.
       (case row of
          None \<Rightarrow> Fail (RoleFailed change_member_role_error.NotFound)
        | Some (from, status) \<Rightarrow>
            if status = Left then Fail (RoleFailed change_member_role_error.NotFound)
            else if from = role then Commit
            else
              (let update = update_script org a (\<lambda>s. set_member_role s org a role) (RoleWritten org a (role_str role))
                     (\<lambda>e. RoleFailed (change_member_role_error.Database e))
                     (record_script (member_role_changed a from role) org p
                        (\<lambda>e. RoleFailed (change_member_role_error.Database e)) Commit)
               in if status = Active \<and> from = Owner \<and> role \<noteq> Owner
                  then owners_script org (\<lambda>owners. case check_owner_change owners (Demote a) of
                         Inl e \<Rightarrow> Fail (RoleFailed (change_member_role_of_last_owner e))
                       | Inr _ \<Rightarrow> update)
                  else update)))))"

definition suspend_script :: "actor_id \<Rightarrow> organization_id \<Rightarrow> actor_id \<Rightarrow> script" where
  "suspend_script p org a =
     lock_actor_script p p (\<lambda>_.
     lock_organization_script org (\<lambda>found.
     if \<not> found then Fail (SuspendFailed suspend_member_error.NotFound)
     else
       member_script org a (\<lambda>e. SuspendFailed (suspend_member_error.Database e)) (\<lambda>row.
       (case row of
          None \<Rightarrow> Fail (SuspendFailed suspend_member_error.NotFound)
        | Some (role, status) \<Rightarrow>
            if status \<noteq> Active then Fail (SuspendFailed suspend_member_error.NotActive)
            else
              (let update = update_script org a (\<lambda>s. set_member_status s org a Suspended) (StatusWritten org a ''suspended'')
                     (\<lambda>e. SuspendFailed (suspend_member_error.Database e))
                     (record_script (member_suspended a) org p
                        (\<lambda>e. SuspendFailed (suspend_member_error.Database e)) Commit)
               in if role = Owner
                  then owners_script org (\<lambda>owners. case check_owner_change owners (Suspend a) of
                         Inl e \<Rightarrow> Fail (SuspendFailed (suspend_member_of_last_owner e))
                       | Inr _ \<Rightarrow> update)
                  else update)))))"

text \<open>
  \<open>reactivate_member\<close> goes on when \<open>lock_actor\<close> did not see the actor (\<open>departed\<close> is \<open>None\<close>). With \<open>strict\<close> set
  it stops there instead, as \<open>add_channel_member\<close> does; the code is \<open>strict = False\<close>.
\<close>

definition reactivate_script :: "bool \<Rightarrow> actor_id \<Rightarrow> organization_id \<Rightarrow> actor_id \<Rightarrow> script" where
  "reactivate_script strict p org a =
     lock_actor_script a p (\<lambda>departed.
     lock_organization_script org (\<lambda>found.
     if \<not> found then Fail (ReactivateFailed reactivate_member_error.NotFound)
     else
       member_script org a (\<lambda>e. ReactivateFailed (reactivate_member_error.Database e)) (\<lambda>row.
       (case row of
          None \<Rightarrow> Fail (ReactivateFailed reactivate_member_error.NotFound)
        | Some (role, status) \<Rightarrow>
            if strict \<and> departed = None then Fail (ReactivateFailed reactivate_member_error.NotFound)
            else if departed = Some True then Fail (ReactivateFailed reactivate_member_error.ActorDeparted)
            else if status \<noteq> Suspended then Fail (ReactivateFailed reactivate_member_error.NotSuspended)
            else
              update_script org a (\<lambda>s. set_member_status s org a Active) (StatusWritten org a ''active'')
                (\<lambda>e. ReactivateFailed (reactivate_member_error.Database e))
                (record_script (member_reactivated a) org p
                   (\<lambda>e. ReactivateFailed (reactivate_member_error.Database e)) Commit)))))"

text \<open>Leaving, loop by loop.\<close>

definition leave_failed :: "sqlx_error \<Rightarrow> failure" where
  "leave_failed e = LeaveFailed (leave_service_error.Database e)"

primrec check_owners_script :: "actor_id \<Rightarrow> organization_id list \<Rightarrow> script \<Rightarrow> script" where
  "check_owners_script a [] rest = rest"
| "check_owners_script a (org # orgs) rest = owners_script org (\<lambda>owners.
     case check_owner_change owners (Leave a) of
       Inl _ \<Rightarrow> Fail (LeaveFailed (leave_service_error.LastOwner org))
     | Inr _ \<Rightarrow> check_owners_script a orgs rest)"

primrec record_all_script :: "organization_id \<Rightarrow> actor_id \<Rightarrow> event list \<Rightarrow> script \<Rightarrow> script" where
  "record_all_script org p [] rest = rest"
| "record_all_script org p (ev # evs) rest = record_script ev org p leave_failed (record_all_script org p evs rest)"

definition leave_organization_script :: "organization_id \<Rightarrow> actor_id \<Rightarrow> script \<Rightarrow> script" where
  "leave_organization_script org a rest =
     Write [] (\<lambda>s d. outcome (delete_team_memberships s org a d) [TeamsDropped org a]) leave_failed (\<lambda>s d.
       record_all_script org a (map (\<lambda>t. team_member_removed a t LeftService)
         (case delete_team_memberships s org a d of Inl _ \<Rightarrow> [] | Inr (removed, _) \<Rightarrow> removed)) rest)"

primrec leave_each_script :: "actor_id \<Rightarrow> (organization_id \<times> string) list \<Rightarrow> script \<Rightarrow> script" where
  "leave_each_script a [] rest = rest"
| "leave_each_script a (x # xs) rest = leave_organization_script (fst x) a
     (case status_parse (snd x) of
        None \<Rightarrow> Fail (leave_failed (Protocol ''invalid stored membership status''))
      | Some status \<Rightarrow>
          if status \<noteq> Left
          then record_script (member_left a) (fst x) a leave_failed (leave_each_script a xs rest)
          else leave_each_script a xs rest)"

primrec leave_channels_script :: "actor_id \<Rightarrow> organization_id list \<Rightarrow> script \<Rightarrow> script" where
  "leave_channels_script a [] rest = rest"
| "leave_channels_script a (org # orgs) rest = Read (\<lambda>s d.
     record_all_script org a (map (channel_member_left a) (channel_listings org a s d))
       (Write [] (\<lambda>s d. outcome (delete_channel_memberships s org a d) [ChannelsDropped org a]) leave_failed
          (\<lambda>_ _. leave_channels_script a orgs rest)))"

primrec memberships_left_script :: "actor_id \<Rightarrow> (organization_id \<times> string) list \<Rightarrow> script \<Rightarrow> script" where
  "memberships_left_script a [] rest = rest"
| "memberships_left_script a (x # xs) rest = update_script (fst x) a (\<lambda>s. set_member_left s (fst x) a)
     (LeftWritten (fst x) a) leave_failed (memberships_left_script a xs rest)"

text \<open>
  The SELECT of the organizations locks them in order after its snapshot; every later check reads anew.
\<close>

definition leave_script :: "actor_id \<Rightarrow> script" where
  "leave_script a = Read (\<lambda>s d.
     if own_actor a s d = None then Fail (LeaveFailed leave_service_error.NotFound)
     else Lock (ActorRow a) ForUpdate (Read (\<lambda>s d.
       case own_actor a s d of
         None \<Rightarrow> Fail (LeaveFailed leave_service_error.NotFound)
       | Some actor \<Rightarrow>
           if a_deleted_at actor \<noteq> None then Fail (LeaveFailed leave_service_error.NotFound)
           else Read (\<lambda>s d.
             let organizations = organizations_active_in a s d
             in lock_all (map OrganizationRow organizations) ForUpdate (check_owners_script a organizations
               (Read (\<lambda>s d.
                 let memberships = memberships_of a s d
                 in Read (\<lambda>s d.
                   leave_each_script a memberships (leave_channels_script a (channel_organizations_of a s d)
                     (memberships_left_script a memberships
                       (Write [] (\<lambda>s d. outcome (delete_user s a d) [UserDropped a]) leave_failed (\<lambda>_ _.
                        Write [(ActorRow a, ForUpdate)]
                          (\<lambda>s d. outcome (erase_actor s a d) [ActorErased a (tx_now s)]) leave_failed (\<lambda>_ _.
                        Commit)))))))))))))"

section \<open>A script run alone is the operation\<close>

text \<open>\<open>implements p P f m\<close>: in a transaction of \<open>p\<close>, what is left of the script does what is left of the code.\<close>

definition implements :: "actor_id \<Rightarrow> script \<Rightarrow> ('e \<Rightarrow> failure) \<Rightarrow> ('e, unit) tx \<Rightarrow> bool" where
  "implements p P f m \<longleftrightarrow> (\<forall>c ws. wire c = Healthy \<longrightarrow> actor_setting (session c) = Some p
     \<longrightarrow> view c = replay ws (committed c) \<longrightarrow>
     alone P (session c) (uuids c) (drawn c) ws (committed c)
       = (case m c of (Inl e, _) \<Rightarrow> Inl (f e) | (Inr _, c') \<Rightarrow> Inr (committed c')))"

named_theorems implements_intros

lemma implementsI:
  "(\<And>c ws. wire c = Healthy \<Longrightarrow> actor_setting (session c) = Some p \<Longrightarrow> view c = replay ws (committed c) \<Longrightarrow>
     alone P (session c) (uuids c) (drawn c) ws (committed c)
       = (case m c of (Inl e, _) \<Rightarrow> Inl (f e) | (Inr _, c') \<Rightarrow> Inr (committed c'))) \<Longrightarrow> implements p P f m"
  by (simp add: implements_def)

lemma implementsD:
  "implements p P f m \<Longrightarrow> wire c = Healthy \<Longrightarrow> actor_setting (session c) = Some p \<Longrightarrow> view c = replay ws d \<Longrightarrow>
     committed c = d \<Longrightarrow> session c = s \<Longrightarrow> uuids c = us \<Longrightarrow> drawn c = n \<Longrightarrow>
     alone P s us n ws d = (case m c of (Inl e, _) \<Rightarrow> Inl (f e) | (Inr _, c') \<Rightarrow> Inr (committed c'))"
  by (auto simp: implements_def)

lemma implements_fail [implements_intros]: "g = f e \<Longrightarrow> implements p (Fail g) f (throw e)"
  by (rule implementsI) (simp add: throw_def)

lemma implements_commit [implements_intros]: "implements p Commit f (attempt g commit (\<lambda>_. ok ()))"
  by (rule implementsI) (simp add: tx_simps)

lemma implements_read:
  assumes "\<And>s d. actor_setting s = Some p \<Longrightarrow> implements p (P s d) f (k (q s d))"
  shows "implements p (Read P) f (attempt g (query q) k)"
  by (rule implementsI) (simp add: tx_simps implementsD [OF assms])

lemma implements_lock [implements_intros]: "implements p P f m \<Longrightarrow> implements p (Lock r mode P) f m"
  by (simp add: implements_def)

lemma implements_lock_all [implements_intros]: "implements p P f m \<Longrightarrow> implements p (lock_all rs mode P) f m"
  by (induction rs) (simp_all add: implements_lock)

lemma implements_draw:
  assumes "\<And>i. implements p (P i) f (k i)"
  shows "implements p (Draw P) f (attempt g now_v7 k)"
  by (rule implementsI) (simp add: tx_simps implementsD [OF assms])

lemma implements_write:
  assumes "\<And>s d e. actor_setting s = Some p \<Longrightarrow> st s d = Inl e \<Longrightarrow> F s d = Inl e" "\<And>e. h e = f (g e)"
    and "\<And>s d v d'. actor_setting s = Some p \<Longrightarrow> st s d = Inr (v, d') \<Longrightarrow> \<exists>ws. F s d = Inr ws \<and> replay ws d = d'"
    and "\<And>s d v d'. actor_setting s = Some p \<Longrightarrow> st s d = Inr (v, d') \<Longrightarrow> implements p (P s d) f (k v)"
  shows "implements p (Write ls F h P) f (attempt g (execute st) k)"
proof (rule implementsI)
  fix c :: conn and ws
  assume h: "wire c = Healthy" and p: "actor_setting (session c) = Some p" and v: "view c = replay ws (committed c)"
  show "alone (Write ls F h P) (session c) (uuids c) (drawn c) ws (committed c)
    = (case attempt g (execute st) k c of (Inl e, _) \<Rightarrow> Inl (f e) | (Inr _, c') \<Rightarrow> Inr (committed c'))"
  proof (cases "st (session c) (view c)")
    case (Inl e)
    with assms(1) [OF p Inl] assms(2) h v show ?thesis by (simp add: tx_simps)
  next
    case (Inr r)
    obtain x d' where r: "st (session c) (view c) = Inr (x, d')" using Inr by (cases r) auto
    from assms(3) [OF p r] obtain ws' where "F (session c) (view c) = Inr ws'" "replay ws' (view c) = d'" by blast
    moreover have "alone (P (session c) (view c)) (session c) (uuids c) (drawn c) (ws @ ws') (committed c)
        = (case k x (c\<lparr>view := d'\<rparr>) of (Inl e, _) \<Rightarrow> Inl (f e) | (Inr _, c') \<Rightarrow> Inr (committed c'))"
      by (rule implementsD [OF assms(4) [OF p r]])
        (use calculation h v p in \<open>simp_all\<close>)
    ultimately show ?thesis using r h v by (simp add: tx_simps)
  qed
qed

lemma script_is_operation:
  assumes "implements p P f (k ())" "wire c = Healthy"
  shows "alone P (session_for (Actor p) c) (uuids c) (drawn c) [] (committed c)
    = (case attempt g (begin_tx (Actor p)) k c of (Inl e, _) \<Rightarrow> Inl (f e) | (Inr _, c') \<Rightarrow> Inr (committed c'))"
  using assms(2)
  by (simp add: tx_simps implementsD [OF assms(1), where c = "c\<lparr>view := committed c, session := session_for (Actor p) c\<rparr>"])

section \<open>The shared parts\<close>

lemma outcome_simps [simp]: "outcome (Inl e) ws = Inl e" "outcome (Inr r) ws = Inr ws"
  by (simp_all add: outcome_def)

lemma seen_actor: "departed_state s d a \<noteq> None \<longleftrightarrow> a \<in> a_id ` set (actor_pair a p s d)"
  by (auto simp: departed_state_def actor_pair_def filter_empty_conv)

text \<open>
  The actors a policy shows are shown by their ids: with nothing in between, the latest version of a locked row is the
  one seen.
\<close>

lemma lock_actor_alone:
  "alone (lock_actor_script a p k) s us n ws d = alone (k (departed_state s (replay ws d) a)) s us n ws d"
proof -
  have all: "alone (lock_all rs mode P) s us n ws d = alone P s us n ws d" for rs mode P
    by (induction rs) simp_all
  have "(if a \<in> a_id ` set (actor_pair a p s e) then latest_departed a e else None) = departed_state s e a" for e
  proof (cases "a \<in> a_id ` set (actor_pair a p s e)")
    case True
    then obtain x where "sees_actor s e x" "a_id x = a" by (auto simp: actor_pair_def)
    then have "sees_actor s e r" if "a_id r = a" for r using that unfolding sees_actor_def by simp
    then have "(\<lambda>r. a_id r = a) = (\<lambda>r. sees_actor s e r \<and> a_id r = a)" by blast
    with True show ?thesis unfolding latest_departed_def departed_state_def by presburger
  next
    case False
    then have "departed_state s e a = None" using seen_actor by metis
    with False show ?thesis by simp
  qed
  then show ?thesis by (simp add: lock_actor_script_def Let_def all)
qed

lemma implements_lock_actor [implements_intros]:
  assumes "\<And>x. implements p (k x) f (k' x)"
  shows "implements p (lock_actor_script a p' k) f (attempt g (lock_actor a p') k')"
proof (rule implementsI)
  fix c :: conn and ws
  assume c: "wire c = Healthy" "actor_setting (session c) = Some p" "view c = replay ws (committed c)"
  show "alone (lock_actor_script a p' k) (session c) (uuids c) (drawn c) ws (committed c)
      = (case attempt g (lock_actor a p') k' c of (Inl e, _) \<Rightarrow> Inl (f e) | (Inr _, c') \<Rightarrow> Inr (committed c'))"
    unfolding lock_actor_alone c(3) [symmetric] attempt_lock_actor [OF c(1)]
    by (rule implementsD [OF assms c(1,2)]) (simp_all add: c(3))
qed

lemma implements_lock_organization [implements_intros]:
  assumes "\<And>x. implements p (k x) f (k' x)"
  shows "implements p (lock_organization_script org k) f (attempt g (lock_organization org Update) k')"
  by (rule implementsI) (simp add: lock_organization_script_def tx_simps implementsD [OF assms])

lemma implements_member [implements_intros]:
  assumes "\<And>x. implements p (k x) f (k' x)" "\<And>e. h e = f (g e)"
  shows "implements p (member_script org a h k) f (attempt g (member org a) k')"
  by (rule implementsI)
    (simp add: member_script_def member_def tx_simps attempt_def [of g "Pair x" for x] implementsD [OF assms(1)] assms(2)
      split: option.split)

lemma implements_owners [implements_intros]:
  assumes "\<And>x. implements p (k x) f (k' x)"
  shows "implements p (owners_script org k) f (attempt g (active_owners org) k')"
  by (rule implementsI) (simp add: owners_script_def tx_simps implementsD [OF assms])

lemma audit_written: "insert_audit s e d = Inr (v, d') \<Longrightarrow> d' = written (AuditAdded e) d"
  by (auto simp: insert_audit_def checked_Inr)

lemma implements_record [implements_intros]:
  assumes "implements p P f (k ())" "\<And>e. h e = f (g e)"
  shows "implements p (record_script ev org p' h P) f (attempt g (write_event ev org p') k)"
  unfolding record_script_def write_event_def attempt_assoc
  by (intro implements_draw implements_write) (auto simp: assms dest!: audit_written)

lemma update_member_written:
  "update_member s org a f d = Inr (u, d') \<Longrightarrow>
     d' = (if in_active s d org \<or> is_self s a then rewrite_member org a f d else d)"
proof -
  assume r: "update_member s org a f d = Inr (u, d')"
  have "(\<lambda>m. sees_member s d m \<and> om_org m = org \<and> om_actor m = a)
      = (if in_active s d org \<or> is_self s a then is_member org a else (\<lambda>m. False))"
    by (auto simp: sees_member_def is_member_def fun_eq_iff)
  with r show ?thesis by (simp add: update_member_Inr rewrite_member_def update_where_def)
qed

lemma implements_update [implements_intros]:
  assumes "implements p P f (k ())" "\<And>e. h e = f (g e)"
  shows "role' = role_str role \<Longrightarrow> implements p (update_script org a (\<lambda>s. set_member_role s org a role)
      (RoleWritten org a role') h P) f (attempt g (execute (\<lambda>s. set_member_role s org a role)) k)"
    and "status' = status_str status \<Longrightarrow> implements p (update_script org a (\<lambda>s. set_member_status s org a status)
      (StatusWritten org a status') h P) f (attempt g (execute (\<lambda>s. set_member_status s org a status)) k)"
    and "implements p (update_script org a (\<lambda>s. set_member_left s org a) (LeftWritten org a) h P) f
      (attempt g (execute (\<lambda>s. set_member_left s org a)) k)"
  unfolding update_script_def set_member_role_def set_member_status_def set_member_left_def
  by (intro implements_write; auto simp: assms dest!: update_member_written)+

section \<open>The four operations\<close>

lemma implements_if [implements_intros]:
  "implements p P f m \<Longrightarrow> implements p P' f m' \<Longrightarrow> implements p (if b then P else P') f (if b then m else m')"
  by simp

lemma implements_require [implements_intros]:
  "(\<And>e. g e = f (h e)) \<Longrightarrow> (\<And>a. x = Inr a \<Longrightarrow> implements p (P a) f (k a)) \<Longrightarrow>
     implements p (case x of Inl e \<Rightarrow> Fail (g e) | Inr a \<Rightarrow> P a) f (require_ok h x k)"
  "g' = f e' \<Longrightarrow> (\<And>a. y = Some a \<Longrightarrow> implements p (P' a) f (k' a)) \<Longrightarrow>
     implements p (case y of None \<Rightarrow> Fail g' | Some a \<Rightarrow> P' a) f (require e' y k')"
  by (auto simp: require_ok_def require_def split: sum.split option.split intro: implements_fail)

lemma implements_pair [implements_intros]:
  "(\<And>a b. implements p (P a b) f (k a b)) \<Longrightarrow>
     implements p (case x of (a, b) \<Rightarrow> P a b) f (case x of (a, b) \<Rightarrow> k a b)"
  by (cases x) simp

lemma operation_is_script:
  assumes "m = attempt g (begin_tx (Actor p)) k" "implements p P f (k ())" "wire c = Healthy"
  shows "alone P (session_for (Actor p) c) (uuids c) (drawn c) [] (committed c)
    = (case m c of (Inl e, _) \<Rightarrow> Inl (f e) | (Inr _, c') \<Rightarrow> Inr (committed c'))"
  using assms by (simp add: script_is_operation)

lemma membership_scripts:
  assumes "wire c = Healthy"
  shows "alone (change_role_script p org a r) (session_for (Actor p) c) (uuids c) (drawn c) [] (committed c)
      = (case change_member_role p org a r c of (Inl e, _) \<Rightarrow> Inl (RoleFailed e) | (Inr _, c') \<Rightarrow> Inr (committed c'))"
    and "alone (suspend_script p org a) (session_for (Actor p) c) (uuids c) (drawn c) [] (committed c)
      = (case suspend_member p org a c of (Inl e, _) \<Rightarrow> Inl (SuspendFailed e) | (Inr _, c') \<Rightarrow> Inr (committed c'))"
    and "alone (reactivate_script False p org a) (session_for (Actor p) c) (uuids c) (drawn c) [] (committed c)
      = (case reactivate_member p org a c of (Inl e, _) \<Rightarrow> Inl (ReactivateFailed e) | (Inr _, c') \<Rightarrow> Inr (committed c'))"
proof -
  show "alone (change_role_script p org a r) (session_for (Actor p) c) (uuids c) (drawn c) [] (committed c)
      = (case change_member_role p org a r c of (Inl e, _) \<Rightarrow> Inl (RoleFailed e) | (Inr _, c') \<Rightarrow> Inr (committed c'))"
    by (rule operation_is_script [OF change_member_role_def _ assms], unfold change_role_script_def Let_def,
        intro implements_intros) simp_all
  show "alone (suspend_script p org a) (session_for (Actor p) c) (uuids c) (drawn c) [] (committed c)
      = (case suspend_member p org a c of (Inl e, _) \<Rightarrow> Inl (SuspendFailed e) | (Inr _, c') \<Rightarrow> Inr (committed c'))"
    by (rule operation_is_script [OF suspend_member_def _ assms], unfold suspend_script_def Let_def,
        intro implements_intros) simp_all
  show "alone (reactivate_script False p org a) (session_for (Actor p) c) (uuids c) (drawn c) [] (committed c)
      = (case reactivate_member p org a c of (Inl e, _) \<Rightarrow> Inl (ReactivateFailed e) | (Inr _, c') \<Rightarrow> Inr (committed c'))"
    by (rule operation_is_script [OF reactivate_member_def _ assms], unfold reactivate_script_def Let_def simp_thms if_False,
        intro implements_intros) simp_all
qed

section \<open>Leaving\<close>

text \<open>Sequencing after a pure result.\<close>

lemma attempt_pure:
  "attempt f (ok a) k = k a"
  "attempt f (require_ok h x k1) k2 = require_ok (\<lambda>e. f (h e)) x (\<lambda>a. attempt f (k1 a) k2)"
  "attempt f (require e y k3) k4 = require (f e) y (\<lambda>a. attempt f (k3 a) k4)"
  "attempt f (if b then m1 else m2) k = (if b then attempt f m1 k else attempt f m2 k)"
  by (auto simp: tx_simps require_ok_def require_def fun_eq_iff split: sum.split option.split)

lemma implements_check_owners:
  assumes "implements a P LeaveFailed m"
  shows "implements a (check_owners_script a orgs P) LeaveFailed (attempt id (for_each orgs (\<lambda>organization.
         attempt leave_service_error.Database (active_owners organization) (\<lambda>owners.
         require_ok (\<lambda>_. leave_service_error.LastOwner organization)
           (check_owner_change owners (Leave a)) ok))) (\<lambda>_. m))"
proof (induction orgs)
  case (Cons org orgs)
  then show ?case
    unfolding check_owners_script.simps for_each.simps attempt_assoc id_def attempt_pure
    by (intro implements_intros) simp_all
qed (simp add: assms attempt_pure)

lemma implements_record_all:
  assumes "implements a P LeaveFailed m"
  shows "implements a (record_all_script org a (map ev xs) P) LeaveFailed
    (attempt leave_service_error.Database (for_each xs (\<lambda>x. write_event (ev x) org a)) (\<lambda>_. m))"
proof (induction xs)
  case Nil
  with assms show ?case by (simp add: attempt_pure)
next
  case (Cons x xs)
  show ?case
    unfolding record_all_script.simps list.map for_each.simps attempt_assoc id_def
    by (intro implements_intros Cons) (simp_all add: leave_failed_def)
qed

lemma implements_leave_organization:
  assumes "implements a P LeaveFailed m"
  shows "implements a (leave_organization_script org a P) LeaveFailed
    (attempt leave_service_error.Database (leave_organization org a) (\<lambda>_. m))"
  unfolding leave_organization_script_def leave_organization_def attempt_assoc id_def
proof (rule implements_write)
  fix s d removed d'
  assume s: "actor_setting s = Some a" and r: "delete_team_memberships s org a d = Inr (removed, d')"
  have "(\<lambda>m. sees_team_member s d m \<and> tm_org m = org \<and> tm_actor m = a) = (\<lambda>m. tm_org m = org \<and> tm_actor m = a)"
    using s by (auto simp: sees_team_member_def is_self_def)
  then show "\<exists>ws. outcome (delete_team_memberships s org a d) [TeamsDropped org a] = Inr ws \<and> replay ws d = d'"
    using r by (auto simp: delete_team_memberships_def Let_def)
  show "implements a (record_all_script org a (map (\<lambda>t. team_member_removed a t LeftService)
      (case delete_team_memberships s org a d of Inl _ \<Rightarrow> [] | Inr (removed, _) \<Rightarrow> removed)) P) LeaveFailed
    (attempt leave_service_error.Database (for_each removed (\<lambda>team. write_event (team_member_removed a team LeftService) org a)) (\<lambda>_. m))"
    using implements_record_all [OF assms, where ev = "\<lambda>t. team_member_removed a t LeftService"] r by simp
qed (simp_all add: leave_failed_def)

lemma implements_leave_each:
  assumes "implements a P LeaveFailed m"
  shows "implements a (leave_each_script a xs P) LeaveFailed
    (attempt id (for_each xs (\<lambda>(organization, stored_status).
         attempt leave_service_error.Database (leave_organization organization a) (\<lambda>_.
         require (leave_service_error.Database (Protocol ''invalid stored membership status''))
           (status_parse stored_status) (\<lambda>status.
         if status \<noteq> Left
         then attempt leave_service_error.Database
                (write_event (member_left a) organization a) ok
         else ok ())))) (\<lambda>_. m))"
proof (induction xs)
  case Nil
  with assms show ?case by (simp add: attempt_pure)
next
  case (Cons x xs)
  obtain org st where x: "x = (org, st)" by (cases x)
  show ?case
    unfolding leave_each_script.simps for_each.simps attempt_assoc id_def x prod.case fst_conv snd_conv attempt_pure
    by (intro implements_leave_organization implements_intros Cons [unfolded id_def]) (simp_all add: leave_failed_def)
qed

lemma implements_delete_channels:
  assumes "implements a P LeaveFailed m"
  shows "implements a (Write [] (\<lambda>s d. outcome (delete_channel_memberships s org a d) [ChannelsDropped org a]) leave_failed (\<lambda>_ _. P))
    LeaveFailed (attempt leave_service_error.Database (execute (\<lambda>s. delete_channel_memberships s org a)) (\<lambda>_. m))"
proof (rule implements_write)
  fix s d u d'
  assume s: "actor_setting s = Some a" and r: "delete_channel_memberships s org a d = Inr (u, d')"
  have "(\<lambda>m. \<not> (sees_channel_member s d m \<and> cm_org m = org \<and> cm_actor m = a)) = (\<lambda>m. \<not> (cm_org m = org \<and> cm_actor m = a))"
    using s by (auto simp: sees_channel_member_def is_self_def)
  then show "\<exists>ws. outcome (delete_channel_memberships s org a d) [ChannelsDropped org a] = Inr ws \<and> replay ws d = d'"
    using r by (auto simp: delete_channel_memberships_def)
qed (simp_all add: leave_failed_def delete_channel_memberships_def assms)

lemma implements_leave_channels:
  assumes "implements a P LeaveFailed m"
  shows "implements a (leave_channels_script a orgs P) LeaveFailed
    (attempt id (for_each orgs (\<lambda>organization.
         attempt leave_service_error.Database (leave_channels organization a) ok)) (\<lambda>_. m))"
proof (induction orgs)
  case Nil
  with assms show ?case by (simp add: attempt_pure)
next
  case (Cons org orgs)
  show ?case
    unfolding leave_channels_script.simps for_each.simps leave_channels_def attempt_assoc id_def attempt_pure
    by (intro implements_read implements_record_all implements_delete_channels
        Cons [unfolded id_def leave_channels_def attempt_assoc attempt_pure])
qed

lemma implements_memberships_left:
  assumes "implements a P LeaveFailed m"
  shows "implements a (memberships_left_script a xs P) LeaveFailed
    (attempt id (for_each xs (\<lambda>(organization, _).
         attempt leave_service_error.Database
           (execute (\<lambda>s. set_member_left s organization a)) ok)) (\<lambda>_. m))"
proof (induction xs)
  case Nil
  with assms show ?case by (simp add: attempt_pure)
next
  case (Cons x xs)
  show ?case
    unfolding memberships_left_script.simps for_each.simps attempt_assoc id_def case_prod_beta attempt_pure
    by (intro implements_intros Cons [unfolded id_def case_prod_beta]) (simp_all add: leave_failed_def)
qed

lemma implements_delete_user:
  assumes "implements a P LeaveFailed m"
  shows "implements a (Write [] (\<lambda>s d. outcome (delete_user s a d) [UserDropped a]) leave_failed (\<lambda>_ _. P))
    LeaveFailed (attempt leave_service_error.Database (execute (\<lambda>s. delete_user s a)) (\<lambda>_. m))"
proof (rule implements_write)
  fix s d u d'
  assume s: "actor_setting s = Some a" and r: "delete_user s a d = Inr (u, d')"
  have gone: "(\<lambda>u. sees_user s d u \<and> is_self s (u_actor_id u) \<and> u_actor_id u = a) = (\<lambda>u. u_actor_id u = a)"
    using s by (auto simp: sees_user_def is_self_def)
  have keys: "key_set u_actor_id (filter (\<lambda>u. u_actor_id u = a) (users d))
      = (if a \<in> key_set u_actor_id (users d) then {a} else {})"
    by (auto simp: key_set_def)
  have signed_in: "(\<lambda>r. s_actor r \<notin> key_set u_actor_id (filter (\<lambda>u. u_actor_id u = a) (users d)))
      = (\<lambda>r. \<not> (s_actor r = a \<and> a \<in> key_set u_actor_id (users d)))"
    unfolding keys by auto
  show "\<exists>ws. outcome (delete_user s a d) [UserDropped a] = Inr ws \<and> replay ws d = d'"
    using r unfolding delete_user_def gone Let_def signed_in by auto
qed (simp_all add: leave_failed_def delete_user_def assms)

lemma implements_erase_actor:
  assumes "implements a P LeaveFailed m"
  shows "implements a (Write [(ActorRow a, ForUpdate)] (\<lambda>s d. outcome (erase_actor s a d) [ActorErased a (tx_now s)]) leave_failed (\<lambda>_ _. P))
    LeaveFailed (attempt leave_service_error.Database (execute (\<lambda>s. erase_actor s a)) (\<lambda>_. m))"
proof (rule implements_write)
  fix s d u d'
  assume s: "actor_setting s = Some a" and r: "erase_actor s a d = Inr (u, d')"
  have "(\<lambda>r. sees_actor s d r \<and> a_id r = a) = (\<lambda>r. a_id r = a)"
    using s by (auto simp: sees_actor_def is_self_def)
  then show "\<exists>ws. outcome (erase_actor s a d) [ActorErased a (tx_now s)] = Inr ws \<and> replay ws d = d'"
    using r by (auto simp: erase_actor_def rls_update_Inr split: sum.splits)
qed (simp_all add: leave_failed_def assms)

lemma implements_own_actor:
  assumes "g = f e" "\<And>x. implements p (P x) f (k x)"
  shows "implements p (Read (\<lambda>s d. if q s d = None then Fail g
      else Lock r mode (Read (\<lambda>s d. case q s d of None \<Rightarrow> Fail g | Some x \<Rightarrow> P x))))
    f (attempt h (query q) (\<lambda>row. require e row k))"
proof (rule implementsI)
  fix c :: conn and ws
  assume c: "wire c = Healthy" "actor_setting (session c) = Some p" "view c = replay ws (committed c)"
  show "alone (Read (\<lambda>s d. if q s d = None then Fail g
      else Lock r mode (Read (\<lambda>s d. case q s d of None \<Rightarrow> Fail g | Some x \<Rightarrow> P x))))
      (session c) (uuids c) (drawn c) ws (committed c)
    = (case attempt h (query q) (\<lambda>row. require e row k) c of (Inl e, _) \<Rightarrow> Inl (f e) | (Inr _, c') \<Rightarrow> Inr (committed c'))"
    using c assms(1) by (cases "q (session c) (replay ws (committed c))") (simp_all add: tx_simps implementsD [OF assms(2)])
qed

lemma leave_script_alone:
  assumes "wire c = Healthy"
  shows "alone (leave_script a) (session_for (Actor a) c) (uuids c) (drawn c) [] (committed c)
    = (case leave_service a c of (Inl e, _) \<Rightarrow> Inl (LeaveFailed e) | (Inr _, c') \<Rightarrow> Inr (committed c'))"
  by (rule operation_is_script [OF leave_service_def _ assms], unfold leave_script_def Let_def,
      intro implements_own_actor implements_if implements_read implements_lock_all implements_check_owners implements_leave_each
        implements_leave_channels implements_memberships_left implements_delete_user implements_erase_actor
        implements_fail implements_commit)
    simp_all

end
