(* ===== verification/Interleaving.thy ===== *)
theory Interleaving
  imports Scripts Administration Erasure
begin

text \<open>
  Transactions that run at the same time: the scripts of the membership operations advance statement by statement
  in any order, wait for each other's row locks, commit, or end without committing; the other requests run between
  any two of their statements.
\<close>

section \<open>Running transactions\<close>

record running =
  r_session :: session
  r_held :: held
  r_changes :: "change list"
  r_script :: script

record world =
  w_db :: db
  w_running :: "running option list"

definition script_of :: "bool \<Rightarrow> request \<Rightarrow> (actor_id \<times> script) option" where
  "script_of strict r = (case r of
     ChangeMemberRole p org a ro \<Rightarrow> Some (p, change_role_script p org a ro)
   | SuspendMember p org a \<Rightarrow> Some (p, suspend_script p org a)
   | ReactivateMember p org a \<Rightarrow> Some (p, reactivate_script strict p org a)
   | LeaveService a \<Rightarrow> Some (a, leave_script a)
   | _ \<Rightarrow> None)"

definition begun :: "session \<Rightarrow> script \<Rightarrow> running" where
  "begun s P = \<lparr>r_session = s, r_held = [], r_changes = [], r_script = P\<rparr>"

definition held_by :: "running option \<Rightarrow> held" where
  "held_by x = (case x of None \<Rightarrow> [] | Some t \<Rightarrow> r_held t)"

definition others :: "world \<Rightarrow> nat \<Rightarrow> held" where
  "others w i = concat (map (\<lambda>j. if j = i then [] else held_by (w_running w ! j)) [0..<length (w_running w)])"

text \<open>One statement, with the locks of the others: a statement that has to wait does not advance.\<close>

inductive advances :: "db \<Rightarrow> held \<Rightarrow> running \<Rightarrow> running \<Rightarrow> bool" where
  reads: "r_script t = Read k \<Longrightarrow>
    advances d hs t (t\<lparr>r_script := k (r_session t) (replay (r_changes t) d)\<rparr>)"
| locks: "r_script t = Lock row mode p \<Longrightarrow> compatible [(row, mode)] hs \<Longrightarrow>
    advances d hs t (t\<lparr>r_held := (row, mode) # r_held t, r_script := p\<rparr>)"
| draws: "r_script t = Draw k \<Longrightarrow> advances d hs t (t\<lparr>r_script := k i\<rparr>)"
| writes: "r_script t = Write ls f h k \<Longrightarrow> compatible ls hs \<Longrightarrow>
    f (r_session t) (replay (r_changes t) d) = Inr ws \<Longrightarrow>
    advances d hs t (t\<lparr>r_held := ls @ r_held t, r_changes := r_changes t @ ws,
      r_script := k (r_session t) (replay (r_changes t) d)\<rparr>)"

inductive_cases advances_cases: "advances d hs t t'"

text \<open>
  The other requests commit in one step; of the locks they take on the way only one can meet a departure in
  what it reads: founding an organization locks the founder's actor \<open>FOR SHARE\<close>.
\<close>

definition other_locks :: "request \<Rightarrow> held" where
  "other_locks r = (case r of CreateOrganization a n sl \<Rightarrow> [(ActorRow a, ForShare)] | _ \<Rightarrow> [])"

inductive world_step :: "bool \<Rightarrow> uuid_api \<Rightarrow> world \<Rightarrow> world \<Rightarrow> bool" for strict :: bool and api :: uuid_api where
  starts: "script_of strict r = Some (p, P) \<Longrightarrow>
    world_step strict api w (w\<lparr>w_running := w_running w @ [Some (begun (session_for (Actor p) c) P)]\<rparr>)"
| advances: "i < length (w_running w) \<Longrightarrow> w_running w ! i = Some t \<Longrightarrow> advances (w_db w) (others w i) t t' \<Longrightarrow>
    world_step strict api w (w\<lparr>w_running := (w_running w)[i := Some t']\<rparr>)"
| commits: "i < length (w_running w) \<Longrightarrow> w_running w ! i = Some t \<Longrightarrow> r_script t = Commit \<Longrightarrow>
    world_step strict api w \<lparr>w_db = replay (r_changes t) (w_db w), w_running = (w_running w)[i := None]\<rparr>"
| ends: "i < length (w_running w) \<Longrightarrow>
    world_step strict api w (w\<lparr>w_running := (w_running w)[i := None]\<rparr>)"
| other: "script_of strict r = None \<Longrightarrow> committed c = w_db w \<Longrightarrow>
    \<forall>i < length (w_running w). compatible (other_locks r) (held_by (w_running w ! i)) \<Longrightarrow>
    world_step strict api w (w\<lparr>w_db := committed (run_request api r c)\<rparr>)"

text \<open>The worlds reached from a database at rest that requests led to.\<close>

inductive interleaved :: "bool \<Rightarrow> uuid_api \<Rightarrow> world \<Rightarrow> bool" for strict :: bool and api :: uuid_api where
  rest: "reachable api d \<Longrightarrow> interleaved strict api \<lparr>w_db = d, w_running = []\<rparr>"
| steps: "interleaved strict api w \<Longrightarrow> world_step strict api w w' \<Longrightarrow> interleaved strict api w'"

section \<open>Changes row by row\<close>

fun member_effect :: "change \<Rightarrow> member_row \<Rightarrow> member_row" where
  "member_effect (RoleWritten org a role) m = (if is_member org a m then m\<lparr>om_role := role\<rparr> else m)"
| "member_effect (StatusWritten org a status) m = (if is_member org a m then m\<lparr>om_status := status\<rparr> else m)"
| "member_effect (LeftWritten org a) m = (if is_member org a m then m\<lparr>om_status := ''left'', om_display_name := None\<rparr> else m)"
| "member_effect _ m = m"

fun actor_effect :: "change \<Rightarrow> actor_row \<Rightarrow> actor_row" where
  "actor_effect (ActorErased a t) r = (if a_id r = a then r\<lparr>a_display_name := None, a_deleted_at := Some t\<rparr> else r)"
| "actor_effect _ r = r"

definition member_effects :: "change list \<Rightarrow> member_row \<Rightarrow> member_row" where
  "member_effects ws = fold member_effect ws"

definition actor_effects :: "change list \<Rightarrow> actor_row \<Rightarrow> actor_row" where
  "actor_effects ws = fold actor_effect ws"

lemma effects_simps [simp]:
  "member_effects [] m = m" "member_effects (w # ws) m = member_effects ws (member_effect w m)"
  "member_effects (ws @ ws') m = member_effects ws' (member_effects ws m)"
  "actor_effects [] r = r" "actor_effects (w # ws) r = actor_effects ws (actor_effect w r)"
  "actor_effects (ws @ ws') r = actor_effects ws' (actor_effects ws r)"
  by (simp_all add: member_effects_def actor_effects_def)

lemma written_rows:
  "organization_members (written w d) = map (member_effect w) (organization_members d)"
  "actors (written w d) = map (actor_effect w) (actors d)"
  "organizations (written w d) = organizations d"
  by (cases w; simp add: update_where_def cong: map_cong)+

lemma replay_rows:
  "organization_members (replay ws d) = map (member_effects ws) (organization_members d)"
  "actors (replay ws d) = map (actor_effects ws) (actors d)"
  "organizations (replay ws d) = organizations d"
  by (induction ws arbitrary: d) (simp_all add: written_rows cong: map_cong)

lemma effect_keys [simp]:
  "om_org (member_effect w m) = om_org m" "om_actor (member_effect w m) = om_actor m" "a_id (actor_effect w r) = a_id r"
  by (cases w; simp)+

lemma effects_keys [simp]:
  "om_org (member_effects ws m) = om_org m" "om_actor (member_effects ws m) = om_actor m"
  "a_id (actor_effects ws r) = a_id r"
  by (induction ws arbitrary: m r) simp_all

section \<open>What a transaction relies on, and what it guarantees\<close>

definition standing :: "db \<Rightarrow> organization_id \<Rightarrow> (actor_id \<times> string \<times> string) list" where
  "standing d org = map (\<lambda>m. (om_actor m, om_role m, om_status m)) (filter (\<lambda>m. om_org m = org) (organization_members d))"

text \<open>No row of the actor is new, none becomes active, none that is left comes back.\<close>

definition calmer :: "bool \<Rightarrow> actor_id \<Rightarrow> db \<Rightarrow> db \<Rightarrow> bool" where
  "calmer strict a d d' \<longleftrightarrow> (\<forall>m' \<in> set (organization_members d'). om_actor m' = a \<longrightarrow>
     (\<exists>m \<in> set (organization_members d). om_org m = om_org m' \<and> om_actor m = a
       \<and> (strict \<longrightarrow> om_status m' = ''active'' \<longrightarrow> om_status m = ''active'') \<and> (om_status m = ''left'' \<longrightarrow> om_status m' = ''left'')))"

definition rely :: "bool \<Rightarrow> held \<Rightarrow> db \<Rightarrow> db \<Rightarrow> bool" where
  "rely strict hs d d' \<longleftrightarrow> key_set a_id (actors d) \<subseteq> key_set a_id (actors d')
     \<and> (\<forall>org. (OrganizationRow org, ForUpdate) \<in> set hs \<longrightarrow> prefix (standing d org) (standing d' org))
     \<and> (\<forall>a \<in> key_set a_id (actors d). (ActorRow a, ForUpdate) \<in> set hs \<longrightarrow> calmer strict a d d')
     \<and> (\<forall>a \<in> key_set a_id (actors d). ActorRow a \<in> fst ` set hs \<longrightarrow> departed d' a = departed d a)"

text \<open>The invariant of the committed database.\<close>

definition consistent :: "bool \<Rightarrow> db \<Rightarrow> bool" where
  "consistent strict d \<longleftrightarrow> distinct (map a_id (actors d)) \<and> distinct (map (\<lambda>m. (om_org m, om_actor m)) (organization_members d))
     \<and> (\<forall>m \<in> set (organization_members d). om_actor m \<in> key_set a_id (actors d)
          \<and> om_org m \<in> key_set o_id (organizations d)
          \<and> (departed d (om_actor m) \<longrightarrow> om_status m = ''left''))
     \<and> (strict \<longrightarrow> owned d)"

definition left_frozen :: "db \<Rightarrow> db \<Rightarrow> bool" where
  "left_frozen d d' \<longleftrightarrow> (\<forall>m \<in> set (organization_members d). om_status m = ''left'' \<longrightarrow>
     (\<exists>m' \<in> set (organization_members d'). om_org m' = om_org m \<and> om_actor m' = om_actor m
       \<and> om_role m' = om_role m \<and> om_status m' = ''left''))"

definition commit_ok :: "bool \<Rightarrow> held \<Rightarrow> change list \<Rightarrow> db \<Rightarrow> bool" where
  "commit_ok strict hs ws d \<longleftrightarrow> consistent strict (replay ws d) \<and> left_frozen d (replay ws d)
     \<and> (\<forall>org. OrganizationRow org \<notin> fst ` set hs \<longrightarrow> standing (replay ws d) org = standing d org)
     \<and> (\<forall>a. ActorRow a \<notin> fst ` set hs \<longrightarrow> calmer strict a d (replay ws d))
     \<and> (\<forall>a. (ActorRow a, ForUpdate) \<notin> set hs \<longrightarrow> departed (replay ws d) a = departed d a)"

lemma calmer_refl: "calmer strict a d d"
  by (auto simp: calmer_def)

lemma calmer_trans: "calmer strict a d d' \<Longrightarrow> calmer strict a d' d'' \<Longrightarrow> calmer strict a d d''"
  unfolding calmer_def by metis

lemma rely_refl: "rely strict hs d d"
  by (simp add: rely_def calmer_refl)

lemma rely_trans:
  assumes "rely strict hs d d'" "rely strict hs d' d''"
  shows "rely strict hs d d''"
  using assms unfolding rely_def by (meson calmer_trans prefix_order.trans subset_eq)

lemma rely_fewer: "set hs' \<subseteq> set hs \<Longrightarrow> rely strict hs d d' \<Longrightarrow> rely strict hs' d d'"
  unfolding rely_def by (meson image_mono subsetD)

lemma compatible_iff:
  "compatible xs ys \<longleftrightarrow> (\<forall>x \<in> set xs. \<forall>y \<in> set ys. \<not> blocks x y)"
  by (simp add: compatible_def list_all_iff)

lemma commit_meets_rely:
  assumes ok: "commit_ok strict hs ws d" and free: "compatible hs hs'"
  shows "rely strict hs' d (replay ws d)"
proof -
  have excluded: "r \<notin> fst ` set hs" if "(r, ForUpdate) \<in> set hs'" for r
    using free that by (force simp: compatible_iff blocks_def)
  have shared: "(r, ForUpdate) \<notin> set hs" if "r \<in> fst ` set hs'" for r
    using free that by (force simp: compatible_iff blocks_def)
  have "key_set a_id (actors (replay ws d)) = key_set a_id (actors d)"
    by (auto simp: replay_rows key_set_def image_image)
  then show ?thesis
    using ok excluded shared unfolding rely_def commit_ok_def by auto
qed

section \<open>Scripts that keep the guarantee\<close>

text \<open>
  \<open>safe P s hs ws d\<close>: whatever the others do between the statements of \<open>P\<close>, as far as the held locks \<open>hs\<close> let
  them, what it commits keeps the guarantee.
\<close>

primrec safe :: "bool \<Rightarrow> script \<Rightarrow> session \<Rightarrow> held \<Rightarrow> change list \<Rightarrow> db \<Rightarrow> bool" where
  "safe strict (Fail e) s hs ws d = True"
| "safe strict Commit s hs ws d = (\<forall>d'. rely strict hs d d' \<longrightarrow> consistent strict d' \<longrightarrow> commit_ok strict hs ws d')"
| "safe strict (Read k) s hs ws d = (\<forall>d'. rely strict hs d d' \<longrightarrow> consistent strict d' \<longrightarrow> safe strict (k s (replay ws d')) s hs ws d')"
| "safe strict (Lock row mode p) s hs ws d =
     (\<forall>d'. rely strict hs d d' \<longrightarrow> consistent strict d' \<longrightarrow> safe strict p s ((row, mode) # hs) ws d')"
| "safe strict (Draw k) s hs ws d = (\<forall>d' i. rely strict hs d d' \<longrightarrow> consistent strict d' \<longrightarrow> safe strict (k i) s hs ws d')"
| "safe strict (Write ls f h k) s hs ws d = (\<forall>d'. rely strict hs d d' \<longrightarrow> consistent strict d' \<longrightarrow>
     (case f s (replay ws d') of Inl _ \<Rightarrow> True | Inr w \<Rightarrow> safe strict (k s (replay ws d')) s (ls @ hs) (ws @ w) d'))"

lemma safe_stable: "safe strict P s hs ws d \<Longrightarrow> rely strict hs d d' \<Longrightarrow> safe strict P s hs ws d'"
  by (cases P) (auto intro: rely_trans)

lemma safe_advances:
  assumes "safe strict (r_script t) (r_session t) (r_held t) (r_changes t) d" "consistent strict d" "advances d hs t t'"
  shows "safe strict (r_script t') (r_session t') (r_held t') (r_changes t') d"
    and "r_held t' = r_held t \<or> (\<exists>ls. compatible ls hs \<and> r_held t' = ls @ r_held t)"
  using assms(3,1,2) by (cases rule: advances.cases; fastforce intro: rely_refl)+

end
