(* ===== verification/Isolation.thy ===== *)
theory Isolation
  imports Interleaving
begin

text \<open>
  The membership scripts keep the guarantee of \<open>Interleaving\<close>, and so the invariants hold in every world that
  interleaved transactions reach - for the reactivation that stops at an actor it cannot see. For the code as
  it is, a run of five transactions leaves an organization without an owner.
\<close>

section \<open>The other requests\<close>

text \<open>What can be new after another request: a person, a person with a membership, an organization with its founder.\<close>

inductive grows :: "held \<Rightarrow> db \<Rightarrow> db \<Rightarrow> bool" for ls :: held and d :: db and d' :: db where
  unchanged: "actors d' = actors d \<Longrightarrow> organizations d' = organizations d \<Longrightarrow>
    organization_members d' = organization_members d \<Longrightarrow> grows ls d d'"
| person: "actors d' = actors d @ [r] \<Longrightarrow> a_deleted_at r = None \<Longrightarrow> a_id r \<notin> key_set a_id (actors d) \<Longrightarrow>
    organizations d' = organizations d \<Longrightarrow> organization_members d' = organization_members d \<Longrightarrow> grows ls d d'"
| joins: "actors d' = actors d @ [r] \<Longrightarrow> a_deleted_at r = None \<Longrightarrow> a_id r \<notin> key_set a_id (actors d) \<Longrightarrow>
    organizations d' = organizations d \<Longrightarrow> organization_members d' = organization_members d @ [m] \<Longrightarrow>
    om_actor m = a_id r \<Longrightarrow> om_org m \<in> key_set o_id (organizations d) \<Longrightarrow> grows ls d d'"
| founds: "actors d' = actors d \<Longrightarrow> organizations d' = organizations d @ [x] \<Longrightarrow>
    organization_members d' = organization_members d @ [m] \<Longrightarrow> active_owner m \<Longrightarrow> om_org m = o_id x \<Longrightarrow>
    (om_org m, om_actor m) \<notin> key_set (\<lambda>m. (om_org m, om_actor m)) (organization_members d) \<Longrightarrow>
    om_actor m \<in> key_set a_id (actors d) \<Longrightarrow> \<not> departed d (om_actor m) \<Longrightarrow> (ActorRow (om_actor m), ForShare) \<in> set ls \<Longrightarrow>
    grows ls d d'"

lemma grows_same: "d' = d \<Longrightarrow> grows ls d d'"
  by (rule grows.unchanged) simp_all

lemma founder_key_new:
  assumes "wire c = Healthy" "create_organization creator name slug c = (Inr org, c')"
  shows "org = uuids c (drawn c)
    \<and> (uuids c (drawn c), creator) \<notin> key_set (\<lambda>m. (om_org m, om_actor m)) (organization_members (committed c))"
  using assms
  by (clarsimp simp: create_organization_def run_simps insert_organization_def insert_member_def checked_Inr Let_def)

lemma joined_organization_known:
  assumes "wire c = Healthy" "accept_invite th e h n c = (Inr (a, org), c')"
  shows "org \<in> key_set o_id (organizations (committed c))"
  using assms
  by (clarsimp simp: accept_invite_def run_simps Let_def create_person_run accepts_new_person_iff insert_member_def
      checked_Inr) (drule use_invite_run, simp, auto simp: person_rows_def)

lemma grows_founding:
  assumes "wire c = Healthy" "distinct (map a_id (actors (committed c)))" "create_organization a n sl c = (Inr org, c')"
  shows "grows [(ActorRow a, ForShare)] (committed c) (committed c')"
proof -
  note run = create_organization_run [OF assms(1,3)]
  then have "departed_state (session_for (Actor a) c) (committed c) a = Some False" by blast
  then obtain r where r: "r \<in> set (actors (committed c))" "a_id r = a" "a_deleted_at r = None"
    by (auto simp: departed_state_def dest!: fetch_optional_SomeD)
  have "\<not> departed (committed c) a"
  proof
    assume "departed (committed c) a"
    then obtain r' where r': "r' \<in> set (actors (committed c))" "a_id r' = a" "a_deleted_at r' \<noteq> None"
      by (auto simp: departed_def list_ex_iff)
    have "r' = r" by (rule distinct_key_unique [OF assms(2) r'(1) r(1)]) (simp add: r r')
    with r r' show False by simp
  qed
  moreover have "a \<in> key_set a_id (actors (committed c))" using r by (auto simp: key_set_def)
  moreover from run have "committed c' = audited (uuids c (Suc (Suc (drawn c)))) (member_added a Owner) org a
        (audited (uuids c (Suc (drawn c))) (organization_created org) org a
          ((committed c)\<lparr>organizations := organizations (committed c)
               @ [\<lparr>o_id = org, o_name = n, o_slug = sl\<rparr>],
             organization_members := organization_members (committed c)
               @ [\<lparr>om_org = org, om_actor = a, om_role = ''owner'', om_status = ''active'',
                   om_display_name = None\<rparr>]\<rparr>))" by blast
  ultimately show ?thesis
    using founder_key_new [OF assms(1,3)]
    by (intro grows.founds [where m = "\<lparr>om_org = org, om_actor = a, om_role = ''owner'', om_status = ''active'', om_display_name = None\<rparr>"
          and x = "\<lparr>o_id = org, o_name = n, o_slug = sl\<rparr>"]) (simp_all add: active_owner_def)
qed

lemma grows_joining:
  assumes "wire c = Healthy" "accept_invite th e h n c = (Inr ao, c')"
  shows "grows ls (committed c) (committed c')"
proof -
  obtain a org where ao: "ao = (a, org)" by fastforce
  from accept_invite_run [OF assms(1) assms(2) [unfolded ao]] obtain d x y where
    new: "a \<notin> key_set a_id (actors (committed c))" and
    c': "organization_members (committed c') = organization_members (committed c)
        @ [\<lparr>om_org = org, om_actor = a, om_role = ''member'', om_status = ''active'', om_display_name = None\<rparr>]"
      "actors (committed c') = actors (committed c) @ [\<lparr>a_id = a, a_type = ''human'', a_display_name = Some n, a_deleted_at = None\<rparr>]"
      "organizations (committed c') = organizations (committed c)"
    by (auto simp: person_rows_def)
  then show ?thesis using joined_organization_known [OF assms(1) assms(2) [unfolded ao]]
    by (intro grows.joins [where m = "\<lparr>om_org = org, om_actor = a, om_role = ''member'', om_status = ''active'', om_display_name = None\<rparr>"
          and r = "\<lparr>a_id = a, a_type = ''human'', a_display_name = Some n, a_deleted_at = None\<rparr>"]) simp_all
qed

lemma grows_registering:
  assumes "wire c = Healthy" "register e h n c = (Inr a, c')"
  shows "grows ls (committed c) (committed c')"
  using register_run [OF assms]
  by (intro grows.person [where r = "\<lparr>a_id = a, a_type = ''human'', a_display_name = Some n, a_deleted_at = None\<rparr>"])
    (simp_all add: person_rows_def)

lemma grows_elsewhere:
  assumes h: "wire c = Healthy"
  shows "create_team p org n c = (Inr u1, c') \<Longrightarrow> grows ls (committed c) (committed c')"
    and "add_team_member p org t a tr c = (Inr u2, c') \<Longrightarrow> grows ls (committed c) (committed c')"
    and "change_team_member_role p org t a tr c = (Inr u3, c') \<Longrightarrow> grows ls (committed c) (committed c')"
    and "remove_team_member p org t a c = (Inr u4, c') \<Longrightarrow> grows ls (committed c) (committed c')"
    and "create_channel p org sc n c = (Inr u5, c') \<Longrightarrow> grows ls (committed c) (committed c')"
    and "add_channel_member p org ch a c = (Inr u6, c') \<Longrightarrow> grows ls (committed c) (committed c')"
    and "post_message api org ch a i b c = (Inr u7, c') \<Longrightarrow> grows ls (committed c) (committed c')"
    and "create_invite p org nt ex mu c = (Inr it, c') \<Longrightarrow> grows ls (committed c) (committed c')"
    and "revoke_invite p org iv c = (Inr u9, c') \<Longrightarrow> grows ls (committed c) (committed c')"
    and "sign_in e v nt' ex c = (Inr at, c') \<Longrightarrow> grows ls (committed c) (committed c')"
    and "revoke_session a th c = (Inr u11, c') \<Longrightarrow> grows ls (committed c) (committed c')"
proof -
  show "create_team p org n c = (Inr u1, c') \<Longrightarrow> grows ls (committed c) (committed c')"
    by (drule create_team_run [OF h]) (simp add: grows.unchanged)
  show "add_team_member p org t a tr c = (Inr u2, c') \<Longrightarrow> grows ls (committed c) (committed c')"
    by (drule add_team_member_run [OF h]) (simp add: grows.unchanged)
  show "change_team_member_role p org t a tr c = (Inr u3, c') \<Longrightarrow> grows ls (committed c) (committed c')"
    by (drule change_team_member_role_run [OF h]) (auto intro!: grows.unchanged)
  show "remove_team_member p org t a c = (Inr u4, c') \<Longrightarrow> grows ls (committed c) (committed c')"
    by (drule remove_team_member_run [OF h]) (simp add: grows.unchanged)
  show "create_channel p org sc n c = (Inr u5, c') \<Longrightarrow> grows ls (committed c) (committed c')"
    by (drule create_channel_run [OF h]) (simp add: grows.unchanged)
  show "add_channel_member p org ch a c = (Inr u6, c') \<Longrightarrow> grows ls (committed c) (committed c')"
    by (drule add_channel_member_run [OF h]) (simp add: grows.unchanged)
  show "post_message api org ch a i b c = (Inr u7, c') \<Longrightarrow> grows ls (committed c) (committed c')"
    by (drule post_message_effect [OF _ h]) (auto intro!: grows.unchanged)
  show "create_invite p org nt ex mu c = (Inr it, c') \<Longrightarrow> grows ls (committed c) (committed c')"
    by (cases it, simp, drule create_invite_run [OF h]) (auto intro!: grows.unchanged)
  show "revoke_invite p org iv c = (Inr u9, c') \<Longrightarrow> grows ls (committed c) (committed c')"
    by (drule revoke_invite_run [OF h]) (auto intro!: grows.unchanged split: if_splits)
  show "sign_in e v nt' ex c = (Inr at, c') \<Longrightarrow> grows ls (committed c) (committed c')"
    by (cases at, simp, drule sign_in_run [OF h]) (auto intro!: grows.unchanged)
  show "revoke_session a th c = (Inr u11, c') \<Longrightarrow> grows ls (committed c) (committed c')"
    by (drule revoke_session_run [OF h]) (simp add: grows.unchanged)
qed

lemma grows_healthy:
  assumes h: "wire c = Healthy" and ok: "request_ok api r c"
    and "script_of strict r = None" "distinct (map a_id (actors (committed c)))"
  shows "grows (other_locks r) (committed c) (committed (run_request api r c))"
  using assms(2-4)
  apply (cases r)
  apply (simp_all only: request_ok.simps run_request.simps)
  apply (drule_tac [!] succeeded)
  apply (erule exE, (erule grows_registering [OF h] grows_joining [OF h] grows_elsewhere [OF h]
       | drule reading_runs [OF h], erule grows_same
       | simp add: script_of_def other_locks_def, erule (1) grows_founding [OF h]
       | simp add: script_of_def; fail))+
  done

lemma other_grows:
  assumes "script_of strict r = None" "consistent strict (committed c)"
  shows "grows (other_locks r) (committed c) (committed (run_request api r c))"
proof -
  have uniq: "distinct (map a_id (actors (committed (heal c))))" using assms(2) by (simp add: consistent_def)
  have healthy: "grows (other_locks r) (committed c) (committed (run_request api r (heal c)))"
  proof (cases "request_ok api r (heal c)")
    case True
    then show ?thesis using grows_healthy [OF heal_simps(7) True assms(1) uniq] by simp
  next
    case False
    then show ?thesis using request_contract [of api r "heal c"] by (intro grows_same) simp
  qed
  then show ?thesis using request_contract [of api r c] grows_same by metis
qed

lemma departed_appended:
  "actors d' = actors d @ [r] \<Longrightarrow> a_deleted_at r = None \<Longrightarrow> departed d' a = departed d a"
  by (simp add: departed_def)

lemma departed_same: "actors d' = actors d \<Longrightarrow> departed d' a = departed d a"
  by (simp add: departed_def)

lemma grows_consistent:
  assumes "grows ls d d'" "consistent strict d"
  shows "consistent strict d'"
  using assms
proof cases
  case unchanged
  then show ?thesis using assms(2) by (simp add: consistent_def departed_def owned_def)
next
  case (person r)
  then show ?thesis using assms(2) departed_appended [OF person(1,2)]
    by (auto simp: consistent_def key_set_def owned_def)
next
  case (joins r m)
  have "m' \<in> set (organization_members d) \<Longrightarrow> om_actor m' \<noteq> a_id r" for m'
    using joins(3) assms(2) by (auto simp: consistent_def)
  moreover have "\<not> departed d (a_id r)"
    using joins(3) unfolding departed_def list_ex_iff key_set_def by (metis image_eqI)
  ultimately show ?thesis using joins assms(2) departed_appended [OF joins(1,2)]
    by (auto simp: consistent_def key_set_def owned_def)
next
  case (founds x m)
  then show ?thesis using assms(2) departed_same [OF founds(1)]
    by (auto simp: consistent_def key_set_def owned_def)
qed

lemma grows_left_frozen: "grows ls d d' \<Longrightarrow> left_frozen d d'"
  by (auto simp: left_frozen_def elim!: grows.cases)

lemma standing_prefix:
  "organization_members d' = organization_members d @ ms \<Longrightarrow> prefix (standing d org) (standing d' org)"
  by (simp add: standing_def)

lemma calmer_appended:
  "organization_members d' = organization_members d @ [m] \<Longrightarrow> om_actor m \<noteq> a \<Longrightarrow> calmer strict a d d'"
  by (auto simp: calmer_def)

lemma grows_rely:
  assumes "grows ls d d'" "compatible ls hs"
  shows "rely strict hs d d'"
  using assms(1)
proof cases
  case unchanged
  then show ?thesis by (simp add: rely_def standing_def calmer_def departed_def) blast
next
  case (person r)
  then show ?thesis using departed_appended [OF person(1,2)]
    by (auto simp: rely_def standing_def calmer_def key_set_def)
next
  case (joins r m)
  have "calmer strict a d d'" if "a \<in> key_set a_id (actors d)" for a
    using joins that by (intro calmer_appended [OF joins(5)]) auto
  moreover have "prefix (standing d org) (standing d' org)" for org
    by (rule standing_prefix [OF joins(5)])
  ultimately show ?thesis using departed_appended [OF joins(1,2)] joins(1)
    by (auto simp: rely_def key_set_def)
next
  case (founds x m)
  have "calmer strict a d d'" if "(ActorRow a, ForUpdate) \<in> set hs" for a
    using founds(9) assms(2) that by (intro calmer_appended [OF founds(3)]) (force simp: compatible_iff blocks_def)
  moreover have "prefix (standing d org) (standing d' org)" for org
    by (rule standing_prefix [OF founds(3)])
  ultimately show ?thesis using departed_same [OF founds(1)] founds(1)
    by (auto simp: rely_def key_set_def)
qed

section \<open>Worlds of safe scripts\<close>

definition safe_running :: "bool \<Rightarrow> db \<Rightarrow> running \<Rightarrow> bool" where
  "safe_running strict d t \<longleftrightarrow> safe strict (r_script t) (r_session t) (r_held t) (r_changes t) d"

definition guarded :: "bool \<Rightarrow> world \<Rightarrow> bool" where
  "guarded strict w \<longleftrightarrow> consistent strict (w_db w)
     \<and> (\<forall>i < length (w_running w). \<forall>j < length (w_running w). i \<noteq> j \<longrightarrow>
          compatible (held_by (w_running w ! i)) (held_by (w_running w ! j)))
     \<and> (\<forall>t. Some t \<in> set (w_running w) \<longrightarrow> safe_running strict (w_db w) t)"

lemma safe_running_stable: "safe_running strict d t \<Longrightarrow> rely strict (r_held t) d d' \<Longrightarrow> safe_running strict d' t"
  unfolding safe_running_def by (rule safe_stable)

lemma blocks_sym: "blocks x y \<longleftrightarrow> blocks y x"
  by (auto simp: blocks_def)

lemma compatible_sym: "compatible xs ys \<longleftrightarrow> compatible ys xs"
  unfolding compatible_iff by (metis blocks_sym)

lemma compatible_append [simp]:
  "compatible (xs @ ys) zs \<longleftrightarrow> compatible xs zs \<and> compatible ys zs" "compatible [] zs" "compatible zs []"
  by (auto simp: compatible_iff)

lemma compatible_others:
  "compatible ls (others w i) \<longleftrightarrow> (\<forall>j < length (w_running w). j \<noteq> i \<longrightarrow> compatible ls (held_by (w_running w ! j)))"
  by (auto simp: compatible_iff others_def)

lemma reachable_consistent:
  assumes "reachable api d"
  shows "consistent strict d"
proof -
  have "om_status m = ''left''" if "m \<in> set (organization_members d)" "departed d (om_actor m)" for m
    using reachable_departed_clean [OF assms] that
    by (auto simp: departed_def list_ex_iff departed_clean_def erased_def)
  moreover have "owned d"
    by (rule reachable_invariant [OF assms _ owned_kept]) (simp add: owned_def empty_db_def)
  ultimately show ?thesis using reachable_schema [OF assms]
    by (auto simp: consistent_def schema_ok_def members_ok_def actors_ok_def uniq_def)
qed

lemma left_frozen_refl: "left_frozen d d"
  by (auto simp: left_frozen_def)

lemma guarded_consistent: "guarded strict w \<Longrightarrow> consistent strict (w_db w)"
  by (simp add: guarded_def)

lemma guarded_compatible:
  "guarded strict w \<Longrightarrow> i < length (w_running w) \<Longrightarrow> j < length (w_running w) \<Longrightarrow> i \<noteq> j \<Longrightarrow>
     compatible (held_by (w_running w ! i)) (held_by (w_running w ! j))"
  by (simp add: guarded_def)

lemma guarded_safe:
  "guarded strict w \<Longrightarrow> i < length (w_running w) \<Longrightarrow> w_running w ! i = Some t \<Longrightarrow> safe_running strict (w_db w) t"
  unfolding guarded_def by (metis nth_mem)

lemma guarded_updated:
  assumes "guarded strict w" "i < length (w_running w)" "consistent strict d'"
    and "\<And>t. x = Some t \<Longrightarrow> safe_running strict d' t"
    and "\<And>j. j < length (w_running w) \<Longrightarrow> j \<noteq> i \<Longrightarrow> compatible (held_by x) (held_by (w_running w ! j))"
    and "\<And>j t. j < length (w_running w) \<Longrightarrow> j \<noteq> i \<Longrightarrow> w_running w ! j = Some t \<Longrightarrow> safe_running strict d' t"
  shows "guarded strict \<lparr>w_db = d', w_running = (w_running w)[i := x]\<rparr>"
  unfolding guarded_def world.simps
proof (intro conjI allI impI assms(3))
  show "compatible (held_by ((w_running w)[i := x] ! j)) (held_by ((w_running w)[i := x] ! k))"
    if "j < length ((w_running w)[i := x])" "k < length ((w_running w)[i := x])" "j \<noteq> k" for j k
    using that assms(5) [of j] assms(5) [of k] guarded_compatible [OF assms(1), of j k]
    by (cases "j = i"; cases "k = i") (auto simp: compatible_sym [of _ "held_by x"])
  show "safe_running strict d' t" if t: "Some t \<in> set ((w_running w)[i := x])" for t
  proof -
    from t obtain j where "j < length (w_running w)" "(w_running w)[i := x] ! j = Some t"
      unfolding in_set_conv_nth by auto
    then show ?thesis using assms(2) assms(4) [of t] assms(6) [of j t] by (cases "j = i") simp_all
  qed
qed

lemma update_running: "w\<lparr>w_running := rs\<rparr> = \<lparr>w_db = w_db w, w_running = rs\<rparr>"
  by (cases w) simp

lemma guarded_advances:
  assumes w: "guarded strict w" and i: "i < length (w_running w)" "w_running w ! i = Some t"
    and step: "advances (w_db w) (others w i) t t'"
  shows "guarded strict (w\<lparr>w_running := (w_running w)[i := Some t']\<rparr>)"
  unfolding update_running
proof (rule guarded_updated [OF w i(1)])
  note ahead = safe_advances [OF guarded_safe [OF w i, unfolded safe_running_def] guarded_consistent [OF w] step]
  show "safe_running strict (w_db w) t''" if "Some t' = Some t''" for t''
    using ahead(1) that by (simp add: safe_running_def)
  fix j assume j: "j < length (w_running w)" "j \<noteq> i"
  have "compatible (r_held t) (held_by (w_running w ! j))"
    using guarded_compatible [OF w i(1) j(1)] j(2) i(2) by (simp add: held_by_def)
  then show "compatible (held_by (Some t')) (held_by (w_running w ! j))"
    using ahead(2) j by (auto simp: compatible_others held_by_def)
qed (simp_all add: guarded_consistent [OF w] guarded_safe [OF w])

lemma guarded_commits:
  assumes w: "guarded strict w" and i: "i < length (w_running w)" "w_running w ! i = Some t" and ends: "r_script t = Commit"
  shows "guarded strict \<lparr>w_db = replay (r_changes t) (w_db w), w_running = (w_running w)[i := None]\<rparr>"
    and "left_frozen (w_db w) (replay (r_changes t) (w_db w))"
proof -
  have ok: "commit_ok strict (r_held t) (r_changes t) (w_db w)"
    using guarded_safe [OF w i] guarded_consistent [OF w] ends rely_refl by (simp add: safe_running_def)
  then show "left_frozen (w_db w) (replay (r_changes t) (w_db w))" by (simp add: commit_ok_def)
  show "guarded strict \<lparr>w_db = replay (r_changes t) (w_db w), w_running = (w_running w)[i := None]\<rparr>"
  proof (rule guarded_updated [OF w i(1)])
    fix j t' assume j: "j < length (w_running w)" "j \<noteq> i" and t': "w_running w ! j = Some t'"
    have "compatible (r_held t) (r_held t')"
      using guarded_compatible [OF w i(1) j(1)] j(2) i(2) t' by (simp add: held_by_def)
    then show "safe_running strict (replay (r_changes t) (w_db w)) t'"
      by (rule safe_running_stable [OF guarded_safe [OF w j(1) t'] commit_meets_rely [OF ok]])
  qed (use ok in \<open>simp_all add: commit_ok_def held_by_def\<close>)
qed

lemma guarded_ends:
  assumes "guarded strict w" "i < length (w_running w)"
  shows "guarded strict (w\<lparr>w_running := (w_running w)[i := None]\<rparr>)"
  unfolding update_running
  by (rule guarded_updated [OF assms guarded_consistent [OF assms(1)]]) (simp_all add: held_by_def guarded_safe [OF assms(1)])

lemma guarded_other:
  assumes w: "guarded strict w" and r: "script_of strict r = None" "committed c = w_db w"
    and locks: "\<forall>i < length (w_running w). compatible (other_locks r) (held_by (w_running w ! i))"
  shows "guarded strict (w\<lparr>w_db := committed (run_request api r c)\<rparr>)"
    and "left_frozen (w_db w) (committed (run_request api r c))"
proof -
  have grown: "grows (other_locks r) (w_db w) (committed (run_request api r c))"
    using other_grows [OF r(1), where c = c] guarded_consistent [OF w] r(2) by simp
  then show "left_frozen (w_db w) (committed (run_request api r c))" by (rule grows_left_frozen)
  have "safe_running strict (committed (run_request api r c)) t"
    if "i < length (w_running w)" "w_running w ! i = Some t" for i t
  proof -
    from that have "compatible (other_locks r) (r_held t)" using locks by (force simp: held_by_def)
    then show ?thesis by (rule safe_running_stable [OF guarded_safe [OF w that] grows_rely [OF grown]])
  qed
  then show "guarded strict (w\<lparr>w_db := committed (run_request api r c)\<rparr>)"
    using w grows_consistent [OF grown] by (auto simp: guarded_def in_set_conv_nth)
qed

text \<open>What the scripts owe the world: begun on a consistent database, each of them is safe.\<close>

locale disciplined =
  fixes strict :: bool
  assumes starts_safe: "script_of strict r = Some (p, P) \<Longrightarrow> consistent strict d \<Longrightarrow> safe strict P (session_for (Actor p) c) [] [] d"
begin

lemma guarded_starts:
  assumes "guarded strict w" "script_of strict r = Some (p, P)"
  shows "guarded strict (w\<lparr>w_running := w_running w @ [Some (begun (session_for (Actor p) c) P)]\<rparr>)"
proof -
  have "safe_running strict (w_db w) (begun (session_for (Actor p) c) P)"
    using starts_safe [OF assms(2)] assms(1) by (simp add: safe_running_def begun_def guarded_def)
  then show ?thesis using assms(1) by (auto simp: guarded_def nth_append held_by_def begun_def)
qed

lemma guarded_step:
  assumes "world_step strict api w w'" "guarded strict w"
  shows "guarded strict w' \<and> left_frozen (w_db w) (w_db w')"
  using assms
  by cases (simp_all add: guarded_starts guarded_advances guarded_commits guarded_ends guarded_other left_frozen_refl)

lemma interleaved_guarded: "interleaved strict api w \<Longrightarrow> guarded strict w"
proof (induction rule: interleaved.induct)
  case (rest d)
  then show ?case using reachable_consistent by (simp add: guarded_def)
next
  case (steps w w')
  then show ?case using guarded_step by blast
qed

end

end
