(* ===== verification/Discipline.thy ===== *)
theory Discipline
  imports Isolation
begin

text \<open>
  The four membership scripts are safe: what each of them reads under its row locks still holds when it commits.
  With \<open>strict\<close> the guarantee says more, and the reactivation stops where \<open>lock_actor\<close> did not see its target.
\<close>

section \<open>Facts that locks keep\<close>

definition stands :: "db \<Rightarrow> organization_id \<Rightarrow> actor_id \<Rightarrow> string \<Rightarrow> string \<Rightarrow> bool" where
  "stands d org a role status \<longleftrightarrow> (a, role, status) \<in> set (standing d org)"

lemma stands_iff:
  "stands d org a role status \<longleftrightarrow>
     (\<exists>m \<in> set (organization_members d). is_member org a m \<and> om_role m = role \<and> om_status m = status)"
  by (auto simp: stands_def standing_def is_member_def)

lemma stands_stable:
  assumes "stands d org a role status" "rely strict hs d d'" "(OrganizationRow org, ForUpdate) \<in> set hs"
  shows "stands d' org a role status"
proof -
  have "prefix (standing d org) (standing d' org)" using assms(2,3) by (auto simp: rely_def)
  then show ?thesis using assms(1) unfolding stands_def by (metis set_mono_prefix subsetD)
qed

lemma consistent_unique:
  "consistent strict d \<Longrightarrow> m \<in> set (organization_members d) \<Longrightarrow> m' \<in> set (organization_members d) \<Longrightarrow>
     is_member org a m \<Longrightarrow> is_member org a m' \<Longrightarrow> m = m'"
  by (rule distinct_key_unique [where key = "\<lambda>m. (om_org m, om_actor m)"]) (auto simp: consistent_def is_member_def)

section \<open>Safety of the parts\<close>

lemma safe_fail: "safe strict (Fail e) s hs ws d"
  by simp

lemma safe_lock_all:
  assumes "consistent strict d" "\<And>d'. rely strict hs d d' \<Longrightarrow> consistent strict d' \<Longrightarrow> safe strict p s (rev (map (\<lambda>r. (r, mode)) rows) @ hs) ws d'"
  shows "safe strict (lock_all rows mode p) s hs ws d"
  using assms
proof (induction rows arbitrary: hs d)
  case Nil
  then show ?case using rely_refl by simp
next
  case (Cons r rows)
  show ?case unfolding lock_all.simps safe.simps
  proof (intro allI impI)
    fix d1 assume d1: "rely strict hs d d1" "consistent strict d1"
    show "safe strict (lock_all rows mode p) s ((r, mode) # hs) ws d1"
    proof (rule Cons.IH [OF d1(2)])
      fix d2 assume d2: "rely strict ((r, mode) # hs) d1 d2" "consistent strict d2"
      then have "rely strict hs d d2" by (intro rely_trans [OF d1(1)] rely_fewer [OF _ d2(1)]) auto
      from Cons.prems(2) [OF this d2(2)]
      show "safe strict p s (rev (map (\<lambda>r. (r, mode)) rows) @ (r, mode) # hs) ws d2" by simp
    qed
  qed
qed

lemma safe_lock_actor:
  assumes "\<And>hs d' dep. consistent strict d' \<Longrightarrow> dep = None \<or> ActorRow a \<in> fst ` set hs \<Longrightarrow> safe strict (k dep) s hs [] d'"
  shows "safe strict (lock_actor_script a p k) s [] [] d"
  unfolding lock_actor_script_def safe.simps Let_def
  by (intro allI impI safe_lock_all) (auto intro!: assms simp: image_iff)

lemma safe_lock_organization:
  assumes "\<And>d'. consistent strict d' \<Longrightarrow> safe strict (k False) s hs ws d'"
    and "\<And>d'. consistent strict d' \<Longrightarrow> safe strict (k True) s ((OrganizationRow org, ForUpdate) # hs) ws d'"
  shows "safe strict (lock_organization_script org k) s hs ws d"
  using assms unfolding lock_organization_script_def by auto

lemma safe_member:
  assumes "safe strict (k None) s hs [] d"
    and "\<And>d' role status. consistent strict d' \<Longrightarrow> stands d' org a (role_str role) (status_str status) \<Longrightarrow>
           safe strict (k (Some (role, status))) s hs [] d'"
  shows "safe strict (member_script org a h k) s hs [] d"
  unfolding member_script_def safe.simps
proof (intro allI impI)
  fix d' assume d': "rely strict hs d d'" "consistent strict d'"
  show "safe strict (case member_row org a s (replay [] d') of None \<Rightarrow> k None
     | Some row \<Rightarrow> (case role_parse (om_role row) of
          None \<Rightarrow> Fail (h (Protocol ''invalid stored organization role''))
        | Some role \<Rightarrow> (case status_parse (om_status row) of
              None \<Rightarrow> Fail (h (Protocol ''invalid stored membership status''))
            | Some status \<Rightarrow> k (Some (role, status))))) s hs [] d'"
  proof (cases "member_row org a s d'")
    case None
    then show ?thesis using safe_stable [OF assms(1) d'(1)] by simp
  next
    case (Some row)
    then have "row \<in> set (organization_members d')" "is_member org a row"
      by (auto simp: member_row_def is_member_def dest!: fetch_optional_SomeD)
    then show ?thesis using Some assms(2) [OF d'(2)]
      by (auto simp: stands_iff role.parse_iff status.parse_iff split: option.split)
  qed
qed

lemma safe_owners:
  assumes "\<And>d' owners. rely strict hs d d' \<Longrightarrow> consistent strict d' \<Longrightarrow> (\<And>b. b \<in> set owners \<Longrightarrow> stands d' org b ''owner'' ''active'') \<Longrightarrow>
     safe strict (k owners) s hs [] d'"
  shows "safe strict (owners_script org k) s hs [] d"
  unfolding owners_script_def safe.simps
proof (intro allI impI, rule assms)
  fix d' b assume "b \<in> set (map om_actor (owner_rows org s (replay [] d')))"
  then show "stands d' org b ''owner'' ''active''" by (auto simp: owner_rows_def stands_iff is_member_def)
qed

lemma safe_update:
  assumes "\<And>d' u. rely strict hs d d' \<Longrightarrow> consistent strict d' \<Longrightarrow> u = [] \<or> u = [w] \<Longrightarrow> safe strict rest s ((MemberRow org a, ForUpdate) # hs) (ws @ u) d'"
  shows "safe strict (update_script org a statement w h rest) s hs ws d"
  unfolding update_script_def safe.simps
proof (intro allI impI)
  fix d' assume d': "rely strict hs d d'" "consistent strict d'"
  show "case outcome (statement s (replay ws d')) (if in_active s (replay ws d') org \<or> is_self s a then [w] else []) of
      Inl _ \<Rightarrow> True | Inr u \<Rightarrow> safe strict rest s ([(MemberRow org a, ForUpdate)] @ hs) (ws @ u) d'"
    using assms [OF d', of "[w]"] assms [OF d', of "[]"] by (auto simp: outcome_def split: sum.split)
qed

lemma safe_record:
  assumes "\<And>d' e. rely strict hs d d' \<Longrightarrow> consistent strict d' \<Longrightarrow>
     safe strict rest s ((OrganizationRow org, ForShare) # (ActorRow p, ForShare) # hs) (ws @ [AuditAdded e]) d'"
  shows "safe strict (record_script ev org p h rest) s hs ws d"
  using assms rely_trans unfolding record_script_def by (auto simp: outcome_def split: sum.splits)

section \<open>One membership rewritten\<close>

lemma replay_departed: "(\<And>r. actor_effects ws r = r) \<Longrightarrow> departed (replay ws d) x = departed d x"
  by (simp add: departed_def replay_rows map_idI)

lemma commit_nothing:
  assumes "consistent strict d" "\<And>m. member_effects ws m = m" "\<And>r. actor_effects ws r = r"
  shows "commit_ok strict hs ws d"
proof -
  have rows: "organization_members (replay ws d) = organization_members d" "actors (replay ws d) = actors d"
    "organizations (replay ws d) = organizations d"
    using assms(2,3) by (simp_all add: replay_rows map_idI)
  then have "consistent strict (replay ws d)" using assms(1) by (simp add: consistent_def departed_def owned_def)
  with rows show ?thesis
    by (auto simp: commit_ok_def left_frozen_def standing_def calmer_def departed_def)
qed

lemma owned_after_rewrite:
  assumes "owned d" "organizations d' = organizations d"
    and g: "organization_members d' = map g (organization_members d)" "\<And>m. om_org (g m) = om_org m"
      "\<And>m. g m = (if is_member org a m then f m else m)"
    and only: "\<And>m. m \<in> set (organization_members d) \<Longrightarrow> is_member org a m \<Longrightarrow> m = m0"
    and owners: "active_owner m0 \<Longrightarrow> active_owner (f m0) \<or> (\<exists>b. b \<noteq> a \<and> stands d org b ''owner'' ''active'')"
  shows "owned d'"
  unfolding owned_def assms(2) g(1)
proof
  fix r assume "r \<in> set (organizations d)"
  then obtain m where m: "m \<in> set (organization_members d)" "om_org m = o_id r" "active_owner m"
    using assms(1) by (auto simp: owned_def)
  have "\<exists>m \<in> set (organization_members d). om_org m = o_id r \<and> active_owner (g m)"
  proof (cases "is_member org a m \<and> \<not> active_owner (f m)")
    case False
    then show ?thesis using m g(3) [of m] by auto
  next
    case True
    then obtain b where b: "b \<noteq> a" "stands d org b ''owner'' ''active''" using owners only m by blast
    then obtain m' where "m' \<in> set (organization_members d)" "is_member org b m'" "active_owner m'"
      by (auto simp: stands_iff active_owner_def)
    then show ?thesis using g(3) [of m'] m(2) True b(1) by (auto simp: is_member_def)
  qed
  then show "\<exists>m \<in> set (map g (organization_members d)). om_org m = o_id r \<and> active_owner m" using g(2) by auto
qed

lemma calmer_map:
  assumes "organization_members d' = map g (organization_members d)" "\<And>m. om_org (g m) = om_org m" "\<And>m. om_actor (g m) = om_actor m"
    and "\<And>m. m \<in> set (organization_members d) \<Longrightarrow> om_actor m = x \<Longrightarrow>
      (strict \<longrightarrow> om_status (g m) = ''active'' \<longrightarrow> om_status m = ''active'') \<and> (om_status m = ''left'' \<longrightarrow> om_status (g m) = ''left'')"
  shows "calmer strict x d d'"
  unfolding calmer_def assms(1) using assms(2-4) by auto

lemma commit_rewrite:
  assumes con: "consistent strict d" and lock: "OrganizationRow org \<in> fst ` set hs"
    and ws: "\<And>m. member_effects ws m = (if is_member org a m then f m else m)" "\<And>r. actor_effects ws r = r"
    and row: "m0 \<in> set (organization_members d)" "is_member org a m0" "om_status m0 \<noteq> ''left''"
    and owners: "strict \<Longrightarrow> active_owner m0 \<Longrightarrow> active_owner (f m0) \<or> (\<exists>b. b \<noteq> a \<and> stands d org b ''owner'' ''active'')"
    and calm: "strict \<Longrightarrow> om_status (f m0) = ''active'' \<Longrightarrow> om_status m0 = ''active'' \<or> ActorRow a \<in> fst ` set hs"
  shows "commit_ok strict hs ws d"
proof -
  let ?d = "replay ws d"
  have rows: "organization_members ?d = map (member_effects ws) (organization_members d)" "actors ?d = actors d"
    "organizations ?d = organizations d"
    using ws(2) by (simp_all add: replay_rows map_idI)
  have only: "m = m0" if "m \<in> set (organization_members d)" "is_member org a m" for m
    using consistent_unique [OF con that(1) row(1) that(2) row(2)] .
  have dep: "departed ?d x = departed d x" for x by (rule replay_departed [OF ws(2)])
  have "owned ?d" if strict
    by (rule owned_after_rewrite [OF _ rows(3,1) effects_keys(1) ws(1) only])
      (use con owners that in \<open>auto simp: consistent_def\<close>)
  moreover have "om_status (member_effects ws m) = ''left''"
    if "m \<in> set (organization_members d)" "departed d (om_actor m)" for m
    using that con only row(3) ws(1) [of m] by (auto simp: consistent_def)
  ultimately have "consistent strict ?d" using con
    by (auto simp: consistent_def rows dep comp_def)
  moreover have "left_frozen d ?d"
    using ws(1) only row(3) by (force simp: left_frozen_def rows)
  moreover have "standing ?d x = standing d x" if "OrganizationRow x \<notin> fst ` set hs" for x
  proof -
    have "x \<noteq> org" using that lock by blast
    then show ?thesis
      unfolding standing_def rows filter_map comp_def effects_keys map_map by (auto simp: ws(1) is_member_def)
  qed
  moreover have "calmer strict x d ?d" if "ActorRow x \<notin> fst ` set hs" for x
    by (rule calmer_map [OF rows(1) effects_keys(1,2)])
      (use only ws(1) row(3) calm that in \<open>auto simp: is_member_def\<close>)
  ultimately show ?thesis by (simp add: commit_ok_def dep)
qed

lemma safe_rewrite:
  assumes lock: "(OrganizationRow org, ForUpdate) \<in> set hs"
    and w: "\<And>m. member_effect w m = (if is_member org a m then f m else m)" "\<And>r. actor_effect w r = r"
    and now: "stands d org a role status" "status \<noteq> ''left''"
    and owners: "role = ''owner'' \<Longrightarrow> status = ''active'' \<Longrightarrow>
       (\<forall>m. active_owner m \<longrightarrow> active_owner (f m)) \<or> (\<exists>b. b \<noteq> a \<and> stands d org b ''owner'' ''active'')"
    and calm: "strict \<Longrightarrow> status = ''active'' \<or> ActorRow a \<in> fst ` set hs \<or> (\<forall>m. om_status m = status \<longrightarrow> om_status (f m) \<noteq> ''active'')"
  shows "safe strict (update_script org a statement w h (record_script ev org p h' Commit)) s hs [] d"
proof (rule safe_update, rule safe_record, unfold safe.simps, intro allI impI)
  fix d1 d2 d3 u e
  let ?hs = "(MemberRow org a, ForUpdate) # hs"
  let ?hs' = "(OrganizationRow org, ForShare) # (ActorRow p, ForShare) # ?hs"
  assume d: "rely strict hs d d1" "rely strict ?hs d1 d2" "rely strict ?hs' d2 d3" "consistent strict d3" and u: "u = [] \<or> u = [w]"
  have keeps: "stands d3 org x r st" if "stands d org x r st" for x r st
    using stands_stable [OF stands_stable [OF stands_stable [OF that d(1)] d(2)] d(3)] lock by simp
  from keeps [OF now(1)] obtain m0 where m0: "m0 \<in> set (organization_members d3)" "is_member org a m0"
    "om_role m0 = role" "om_status m0 = status" by (auto simp: stands_iff)
  show "commit_ok strict ?hs' (([] @ u) @ [AuditAdded e]) d3"
  proof (cases "u = []")
    case True
    then show ?thesis by (intro commit_nothing d(4)) simp_all
  next
    case False
    with u have u: "u = [w]" by blast
    show ?thesis
    proof (rule commit_rewrite [where f = f, OF d(4) _ _ _ m0(1,2)])
      show "active_owner (f m0) \<or> (\<exists>b. b \<noteq> a \<and> stands d3 org b ''owner'' ''active'')" if "active_owner m0"
        using owners keeps that m0(3,4) by (auto simp: active_owner_def)
      show "om_status m0 = ''active'' \<or> ActorRow a \<in> fst ` set ?hs'" if strict "om_status (f m0) = ''active''"
        using calm that m0(4) by auto
    qed (use u w m0(4) now(2) lock in auto)
  qed
qed

text \<open>The owners the check saw beside the one whose ownership ends.\<close>

lemma safe_checked_owners:
  assumes "(OrganizationRow org, ForUpdate) \<in> set hs" "stands d org a role status" "changed_actor change = a"
    and "\<And>d' b. stands d' org a role status \<Longrightarrow> b \<noteq> a \<Longrightarrow> stands d' org b ''owner'' ''active'' \<Longrightarrow> safe strict P s hs [] d'"
  shows "safe strict (owners_script org (\<lambda>owners. case check_owner_change owners change of Inl e \<Rightarrow> Fail (g e) | Inr _ \<Rightarrow> P)) s hs [] d"
proof (rule safe_owners)
  fix d' owners
  assume d': "rely strict hs d d'" and owners: "\<And>b. b \<in> set owners \<Longrightarrow> stands d' org b ''owner'' ''active''"
  show "safe strict (case check_owner_change owners change of Inl e \<Rightarrow> Fail (g e) | Inr _ \<Rightarrow> P) s hs [] d'"
  proof (cases "check_owner_change owners change")
    case (Inr u)
    then obtain b where "b \<in> set owners" "b \<noteq> a" using assms(3) by (auto simp: check_owner_change_Inr)
    then show ?thesis using Inr owners assms(4) stands_stable [OF assms(2) d' assms(1)] by simp
  qed simp
qed

section \<open>Changing a role, suspending, reactivating\<close>

lemma safe_change_role: "safe strict (change_role_script p org a role) s [] [] d"
  unfolding change_role_script_def Let_def
proof (rule safe_lock_actor, rule safe_lock_organization, simp, simp only: not_True_eq_False if_False,
    rule safe_member, simp, unfold option.case prod.case)
  fix d' hs old status
  let ?hs = "(OrganizationRow org, ForUpdate) # hs"
  assume now: "stands d' org a (role_str old) (status_str status)"
  define P where "P = update_script org a (\<lambda>s. set_member_role s org a role) (RoleWritten org a (role_str role))
      (\<lambda>e. RoleFailed (change_member_role_error.Database e)) (record_script (member_role_changed a old role) org p
      (\<lambda>e. RoleFailed (change_member_role_error.Database e)) Commit)"
  have update: "safe strict P s ?hs [] d''" if "stands d'' org a (role_str old) (status_str status)" "status \<noteq> Left"
      "status = Active \<and> old = Owner \<and> role \<noteq> Owner \<Longrightarrow> \<exists>b. b \<noteq> a \<and> stands d'' org b ''owner'' ''active''" for d''
    unfolding P_def
  proof (rule safe_rewrite [OF _ _ _ that(1)])
    show "member_effect (RoleWritten org a (role_str role)) m
        = (if is_member org a m then m\<lparr>om_role := role_str role\<rparr> else m)" for m by simp
  qed (use that(2,3) in \<open>cases status; cases role; cases old; simp add: active_owner_def\<close>)+
  have "safe strict (owners_script org (\<lambda>owners. case check_owner_change owners (Demote a) of
      Inl e \<Rightarrow> Fail (RoleFailed (change_member_role_of_last_owner e)) | Inr _ \<Rightarrow> P)) s ?hs [] d'" if "status \<noteq> Left"
    by (rule safe_checked_owners [OF _ now]) (use that in \<open>auto intro!: update\<close>)
  then show "safe strict (if status = Left then Fail (RoleFailed change_member_role_error.NotFound)
      else if old = role then Commit
      else if status = Active \<and> old = Owner \<and> role \<noteq> Owner
        then owners_script org (\<lambda>owners. case check_owner_change owners (Demote a) of
          Inl e \<Rightarrow> Fail (RoleFailed (change_member_role_of_last_owner e)) | Inr _ \<Rightarrow> P)
        else P) s ?hs [] d'"
    using update [OF now] commit_nothing by auto
qed

lemma safe_suspend: "safe strict (suspend_script p org a) s [] [] d"
  unfolding suspend_script_def Let_def
proof (rule safe_lock_actor, rule safe_lock_organization, simp, simp only: not_True_eq_False if_False,
    rule safe_member, simp, unfold option.case prod.case)
  fix d' hs role status
  let ?hs = "(OrganizationRow org, ForUpdate) # hs"
  assume now: "stands d' org a (role_str role) (status_str status)"
  define P where "P = update_script org a (\<lambda>s. set_member_status s org a Suspended) (StatusWritten org a ''suspended'')
      (\<lambda>e. SuspendFailed (suspend_member_error.Database e)) (record_script (member_suspended a) org p
      (\<lambda>e. SuspendFailed (suspend_member_error.Database e)) Commit)"
  have update: "safe strict P s ?hs [] d''" if "stands d'' org a (role_str role) ''active''"
      "role = Owner \<Longrightarrow> \<exists>b. b \<noteq> a \<and> stands d'' org b ''owner'' ''active''" for d''
    unfolding P_def
  proof (rule safe_rewrite [OF _ _ _ that(1)])
    show "member_effect (StatusWritten org a ''suspended'') m
        = (if is_member org a m then m\<lparr>om_status := ''suspended''\<rparr> else m)" for m by simp
  qed (use that(2) in \<open>cases role; simp\<close>)+
  have "safe strict (owners_script org (\<lambda>owners. case check_owner_change owners (Suspend a) of
      Inl e \<Rightarrow> Fail (SuspendFailed (suspend_member_of_last_owner e)) | Inr _ \<Rightarrow> P)) s ?hs [] d'" if "status = Active"
    by (rule safe_checked_owners [OF _ now]) (use that in \<open>auto intro!: update\<close>)
  then show "safe strict (if status \<noteq> Active then Fail (SuspendFailed suspend_member_error.NotActive)
      else if role = Owner
        then owners_script org (\<lambda>owners. case check_owner_change owners (Suspend a) of
          Inl e \<Rightarrow> Fail (SuspendFailed (suspend_member_of_last_owner e)) | Inr _ \<Rightarrow> P)
        else P) s ?hs [] d'"
    using update [of d'] now by auto
qed

lemma safe_reactivate: "safe strict (reactivate_script strict p org a) s [] [] d"
  unfolding reactivate_script_def
proof (rule safe_lock_actor, rule safe_lock_organization, simp, simp only: not_True_eq_False if_False,
    rule safe_member, simp, unfold option.case prod.case)
  fix d' hs role status and dep :: "bool option"
  let ?hs = "(OrganizationRow org, ForUpdate) # hs"
  assume now: "stands d' org a (role_str role) (status_str status)" and dep: "dep = None \<or> ActorRow a \<in> fst ` set hs"
  define P where "P = update_script org a (\<lambda>s. set_member_status s org a Active) (StatusWritten org a ''active'')
      (\<lambda>e. ReactivateFailed (reactivate_member_error.Database e)) (record_script (member_reactivated a) org p
      (\<lambda>e. ReactivateFailed (reactivate_member_error.Database e)) Commit)"
  have "safe strict P s ?hs [] d'" if "status = Suspended" "strict \<Longrightarrow> dep \<noteq> None"
    unfolding P_def
  proof (rule safe_rewrite [OF _ _ _ now])
    show "member_effect (StatusWritten org a ''active'') m
        = (if is_member org a m then m\<lparr>om_status := ''active''\<rparr> else m)" for m by simp
  qed (use that dep in auto)
  then show "safe strict (if strict \<and> dep = None then Fail (ReactivateFailed reactivate_member_error.NotFound)
      else if dep = Some True then Fail (ReactivateFailed reactivate_member_error.ActorDeparted)
      else if status \<noteq> Suspended then Fail (ReactivateFailed reactivate_member_error.NotSuspended) else P) s ?hs [] d'"
    by simp
qed

end
