(* ===== verification/Parting.thy ===== *)
theory Parting
  imports Discipline
begin

text \<open>
  Leaving is safe: the actor's row lock keeps the memberships the departure works on from growing, the locks on
  the organizations keep the owners that stay, and the audit records hold every organization a membership ends in.
\<close>

section \<open>Facts that last\<close>

text \<open>A fact about the locks and the database that whatever the others do leaves true.\<close>

definition lasting :: "bool \<Rightarrow> (held \<Rightarrow> db \<Rightarrow> bool) \<Rightarrow> bool" where
  "lasting strict F \<longleftrightarrow> (\<forall>hs hs' d d'. F hs d \<longrightarrow> rely strict hs d d' \<longrightarrow> consistent strict d' \<longrightarrow> set hs \<subseteq> set hs' \<longrightarrow> F hs' d')"

lemma lastingD: "lasting strict F \<Longrightarrow> F hs d \<Longrightarrow> rely strict hs d d' \<Longrightarrow> consistent strict d' \<Longrightarrow> set hs \<subseteq> set hs' \<Longrightarrow> F hs' d'"
  unfolding lasting_def by blast

lemma lasting_conj: "lasting strict F \<Longrightarrow> lasting strict G \<Longrightarrow> lasting strict (\<lambda>hs d. F hs d \<and> G hs d)"
  unfolding lasting_def by blast

lemma lasting_locks: "lasting strict (\<lambda>hs d. r \<in> fst ` set hs)"
  unfolding lasting_def by blast

definition owned_beside :: "actor_id \<Rightarrow> organization_id list \<Rightarrow> held \<Rightarrow> db \<Rightarrow> bool" where
  "owned_beside a orgs hs d \<longleftrightarrow> (\<forall>org \<in> set orgs. (OrganizationRow org, ForUpdate) \<in> set hs
     \<and> (\<exists>b. b \<noteq> a \<and> stands d org b ''owner'' ''active''))"

lemma lasting_owned_beside: "lasting strict (owned_beside a orgs)"
  unfolding lasting_def owned_beside_def by (meson stands_stable subsetD)

definition bound :: "actor_id \<Rightarrow> held \<Rightarrow> db \<Rightarrow> bool" where
  "bound a hs d \<longleftrightarrow> (ActorRow a, ForUpdate) \<in> set hs \<and> a \<in> key_set a_id (actors d)"

lemma lasting_bound: "lasting strict (bound a)"
  unfolding lasting_def bound_def rely_def by blast

lemma bound_calmer: "bound a hs d \<Longrightarrow> rely strict hs d d' \<Longrightarrow> calmer strict a d d'"
  by (simp add: bound_def rely_def)

definition active_within :: "bool \<Rightarrow> actor_id \<Rightarrow> organization_id list \<Rightarrow> held \<Rightarrow> db \<Rightarrow> bool" where
  "active_within strict a orgs hs d \<longleftrightarrow> bound a hs d \<and> (\<forall>m \<in> set (organization_members d).
     om_actor m = a \<longrightarrow> strict \<longrightarrow> om_status m = ''active'' \<longrightarrow> om_org m \<in> set orgs)"

lemma lasting_active_within: "lasting strict (active_within strict a orgs)"
  unfolding lasting_def active_within_def
proof (intro allI impI conjI ballI)
  fix hs hs' d d' m
  assume F: "bound a hs d \<and> (\<forall>m \<in> set (organization_members d). om_actor m = a \<longrightarrow> strict \<longrightarrow> om_status m = ''active'' \<longrightarrow> om_org m \<in> set orgs)"
    and r: "rely strict hs d d'" "consistent strict d'" "set hs \<subseteq> set hs'"
  show "bound a hs' d'" using lastingD [OF lasting_bound _ r] F by blast
  assume "m \<in> set (organization_members d')" "om_actor m = a" strict "om_status m = ''active''"
  then show "om_org m \<in> set orgs" using bound_calmer [of a hs d strict d'] F r(1) unfolding calmer_def by metis
qed

definition listed :: "actor_id \<Rightarrow> (organization_id \<times> string) list \<Rightarrow> held \<Rightarrow> db \<Rightarrow> bool" where
  "listed a ms hs d \<longleftrightarrow> bound a hs d \<and> (\<forall>m \<in> set (organization_members d). om_actor m = a \<longrightarrow>
     (\<exists>x \<in> set ms. fst x = om_org m \<and> (snd x = ''left'' \<longrightarrow> om_status m = ''left'')))"

lemma lasting_listed: "lasting strict (listed a ms)"
  unfolding lasting_def listed_def
proof (intro allI impI conjI ballI)
  fix hs hs' d d' m
  assume F: "bound a hs d \<and> (\<forall>m \<in> set (organization_members d). om_actor m = a \<longrightarrow>
     (\<exists>x \<in> set ms. fst x = om_org m \<and> (snd x = ''left'' \<longrightarrow> om_status m = ''left'')))"
    and r: "rely strict hs d d'" "consistent strict d'" "set hs \<subseteq> set hs'"
  show "bound a hs' d'" using lastingD [OF lasting_bound _ r] F by blast
  assume "m \<in> set (organization_members d')" "om_actor m = a"
  then show "\<exists>x \<in> set ms. fst x = om_org m \<and> (snd x = ''left'' \<longrightarrow> om_status m = ''left'')"
    using bound_calmer [of a hs d strict d'] F r(1) unfolding calmer_def by metis
qed

section \<open>Safety of the loops\<close>

text \<open>Changes that leave memberships and actors as they are.\<close>

definition quiet :: "change list \<Rightarrow> bool" where
  "quiet us \<longleftrightarrow> (\<forall>m. member_effects us m = m) \<and> (\<forall>r. actor_effects us r = r)"

lemma quiet_simps [simp]: "quiet []" "quiet us \<Longrightarrow> quiet vs \<Longrightarrow> quiet (us @ vs)"
  "quiet (AuditAdded e # us) = quiet us" "quiet (TeamsDropped org a # us) = quiet us"
  "quiet (ChannelsDropped org a # us) = quiet us" "quiet (UserDropped a # us) = quiet us"
  by (simp_all add: quiet_def)

lemma safe_check_owners:
  assumes "lasting strict F" "F hs d" "consistent strict d" "\<And>org. org \<in> set orgs \<Longrightarrow> (OrganizationRow org, ForUpdate) \<in> set hs"
    and "\<And>d'. F hs d' \<Longrightarrow> consistent strict d' \<Longrightarrow> owned_beside a orgs hs d' \<Longrightarrow> safe strict rest s hs [] d'"
  shows "safe strict (check_owners_script a orgs rest) s hs [] d"
  using assms
proof (induction orgs arbitrary: F d)
  case Nil
  then show ?case by (simp add: owned_beside_def)
next
  case (Cons org orgs)
  let ?F = "\<lambda>hs d. F hs d \<and> owned_beside a [org] hs d"
  show ?case unfolding check_owners_script.simps
  proof (rule safe_owners)
    fix d' owners
    assume d': "rely strict hs d d'" "consistent strict d'" and owners: "\<And>b. b \<in> set owners \<Longrightarrow> stands d' org b ''owner'' ''active''"
    show "safe strict (case check_owner_change owners (Leave a) of
        Inl _ \<Rightarrow> Fail (LeaveFailed (leave_service_error.LastOwner org))
      | Inr _ \<Rightarrow> check_owners_script a orgs rest) s hs [] d'"
    proof (cases "check_owner_change owners (Leave a)")
      case (Inr u)
      then have "?F hs d'"
        using lastingD [OF Cons.prems(1,2) d'] Cons.prems(4) owners by (auto simp: owned_beside_def check_owner_change_Inr)
      then have "safe strict (check_owners_script a orgs rest) s hs [] d'"
        using Cons.prems d'(2)
        by (intro Cons.IH [where F = ?F] lasting_conj lasting_owned_beside) (auto simp: owned_beside_def)
      then show ?thesis using Inr by simp
    qed simp
  qed
qed

lemma safe_record_all:
  assumes "lasting strict F" "F hs d" "consistent strict d"
    and "\<And>hs' us d'. F hs' d' \<Longrightarrow> consistent strict d' \<Longrightarrow> quiet us \<Longrightarrow> safe strict rest s hs' (ws @ us) d'"
  shows "safe strict (record_all_script org p evs rest) s hs ws d"
  using assms(2-4)
proof (induction evs arbitrary: hs ws d)
  case Nil
  from Nil.prems(3) [OF Nil.prems(1,2) quiet_simps(1)] show ?case by simp
next
  case (Cons ev evs)
  show ?case unfolding record_all_script.simps
  proof (intro safe_record Cons.IH)
    fix d' e hs' us d''
    assume d': "rely strict hs d d'" "consistent strict d'"
    show "F ((OrganizationRow org, ForShare) # (ActorRow p, ForShare) # hs) d'"
      by (rule lastingD [OF assms(1) Cons.prems(1) d']) auto
    assume "F hs' d''" "consistent strict d''" "quiet us"
    then show "safe strict rest s hs' ((ws @ [AuditAdded e]) @ us) d''"
      using Cons.prems(3) [of hs' d'' "[AuditAdded e] @ us"] by simp
  qed
qed

lemma safe_dropping:
  assumes "lasting strict F" "F hs d" "quiet [w]"
    and "\<And>d' x. F hs d' \<Longrightarrow> consistent strict d' \<Longrightarrow> safe strict (k s x) s hs (ws @ [w]) d'"
  shows "safe strict (Write [] (\<lambda>s d. outcome (f s d) [w]) h k) s hs ws d"
  using assms lastingD [OF assms(1,2)] by (auto simp: outcome_def split: sum.split)

lemma safe_leave_organization:
  assumes "lasting strict F" "F hs d"
    and "\<And>hs' us d'. F hs' d' \<Longrightarrow> consistent strict d' \<Longrightarrow> quiet us \<Longrightarrow> safe strict rest s hs' (ws @ us) d'"
  shows "safe strict (leave_organization_script org a rest) s hs ws d"
  unfolding leave_organization_script_def
proof (rule safe_dropping [OF assms(1,2)], simp)
  fix d' x assume d': "F hs d'" "consistent strict d'"
  show "safe strict (record_all_script org a (map (\<lambda>t. team_member_removed a t LeftService)
      (case delete_team_memberships s org a x of Inl _ \<Rightarrow> [] | Inr (removed, _) \<Rightarrow> removed)) rest) s hs
      (ws @ [TeamsDropped org a]) d'"
  proof (rule safe_record_all [OF assms(1) d'])
    fix hs' us d'' assume "F hs' d''" "consistent strict d''" "quiet us"
    then show "safe strict rest s hs' ((ws @ [TeamsDropped org a]) @ us) d''"
      using assms(3) [of hs' d'' "[TeamsDropped org a] @ us"] by simp
  qed
qed

lemma safe_leave_each:
  assumes "lasting strict F" "F hs d" "consistent strict d"
    and "\<And>hs' us d'. F hs' d' \<Longrightarrow> consistent strict d' \<Longrightarrow> quiet us \<Longrightarrow>
       (\<And>x. x \<in> set xs \<Longrightarrow> snd x \<noteq> ''left'' \<Longrightarrow> OrganizationRow (fst x) \<in> fst ` set hs') \<Longrightarrow> safe strict rest s hs' (ws @ us) d'"
  shows "safe strict (leave_each_script a xs rest) s hs ws d"
  using assms
proof (induction xs arbitrary: F hs ws d)
  case Nil
  from Nil.prems(4) [OF Nil.prems(2,3) quiet_simps(1)] show ?case by simp
next
  case (Cons x xs)
  show ?case unfolding leave_each_script.simps
  proof (rule safe_leave_organization [OF Cons.prems(1,2)])
    fix hs1 us d1 assume F1: "F hs1 d1" "consistent strict d1" and us: "quiet us"
    have "safe strict (leave_each_script a xs rest) s hs1 (ws @ us) d1" if left: "snd x = ''left''"
    proof (rule Cons.IH [OF Cons.prems(1) F1])
      fix hs2 vs d2 assume "F hs2 d2" "consistent strict d2" "quiet vs"
        "\<And>y. y \<in> set xs \<Longrightarrow> snd y \<noteq> ''left'' \<Longrightarrow> OrganizationRow (fst y) \<in> fst ` set hs2"
      then show "safe strict rest s hs2 ((ws @ us) @ vs) d2"
        using Cons.prems(4) [of hs2 d2 "us @ vs"] us left by auto
    qed
    moreover have "safe strict (record_script (member_left a) (fst x) a leave_failed (leave_each_script a xs rest)) s hs1 (ws @ us) d1"
    proof (intro safe_record Cons.IH [OF lasting_conj [OF Cons.prems(1) lasting_locks [where r = "OrganizationRow (fst x)"]]])
      fix d2 e assume d2: "rely strict hs1 d1 d2" "consistent strict d2"
      show "F ((OrganizationRow (fst x), ForShare) # (ActorRow a, ForShare) # hs1) d2
         \<and> OrganizationRow (fst x) \<in> fst ` set ((OrganizationRow (fst x), ForShare) # (ActorRow a, ForShare) # hs1)"
        by (intro conjI lastingD [OF Cons.prems(1) F1(1) d2]) auto
      fix hs2 vs d3 assume "F hs2 d3 \<and> OrganizationRow (fst x) \<in> fst ` set hs2" "consistent strict d3" "quiet vs"
        "\<And>y. y \<in> set xs \<Longrightarrow> snd y \<noteq> ''left'' \<Longrightarrow> OrganizationRow (fst y) \<in> fst ` set hs2"
      then show "safe strict rest s hs2 (((ws @ us) @ [AuditAdded e]) @ vs) d3"
        using Cons.prems(4) [of hs2 d3 "us @ AuditAdded e # vs"] us by auto
    qed
    ultimately show "safe strict (case status_parse (snd x) of
          None \<Rightarrow> Fail (leave_failed (Protocol ''invalid stored membership status''))
        | Some status \<Rightarrow> if status \<noteq> Left
            then record_script (member_left a) (fst x) a leave_failed (leave_each_script a xs rest)
            else leave_each_script a xs rest) s hs1 (ws @ us) d1"
      by (auto simp: status.parse_iff split: option.split)
  qed
qed

lemma safe_leave_channels:
  assumes "lasting strict F" "F hs d" "consistent strict d"
    and "\<And>hs' us d'. F hs' d' \<Longrightarrow> consistent strict d' \<Longrightarrow> quiet us \<Longrightarrow> safe strict rest s hs' (ws @ us) d'"
  shows "safe strict (leave_channels_script a orgs rest) s hs ws d"
  using assms(2-4)
proof (induction orgs arbitrary: hs ws d)
  case Nil
  from Nil.prems(3) [OF Nil.prems(1,2) quiet_simps(1)] show ?case by simp
next
  case (Cons org orgs)
  show ?case unfolding leave_channels_script.simps safe.simps(3)
  proof (intro allI impI)
    fix d1 assume d1: "rely strict hs d d1" "consistent strict d1"
    have F1: "F hs d1" by (rule lastingD [OF assms(1) Cons.prems(1) d1]) simp
    show "safe strict (record_all_script org a (map (channel_member_left a) (channel_listings org a s (replay ws d1)))
       (Write [] (\<lambda>s d. outcome (delete_channel_memberships s org a d) [ChannelsDropped org a]) leave_failed
          (\<lambda>_ _. leave_channels_script a orgs rest))) s hs ws d1"
    proof (intro safe_record_all [OF assms(1) F1 d1(2)] safe_dropping [OF assms(1)])
      fix hs2 us d2 assume d2: "F hs2 d2" and us: "quiet us"
      show "F hs2 d2" by (rule d2)
      show "safe strict (leave_channels_script a orgs rest) s hs2 ((ws @ us) @ [ChannelsDropped org a]) d3"
        if d3: "F hs2 d3" "consistent strict d3" for d3
      proof (rule Cons.IH [OF d3])
        fix hs4 vs d4 assume "F hs4 d4" "consistent strict d4" "quiet vs"
        then show "safe strict rest s hs4 (((ws @ us) @ [ChannelsDropped org a]) @ vs) d4"
          using Cons.prems(3) [of hs4 d4 "us @ ChannelsDropped org a # vs"] us by simp
      qed
    qed simp
  qed
qed

lemma safe_memberships_left:
  assumes "is_self s a" "lasting strict F" "F hs d" "consistent strict d"
    and "\<And>hs' d'. F hs' d' \<Longrightarrow> consistent strict d' \<Longrightarrow> safe strict rest s hs' (ws @ map (\<lambda>x. LeftWritten (fst x) a) xs) d'"
  shows "safe strict (memberships_left_script a xs rest) s hs ws d"
  using assms(3-5)
proof (induction xs arbitrary: hs ws d)
  case Nil
  then show ?case by simp
next
  case (Cons x xs)
  have "safe strict (memberships_left_script a xs rest) s ((MemberRow (fst x) a, ForUpdate) # hs) (ws @ [LeftWritten (fst x) a]) d'"
    if d': "rely strict hs d d'" "consistent strict d'" for d'
  proof (rule Cons.IH [OF _ d'(2)])
    show "F ((MemberRow (fst x) a, ForUpdate) # hs) d'" by (rule lastingD [OF assms(2) Cons.prems(1) d']) auto
  qed (use Cons.prems(3) in simp)
  then show ?case using assms(1) by (auto simp: update_script_def outcome_def split: sum.split)
qed

section \<open>The commit of a departure\<close>

lemma left_effects:
  "member_effects (map (\<lambda>x. LeftWritten (fst x) a) xs) m
     = (if om_actor m = a \<and> om_org m \<in> fst ` set xs then left_row m else m)"
  by (induction xs arbitrary: m) (auto simp: is_member_def left_row_def)

lemma left_actor_effects: "actor_effects (map (\<lambda>x. LeftWritten (fst x) a) xs) r = r"
  by (induction xs) simp_all

lemma owned_after_departure:
  assumes "owned d" "organizations d' = organizations d"
    and members: "organization_members d' = map (\<lambda>m. if om_actor m = a then left_row m else m) (organization_members d)"
    and within: "\<And>m. m \<in> set (organization_members d) \<Longrightarrow> om_actor m = a \<Longrightarrow> om_status m = ''active'' \<Longrightarrow> om_org m \<in> set orgs"
    and beside: "owned_beside a orgs hs d"
  shows "owned d'"
  unfolding owned_def assms(2) members
proof
  fix r assume "r \<in> set (organizations d)"
  then obtain m where m: "m \<in> set (organization_members d)" "om_org m = o_id r" "active_owner m"
    using assms(1) by (auto simp: owned_def)
  have "\<exists>m' \<in> set (organization_members d). om_org m' = o_id r \<and> active_owner m' \<and> om_actor m' \<noteq> a"
  proof (cases "om_actor m = a")
    case True
    then have "o_id r \<in> set orgs" using within [OF m(1)] m(2,3) by (simp add: active_owner_def)
    then obtain b where "b \<noteq> a" "stands d (o_id r) b ''owner'' ''active''" using beside by (auto simp: owned_beside_def)
    then show ?thesis by (auto simp: stands_iff is_member_def active_owner_def)
  qed (use m in blast)
  then show "\<exists>m \<in> set (map (\<lambda>m. if om_actor m = a then left_row m else m) (organization_members d)).
      om_org m = o_id r \<and> active_owner m" by force
qed

lemma commit_departure:
  assumes con: "consistent strict d" and F: "active_within strict a orgs hs d" "owned_beside a orgs hs d" "listed a ms hs d"
    and held: "\<And>x. x \<in> set ms \<Longrightarrow> snd x \<noteq> ''left'' \<Longrightarrow> OrganizationRow (fst x) \<in> fst ` set hs"
    and us: "quiet us"
  shows "commit_ok strict hs (us @ map (\<lambda>x. LeftWritten (fst x) a) ms @ [UserDropped a, ActorErased a t]) d"
proof -
  let ?ws = "us @ map (\<lambda>x. LeftWritten (fst x) a) ms @ [UserDropped a, ActorErased a t]"
  define d' where "d' = replay ?ws d"
  let ?leave = "\<lambda>m. if om_actor m = a then left_row m else m"
  have "member_effects ?ws m = ?leave m" if "m \<in> set (organization_members d)" for m
    using us F(3) that by (force simp: quiet_def left_effects listed_def)
  then have members: "organization_members d' = map ?leave (organization_members d)"
    by (simp add: d'_def replay_rows)
  have actors: "actors d' = map (\<lambda>r. if a_id r = a then r\<lparr>a_display_name := None, a_deleted_at := Some t\<rparr> else r) (actors d)"
    unfolding d'_def replay_rows(2) using us by (intro map_cong) (simp_all add: quiet_def left_actor_effects)
  have orgs: "organizations d' = organizations d" by (simp add: d'_def replay_rows)
  have dep: "departed d' x = departed d x" if "x \<noteq> a" for x
    unfolding departed_def actors using that by (auto simp: list_ex_iff)
  have "owned d'" if strict
    by (rule owned_after_departure [OF _ orgs members]) (use con F that in \<open>auto simp: consistent_def active_within_def\<close>)
  moreover have "key_set a_id (actors d') = key_set a_id (actors d)" "map a_id (actors d') = map a_id (actors d)"
    unfolding d'_def replay_rows(2) key_set_def set_map image_image map_map comp_def effects_keys by (rule refl)+
  ultimately have "consistent strict d'" using con dep
    by (auto simp: consistent_def members orgs comp_def left_row_def if_distrib cong: if_cong)
  moreover have "left_frozen d d'" unfolding left_frozen_def members set_map
    by (intro ballI impI bexI [OF _ imageI]) (auto simp: left_row_def)
  moreover have "standing d' org = standing d org" if "OrganizationRow org \<notin> fst ` set hs" for org
  proof -
    have "om_status m = ''left''" if "m \<in> set (organization_members d)" "om_org m = org" "om_actor m = a" for m
      using F(3) held that \<open>OrganizationRow org \<notin> fst ` set hs\<close> by (fastforce simp: listed_def)
    then show ?thesis by (auto simp: standing_def members filter_map comp_def left_row_def cong: filter_cong)
  qed
  moreover have "calmer strict x d d'" for x
    by (rule calmer_map [OF members]) (simp_all add: left_row_def)
  moreover have "departed d' x = departed d x" if "(ActorRow x, ForUpdate) \<notin> set hs" for x
    by (rule dep) (use that F(1) in \<open>auto simp: active_within_def bound_def\<close>)
  ultimately show ?thesis unfolding commit_ok_def d'_def [symmetric] by blast
qed

section \<open>Leaving\<close>

lemma active_within_read:
  assumes "bound a hs d" "is_self s a" "consistent strict d"
  shows "active_within strict a (organizations_active_in a s d) hs d"
proof -
  have "om_org m \<in> set (organizations_active_in a s d)"
    if m: "m \<in> set (organization_members d)" "om_actor m = a" "om_status m = ''active''" for m
  proof -
    have "om_org m \<in> key_set o_id (organizations d)" using assms(3) m(1) by (simp add: consistent_def)
    then obtain r where r: "r \<in> set (organizations d)" "o_id r = om_org m" by (auto simp: key_set_def)
    have "sees_organization s d r" "sees_member s d m"
      using assms(2) m r(2) by (auto simp: sees_organization_def sees_member_def in_active_def active_organizations_def is_self_def)
    then show ?thesis using m r by (force simp: organizations_active_in_def list_ex_iff)
  qed
  with assms(1) show ?thesis by (simp add: active_within_def)
qed

lemma listed_read:
  assumes "bound a hs d" "is_self s a" "consistent strict d"
  shows "listed a (memberships_of a s d) hs d"
  using assms by (force simp: listed_def memberships_of_def sees_member_def)

text \<open>Everything the commit of a departure rests on.\<close>

definition departing :: "bool \<Rightarrow> actor_id \<Rightarrow> organization_id list \<Rightarrow> (organization_id \<times> string) list \<Rightarrow> held \<Rightarrow> db \<Rightarrow> bool" where
  "departing strict a orgs ms hs d \<longleftrightarrow> (active_within strict a orgs hs d \<and> owned_beside a orgs hs d) \<and> listed a ms hs d"

definition recorded :: "(organization_id \<times> string) list \<Rightarrow> held \<Rightarrow> db \<Rightarrow> bool" where
  "recorded ms hs d \<longleftrightarrow> (\<forall>x \<in> set ms. snd x \<noteq> ''left'' \<longrightarrow> OrganizationRow (fst x) \<in> fst ` set hs)"

lemma lasting_departing: "lasting strict (departing strict a orgs ms)"
  unfolding departing_def by (intro lasting_conj lasting_active_within lasting_owned_beside lasting_listed)

lemma lasting_recorded: "lasting strict (recorded ms)"
  unfolding lasting_def recorded_def by blast

definition erase_script :: "actor_id \<Rightarrow> script" where
  "erase_script a = Write [] (\<lambda>s d. outcome (delete_user s a d) [UserDropped a]) leave_failed (\<lambda>_ _.
     Write [(ActorRow a, ForUpdate)] (\<lambda>s d. outcome (erase_actor s a d) [ActorErased a (tx_now s)]) leave_failed (\<lambda>_ _. Commit))"

lemma safe_erase:
  assumes "departing strict a orgs ms hs d" "recorded ms hs d" "quiet us" "is_self s a"
  shows "safe strict (erase_script a) s hs (us @ map (\<lambda>x. LeftWritten (fst x) a) ms) d"
proof -
  let ?F = "\<lambda>hs d. departing strict a orgs ms hs d \<and> recorded ms hs d" and ?hs = "(ActorRow a, ForUpdate) # hs"
  have F: "lasting strict ?F" by (intro lasting_conj lasting_departing lasting_recorded)
  have "commit_ok strict ?hs (us @ map (\<lambda>x. LeftWritten (fst x) a) ms @ [UserDropped a, ActorErased a (tx_now s)]) d3"
    if d: "rely strict hs d d1" "consistent strict d1" "rely strict hs d1 d2" "consistent strict d2" "rely strict ?hs d2 d3" "consistent strict d3" for d1 d2 d3
  proof -
    have "?F hs d" using assms(1,2) by blast
    then have "?F hs d1" by (rule lastingD [OF F _ d(1,2)]) simp
    then have "?F hs d2" by (rule lastingD [OF F _ d(3,4)]) simp
    then have "?F ?hs d3" by (rule lastingD [OF F _ rely_fewer [OF _ d(5)] d(6)]) auto
    then show ?thesis
      by (intro commit_departure [OF d(6) _ _ _ _ assms(3), where orgs = orgs]) (simp_all add: departing_def recorded_def)
  qed
  then show ?thesis unfolding erase_script_def by (auto simp: outcome_def split: sum.split)
qed

lemma safe_departure:
  assumes "active_within strict a orgs hs d" "owned_beside a orgs hs d" "is_self s a"
  shows "safe strict (Read (\<lambda>s1 d1. Read (\<lambda>s2 d2. leave_each_script a (memberships_of a s1 d1)
      (leave_channels_script a (channel_organizations_of a s2 d2)
        (memberships_left_script a (memberships_of a s1 d1) (erase_script a)))))) s hs [] d"
  unfolding safe.simps
proof (intro allI impI)
  fix d1 d2 assume d1: "rely strict hs d d1" "consistent strict d1" and d2: "rely strict hs d1 d2" "consistent strict d2"
  define ms where "ms = memberships_of a s (replay [] d1)"
  let ?F = "\<lambda>hs d. departing strict a orgs ms hs d \<and> recorded ms hs d"
  have F: "lasting strict ?F" by (intro lasting_conj lasting_departing lasting_recorded)
  have within: "active_within strict a orgs hs d1" and beside: "owned_beside a orgs hs d1"
    using lastingD [OF lasting_active_within assms(1) d1] lastingD [OF lasting_owned_beside assms(2) d1] by simp_all
  then have "listed a ms hs d1" using assms(3) d1(2) by (simp add: active_within_def ms_def listed_read)
  then have "departing strict a orgs ms hs d1" using within beside by (simp add: departing_def)
  then have "departing strict a orgs ms hs d2" by (rule lastingD [OF lasting_departing _ d2]) simp
  then show "safe strict (leave_each_script a (memberships_of a s (replay [] d1))
      (leave_channels_script a (channel_organizations_of a s (replay [] d2))
        (memberships_left_script a (memberships_of a s (replay [] d1)) (erase_script a)))) s hs [] d2"
    unfolding ms_def [symmetric]
  proof (rule safe_leave_each [OF lasting_departing _ d2(2)])
    fix hs3 us d3 assume d3: "departing strict a orgs ms hs3 d3" "consistent strict d3" "quiet us"
      and "\<And>x. x \<in> set ms \<Longrightarrow> snd x \<noteq> ''left'' \<Longrightarrow> OrganizationRow (fst x) \<in> fst ` set hs3"
    then have F3: "?F hs3 d3" by (simp add: recorded_def)
    show "safe strict (leave_channels_script a (channel_organizations_of a s (replay [] d2)) (memberships_left_script a ms (erase_script a)))
        s hs3 ([] @ us) d3"
    proof (rule safe_leave_channels [OF F F3 d3(2)], rule safe_memberships_left [OF assms(3) F])
      fix hs4 vs d4 hs5 d5 assume "quiet vs" "?F hs5 d5"
      then show "safe strict (erase_script a) s hs5 ((([] @ us) @ vs) @ map (\<lambda>x. LeftWritten (fst x) a) ms) d5"
        using safe_erase [of strict a orgs ms hs5 d5 "us @ vs" s] assms(3) d3(3) by simp
    qed
  qed
qed

lemma safe_leave:
  assumes self: "is_self s a"
  shows "safe strict (leave_script a) s [] [] d"
proof -
  let ?hs = "[(ActorRow a, ForUpdate)]" and ?orgs = "organizations_active_in a s"
  let ?rest = "Read (\<lambda>s1 d1. Read (\<lambda>s2 d2. leave_each_script a (memberships_of a s1 d1)
    (leave_channels_script a (channel_organizations_of a s2 d2)
      (memberships_left_script a (memberships_of a s1 d1) (erase_script a)))))"
  have "safe strict (lock_all (map OrganizationRow (?orgs d)) ForUpdate (check_owners_script a (?orgs d) ?rest)) s ?hs [] d"
    if own: "own_actor a s d0 = Some r" and d: "rely strict ?hs d0 d" "consistent strict d" for r d0 d
  proof (rule safe_lock_all [OF d(2)])
    have "bound a ?hs d0" using own by (auto simp: own_actor_def bound_def key_set_def dest!: fetch_optional_SomeD)
    then have within: "active_within strict a (?orgs d) ?hs d"
      by (intro active_within_read self d(2) lastingD [OF lasting_bound _ d]) simp_all
    let ?ls = "rev (map (\<lambda>r. (r, ForUpdate)) (map OrganizationRow (?orgs d))) @ ?hs"
    fix d1 assume d1: "rely strict ?hs d d1" "consistent strict d1"
    have "active_within strict a (?orgs d) ?ls d1" by (rule lastingD [OF lasting_active_within within d1]) auto
    then show "safe strict (check_owners_script a (?orgs d) ?rest) s ?ls [] d1"
    proof (rule safe_check_owners [OF lasting_active_within _ d1(2)])
      show "(OrganizationRow org, ForUpdate) \<in> set ?ls" if "org \<in> set (?orgs d)" for org using that by auto
    qed (rule safe_departure [OF _ _ self])
  qed
  then show ?thesis unfolding leave_script_def Let_def erase_script_def [symmetric]
    by (auto split: option.split)
qed

end
