(* ===== verification/Concurrency.thy ===== *)
theory Concurrency
  imports Parting
begin

text \<open>
  What holds when membership operations run at the same time, and a run in which the code as it is leaves an
  organization without an owner.
\<close>

section \<open>Playing a schedule\<close>

text \<open>The steps of a world as a function: which transaction takes the next turn, and the id it draws if it draws one.\<close>

definition advance :: "db \<Rightarrow> held \<Rightarrow> uuid \<Rightarrow> running \<Rightarrow> running option" where
  "advance d hs i t = (case r_script t of
     Read k \<Rightarrow> Some (t\<lparr>r_script := k (r_session t) (replay (r_changes t) d)\<rparr>)
   | Lock row mode p \<Rightarrow>
       if compatible [(row, mode)] hs then Some (t\<lparr>r_held := (row, mode) # r_held t, r_script := p\<rparr>) else None
   | Draw k \<Rightarrow> Some (t\<lparr>r_script := k i\<rparr>)
   | Write ls f h k \<Rightarrow>
       if compatible ls hs
       then (case f (r_session t) (replay (r_changes t) d) of
               Inl _ \<Rightarrow> None
             | Inr ws \<Rightarrow> Some (t\<lparr>r_held := ls @ r_held t, r_changes := r_changes t @ ws,
                 r_script := k (r_session t) (replay (r_changes t) d)\<rparr>))
       else None
   | _ \<Rightarrow> None)"

lemma advance_advances: "advance d hs i t = Some t' \<Longrightarrow> advances d hs t t'"
  by (auto simp: advance_def split: script.splits if_splits sum.splits intro: advances.intros)

datatype turn = Begins request instant | Goes nat uuid | Commits nat

definition take_turn :: "bool \<Rightarrow> world \<Rightarrow> turn \<Rightarrow> world option" where
  "take_turn strict w x = (case x of
     Begins r t \<Rightarrow> map_option (\<lambda>(p, P).
       w\<lparr>w_running := w_running w @ [Some (begun (session_for (Actor p) (conn_at t (w_db w))) P)]\<rparr>) (script_of strict r)
   | Goes i u \<Rightarrow>
       if i < length (w_running w)
       then Option.bind (w_running w ! i) (\<lambda>t.
         map_option (\<lambda>t'. w\<lparr>w_running := (w_running w)[i := Some t']\<rparr>) (advance (w_db w) (others w i) u t))
       else None
   | Commits i \<Rightarrow>
       if i < length (w_running w)
       then Option.bind (w_running w ! i) (\<lambda>t. case r_script t of
         Commit \<Rightarrow> Some \<lparr>w_db = replay (r_changes t) (w_db w), w_running = (w_running w)[i := None]\<rparr>
       | _ \<Rightarrow> None)
       else None)"

lemma turn_steps:
  assumes "take_turn strict w x = Some w'"
  shows "world_step strict api w w'"
proof (cases x)
  case (Commits i)
  with assms obtain t where "i < length (w_running w)" "w_running w ! i = Some t" "r_script t = Commit"
    "w' = \<lparr>w_db = replay (r_changes t) (w_db w), w_running = (w_running w)[i := None]\<rparr>"
    by (cases "w_running w ! i") (auto simp: take_turn_def split: if_splits script.splits)
  then show ?thesis by (auto intro: world_step.commits)
qed (use assms in \<open>auto simp: take_turn_def bind_eq_Some_conv split: if_splits
      intro!: world_step.starts world_step.advances advance_advances\<close>)

fun play :: "bool \<Rightarrow> turn list \<Rightarrow> world \<Rightarrow> world option" where
  "play strict [] w = Some w"
| "play strict (x # xs) w = Option.bind (take_turn strict w x) (play strict xs)"

lemma play_interleaved: "interleaved strict api w \<Longrightarrow> play strict xs w = Some w' \<Longrightarrow> interleaved strict api w'"
  by (induction xs arbitrary: w) (auto simp: bind_eq_Some_conv dest!: turn_steps intro: interleaved.steps)

text \<open>
  For evaluation the continuations get names: a named one stays as it is until it is applied to a session and a
  database.
\<close>

definition actor_again where
  "actor_again a seen k s d = k (if a \<in> set seen then latest_departed a d else None)"

definition actor_seen where
  "actor_seen a p k s d = (let seen = map a_id (actor_pair a p s d)
     in lock_all (map ActorRow seen) ForShare (Read (actor_again a seen k)))"

definition organization_seen where
  "organization_seen org k s d =
     (if visible_organization org s d = None then k False else Lock (OrganizationRow org) ForUpdate (k True))"

definition member_seen where
  "member_seen org a h k s d = (case member_row org a s d of
       None \<Rightarrow> k None
     | Some row \<Rightarrow>
         (case role_parse (om_role row) of
            None \<Rightarrow> Fail (h (Protocol ''invalid stored organization role''))
          | Some role \<Rightarrow>
              (case status_parse (om_status row) of
                 None \<Rightarrow> Fail (h (Protocol ''invalid stored membership status''))
               | Some status \<Rightarrow> k (Some (role, status)))))"

definition owners_seen where
  "owners_seen org k s d = k (map om_actor (owner_rows org s d))"

definition then_on where
  "then_on P s d = P"

definition recording where
  "recording i ev org p s d = outcome (insert_audit s (audit_row_of i ev org p) d) [AuditAdded (audit_row_of i ev org p)]"

definition record_drawn where
  "record_drawn ev org p h rest i =
     Write [(OrganizationRow org, ForShare), (ActorRow p, ForShare)] (recording i ev org p) h (then_on rest)"

definition updating where
  "updating org a statement w s d = outcome (statement s d) (if in_active s d org \<or> is_self s a then [w] else [])"

definition dropping where
  "dropping f org a w s d = outcome (f s org a d) [w]"

definition dropped_teams where
  "dropped_teams org a rest s d = record_all_script org a (map (\<lambda>t. team_member_removed a t LeftService)
     (case delete_team_memberships s org a d of Inl _ \<Rightarrow> [] | Inr (removed, _) \<Rightarrow> removed)) rest"

lemma scripts_code [code]:
  "lock_actor_script a p k = Read (actor_seen a p k)"
  "lock_organization_script org k2 = Read (organization_seen org k2)"
  "member_script org a h k3 = Read (member_seen org a h k3)"
  "owners_script org k4 = Read (owners_seen org k4)"
  "record_script ev org p h rest = Draw (record_drawn ev org p h rest)"
  "update_script org a statement w h rest = Write [(MemberRow org a, ForUpdate)] (updating org a statement w) h (then_on rest)"
  "leave_organization_script org a rest = Write [] (dropping delete_team_memberships org a (TeamsDropped org a)) leave_failed
     (dropped_teams org a rest)"
  unfolding actor_again_def [abs_def] actor_seen_def [abs_def] organization_seen_def [abs_def] member_seen_def [abs_def]
    owners_seen_def [abs_def] then_on_def [abs_def] recording_def [abs_def] record_drawn_def [abs_def] updating_def [abs_def]
    dropping_def [abs_def] dropped_teams_def [abs_def] lock_actor_script_def lock_organization_script_def member_script_def
    owners_script_def record_script_def update_script_def leave_organization_script_def
  by (rule refl)+

section \<open>The scripts keep the guarantee\<close>

interpretation isolated: disciplined strict for strict
proof
  fix r p P d fix c :: conn
  assume "script_of strict r = Some (p, P)"
  then show "safe strict P (session_for (Actor p) c) [] [] d"
    by (cases r) (auto simp: script_of_def is_self_def safe_change_role safe_suspend safe_reactivate safe_leave)
qed

section \<open>A script on its own reaches its commit\<close>

lemma alone_lock_all [simp]: "alone (lock_all rows mode P) s us n ws d = alone P s us n ws d"
  by (induction rows) simp_all

lemma alone_prefix:
  "alone (lock_actor_script a p k) s us n ws d = alone (k (departed_state s (replay ws d) a)) s us n ws d"
  "alone (lock_organization_script org k2) s us n ws d
     = alone (k2 (visible_organization org s (replay ws d) \<noteq> None)) s us n ws d"
  by (simp_all add: lock_actor_alone lock_organization_script_def)

text \<open>With nothing beside it a reactivation that sees the membership has seen the actor: \<open>strict\<close> makes no difference.\<close>

lemma strict_alone:
  assumes "consistent False d"
  shows "alone (reactivate_script True p org a) s us n [] d = alone (reactivate_script False p org a) s us n [] d"
proof -
  have seen: "\<exists>x. departed_state s d a = Some x" if "member_row org a s d = Some row" for row
  proof -
    have row: "row \<in> set (organization_members d)" "sees_member s d row" "om_actor row = a"
      using fetch_optional_SomeD [OF that [unfolded member_row_def]] by auto
    then obtain r where r: "r \<in> set (actors d)" "a_id r = a" using assms by (auto simp: consistent_def key_set_def)
    then have "sees_actor s d r" using row by (auto simp: sees_actor_def image_iff)
    then have "filter (\<lambda>r. sees_actor s d r \<and> a_id r = a) (actors d) \<noteq> []" using r by (auto simp: filter_empty_conv)
    then show ?thesis by (auto simp: departed_state_def fetch_optional_def split: list.split)
  qed
  show ?thesis
  proof (cases "member_row org a s d")
    case (Some row)
    with seen obtain x where "departed_state s d a = Some x" by blast
    with Some show ?thesis by (simp add: reactivate_script_def alone_prefix member_script_def split: option.split)
  qed (simp add: reactivate_script_def alone_prefix member_script_def)
qed

lemma alone_advances:
  assumes "alone P s us n ws d = Inr d'"
  shows "\<exists>t'. rtranclp (advances d []) \<lparr>r_session = s, r_held = hs, r_changes = ws, r_script = P\<rparr> t'
    \<and> r_script t' = Commit \<and> replay (r_changes t') d = d'"
  using assms
proof (induction P arbitrary: n ws hs)
  case Commit
  then show ?case by fastforce
next
  case (Read k)
  let ?t = "\<lparr>r_session = s, r_held = hs, r_changes = ws, r_script = Read k\<rparr>"
  have "advances d [] ?t (?t\<lparr>r_script := k s (replay ws d)\<rparr>)" using advances.reads [of ?t k d "[]"] by simp
  moreover from Read.prems have "alone (k s (replay ws d)) s us n ws d = Inr d'" by simp
  note Read.IH [OF rangeI rangeI this, of hs]
  ultimately show ?case by (auto intro: converse_rtranclp_into_rtranclp)
next
  case (Lock row mode P)
  let ?t = "\<lparr>r_session = s, r_held = hs, r_changes = ws, r_script = Lock row mode P\<rparr>"
  have "advances d [] ?t (?t\<lparr>r_held := (row, mode) # hs, r_script := P\<rparr>)"
    using advances.locks [of ?t row mode P "[]" d] by simp
  moreover from Lock.prems have "alone P s us n ws d = Inr d'" by simp
  note Lock.IH [OF this, of "(row, mode) # hs"]
  ultimately show ?case by (auto intro: converse_rtranclp_into_rtranclp)
next
  case (Draw k)
  let ?t = "\<lparr>r_session = s, r_held = hs, r_changes = ws, r_script = Draw k\<rparr>"
  have "advances d [] ?t (?t\<lparr>r_script := k (us n)\<rparr>)" using advances.draws [of ?t k d "[]" "us n"] by simp
  moreover from Draw.prems have "alone (k (us n)) s us (Suc n) ws d = Inr d'" by simp
  note Draw.IH [OF rangeI this, of hs]
  ultimately show ?case by (auto intro: converse_rtranclp_into_rtranclp)
next
  case (Write ls f h k)
  let ?t = "\<lparr>r_session = s, r_held = hs, r_changes = ws, r_script = Write ls f h k\<rparr>"
  from Write.prems obtain w where w: "f s (replay ws d) = Inr w" "alone (k s (replay ws d)) s us n (ws @ w) d = Inr d'"
    by (auto split: sum.splits)
  have "advances d [] ?t (?t\<lparr>r_held := ls @ hs, r_changes := ws @ w, r_script := k s (replay ws d)\<rparr>)"
    using advances.writes [of ?t ls f h k "[]" d w] w(1) by simp
  moreover note Write.IH [OF rangeI rangeI w(2), of "ls @ hs"]
  ultimately show ?case by (auto intro: converse_rtranclp_into_rtranclp)
qed simp

lemma single_advances:
  assumes "rtranclp (advances d []) t t'"
  shows "rtranclp (world_step strict api) \<lparr>w_db = d, w_running = [Some t]\<rparr> \<lparr>w_db = d, w_running = [Some t']\<rparr>"
  using assms
proof (induction rule: rtranclp_induct)
  case (step t1 t2)
  let ?w = "\<lparr>w_db = d, w_running = [Some t1]\<rparr>"
  have "world_step strict api ?w (?w\<lparr>w_running := (w_running ?w)[0 := Some t2]\<rparr>)"
    using step(2) by (intro world_step.advances [of 0 ?w t1]) (simp_all add: others_def)
  then show ?case by (auto intro: rtranclp.rtrancl_into_rtrancl [OF step(3)])
qed simp

lemma operation_alone:
  assumes "wire c = Healthy" "script_of False r = Some (p, P)" "request_ok api r c"
  shows "alone P (session_for (Actor p) c) (uuids c) (drawn c) [] (committed c) = Inr (committed (run_request api r c))"
  using assms(2,3) membership_scripts [OF assms(1)] leave_script_alone [OF assms(1)]
  by (cases r) (auto simp: script_of_def split: prod.splits sum.splits)

lemma operation_runs:
  assumes "wire c = Healthy" "script_of strict r = Some (p, P)"
    and "alone P (session_for (Actor p) c) (uuids c) (drawn c) [] (committed c) = Inr d'"
  shows "rtranclp (world_step strict api) \<lparr>w_db = committed c, w_running = []\<rparr> \<lparr>w_db = d', w_running = [None]\<rparr>"
proof -
  let ?d = "committed c" and ?t = "begun (session_for (Actor p) c) P"
  obtain t' where t': "rtranclp (advances ?d []) ?t t'" "r_script t' = Commit" "replay (r_changes t') ?d = d'"
    using alone_advances [OF assms(3), of "[]"] unfolding begun_def by blast
  let ?w = "\<lparr>w_db = ?d, w_running = []\<rparr>" and ?w' = "\<lparr>w_db = ?d, w_running = [Some t']\<rparr>"
  have "world_step strict api ?w \<lparr>w_db = ?d, w_running = [Some ?t]\<rparr>"
    using world_step.starts [OF assms(2), of api ?w c] by simp
  moreover note single_advances [OF t'(1), of strict api]
  moreover have "world_step strict api ?w' \<lparr>w_db = d', w_running = [None]\<rparr>"
    using world_step.commits [of 0 ?w' t' strict api] t'(2,3) by simp
  ultimately show ?thesis by (metis converse_rtranclp_into_rtranclp rtranclp.rtrancl_into_rtrancl)
qed

text \<open>
  The scripts and the operations agree: what an operation does that succeeds on its own, some run of its script does
  too, with nothing beside it.
\<close>

lemma operation_is_interleaved:
  assumes "wire c = Healthy" "script_of False r = Some (p, P)" "request_ok api r c"
  shows "rtranclp (world_step False api) \<lparr>w_db = committed c, w_running = []\<rparr>
    \<lparr>w_db = committed (run_request api r c), w_running = [None]\<rparr>"
  by (rule operation_runs [OF assms(1,2) operation_alone [OF assms]])

section \<open>A race\<close>

text \<open>Ann owns the organization Bob and Carl join; Carl becomes an owner, and both are suspended.\<close>

definition two_suspended_requests :: "request list" where
  "two_suspended_requests =
    [Register (lit ''ann@x'') ''h1'' (lit ''Ann''), CreateOrganization 1000 (lit ''Org'') (lit ''org''),
     CreateInvite 1000 2000 (Some (''tok'', TokenHash ''ab'')) 100 2,
     AcceptInvite (TokenHash ''ab'') (lit ''bob@x'') ''h2'' (lit ''Bob''),
     AcceptInvite (TokenHash ''ab'') (lit ''carl@x'') ''h3'' (lit ''Carl''),
     ChangeMemberRole 1000 2000 5000 Owner, SuspendMember 1000 2000 5000, SuspendMember 1000 2000 4000]"

definition two_suspended :: db where
  "two_suspended = \<lparr>actors =
     [\<lparr>a_id = 1000, a_type = ''human'', a_display_name = Some [65, 110, 110], a_deleted_at = None\<rparr>,
      \<lparr>a_id = 4000, a_type = ''human'', a_display_name = Some [66, 111, 98], a_deleted_at = None\<rparr>,
      \<lparr>a_id = 5000, a_type = ''human'', a_display_name = Some [67, 97, 114, 108], a_deleted_at = None\<rparr>],
    users =
     [\<lparr>u_actor_id = 1000, u_actor_type = ''human'', u_email = [97, 110, 110, 64, 120], u_password_hash = ''h1''\<rparr>,
      \<lparr>u_actor_id = 4000, u_actor_type = ''human'', u_email = [98, 111, 98, 64, 120], u_password_hash = ''h2''\<rparr>,
      \<lparr>u_actor_id = 5000, u_actor_type = ''human'', u_email = [99, 97, 114, 108, 64, 120], u_password_hash = ''h3''\<rparr>],
    organizations = [\<lparr>o_id = 2000, o_name = [79, 114, 103], o_slug = [111, 114, 103]\<rparr>],
    organization_members =
     [\<lparr>om_org = 2000, om_actor = 1000, om_role = ''owner'', om_status = ''active'', om_display_name = None\<rparr>,
      \<lparr>om_org = 2000, om_actor = 4000, om_role = ''member'', om_status = ''suspended'', om_display_name = None\<rparr>,
      \<lparr>om_org = 2000, om_actor = 5000, om_role = ''owner'', om_status = ''suspended'', om_display_name = None\<rparr>],
    teams = [], team_members = [],
    invites =
     [\<lparr>i_id = 3000, i_org = 2000, i_kind = ''organization'', i_target_team = None, i_token_hash = ''ab'',
        i_expires_at = 100, i_max_uses = 2, i_used_count = 2, i_revoked_at = None, i_created_by = 1000, i_xmin = 1\<rparr>],
    sessions = [], channels = [], channel_members = [], messages = [],
    audit_events =
     [audit_row_of 2001 (organization_created 2000) 2000 1000, audit_row_of 2002 (member_added 1000 Owner) 2000 1000,
      audit_row_of 3001 (invite_created 2000 3000 2) 2000 1000,
      audit_row_of 4001 (member_invited 4000 3000) 2000 4000, audit_row_of 5001 (member_invited 5000 3000) 2000 5000,
      audit_row_of 6000 (member_role_changed 5000 Member Owner) 2000 1000,
      audit_row_of 7000 (member_suspended 5000) 2000 1000, audit_row_of 8000 (member_suspended 4000) 2000 1000]\<rparr>"

lemma two_suspended_reachable: "reachable any_v7 two_suspended"
proof -
  have "run_all 1 two_suspended_requests empty_db = two_suspended" by code_simp
  then show ?thesis using run_all_reachable [OF reachable.start] by metis
qed

definition race :: "turn list" where
  "race = [Begins (ReactivateMember 4000 2000 5000) 20] @ replicate 3 (Goes 0 0)
     @ [Begins (ReactivateMember 1000 2000 4000) 21] @ replicate 10 (Goes 1 90001) @ [Commits 1]
     @ [Begins (LeaveService 5000) 22] @ replicate 4 (Goes 2 0)
     @ replicate 6 (Goes 0 90002) @ [Commits 0]
     @ [Begins (ChangeMemberRole 1000 2000 1000 Member) 23] @ replicate 10 (Goes 3 90003) @ [Commits 3]
     @ replicate 8 (Goes 2 90004) @ [Commits 2]"

definition owners_of :: "db \<Rightarrow> organization_id \<Rightarrow> actor_id list" where
  "owners_of d org = map om_actor (filter (\<lambda>m. om_org m = org \<and> active_owner m) (organization_members d))"

text \<open>Carl is reactivated while Ann gives up her ownership: the second waits for the first and sees two owners.\<close>

definition meeting :: "turn list" where
  "meeting = [Begins (ReactivateMember 1000 2000 5000) 20, Begins (ChangeMemberRole 1000 2000 1000 Member) 21]
     @ replicate 9 (Goes 0 90001) @ replicate 4 (Goes 1 90002) @ [Goes 0 90001, Commits 0]
     @ replicate 6 (Goes 1 90002) @ [Commits 1]"

lemma meeting_played:
  "map_option (\<lambda>w. (map o_id (organizations (w_db w)), owners_of (w_db w) 2000))
     (play True meeting \<lparr>w_db = two_suspended, w_running = []\<rparr>) = Some ([2000], [5000])"
  by code_simp

lemma race_played:
  "map_option (\<lambda>w. (map o_id (organizations (w_db w)), owners_of (w_db w) 2000))
     (play False race \<lparr>w_db = two_suspended, w_running = []\<rparr>) = Some ([2000], [])"
  by code_simp

text \<open>C30: The condition on reactivations is needed for the code as it is: a reactivation whose
  \<open>lock_actor\<close> ran while its performer was suspended goes on after the performer is back, with its target
  unlocked; the target leaves meanwhile, the owner who counted on the reactivated one gives up ownership, and the
  organization ends without an active owner.\<close>

theorem unlocked_reactivation_leaves_no_owner:
  "\<exists>w. interleaved False any_v7 w \<and> map o_id (organizations (w_db w)) = [2000] \<and> owners_of (w_db w) 2000 = []"
proof -
  from race_played obtain w where w: "play False race \<lparr>w_db = two_suspended, w_running = []\<rparr> = Some w"
    and "map o_id (organizations (w_db w)) = [2000]" "owners_of (w_db w) 2000 = []" by auto
  with play_interleaved [OF interleaved.rest [OF two_suspended_reachable] w]
  show ?thesis by (intro exI [of _ w] conjI)
qed

section \<open>What holds between the statements\<close>

text \<open>C3: Whatever statements of whatever membership operations come between, a membership that has left, or whose
  actor has left the service, is left after the next step too, in the same role: no interleaving brings it back.\<close>

theorem left_for_good_between_statements:
  assumes "interleaved strict api w" "world_step strict api w w'" "m \<in> set (organization_members (w_db w))"
    and "om_status m = ''left'' \<or> departed (w_db w) (om_actor m)"
  shows "\<exists>m' \<in> set (organization_members (w_db w')). om_org m' = om_org m \<and> om_actor m' = om_actor m
    \<and> om_role m' = om_role m \<and> om_status m' = ''left''"
proof -
  note w = isolated.interleaved_guarded [OF assms(1)]
  have "om_status m = ''left''" using guarded_consistent [OF w] assms(3,4) by (auto simp: consistent_def)
  with isolated.guarded_step [OF assms(2) w] assms(3) show ?thesis by (simp add: left_frozen_def)
qed

text \<open>C2: Two owners that change memberships at the same time cannot leave an organization without an owner, in
  whatever order their statements come: in every world reached by interleaved membership operations and other
  requests every organization has an active owner, as long as no reactivation goes on after \<open>lock_actor\<close> did not
  see its target.\<close>

theorem owners_survive_interleaving:
  assumes "interleaved True api w" "r \<in> set (organizations (w_db w))"
  shows "\<exists>m \<in> set (organization_members (w_db w)). om_org m = o_id r \<and> om_role m = ''owner'' \<and> om_status m = ''active''"
  using guarded_consistent [OF isolated.interleaved_guarded [OF assms(1)]] assms(2)
  by (simp add: consistent_def owned_def active_owner_def)

theorem owners_survive_interleaving_witness:
  "\<exists>w r. play True meeting \<lparr>w_db = two_suspended, w_running = []\<rparr> = Some w \<and> r \<in> set (organizations (w_db w)) \<and> o_id r = 2000
     \<and> (\<exists>m \<in> set (organization_members (w_db w)). om_org m = 2000 \<and> om_role m = ''owner'' \<and> om_status m = ''active'')"
proof -
  from meeting_played obtain w where w: "play True meeting \<lparr>w_db = two_suspended, w_running = []\<rparr> = Some w"
    and "map o_id (organizations (w_db w)) = [2000]" by auto
  then obtain r where r: "r \<in> set (organizations (w_db w))" "o_id r = 2000" by auto
  have "interleaved True any_v7 w" by (rule play_interleaved [OF interleaved.rest [OF two_suspended_reachable] w])
  from owners_survive_interleaving [OF this r(1)] w r show ?thesis by auto
qed

theorem left_for_good_between_statements_witness:
  "\<exists>m \<in> set (organization_members demo_left). om_org m = 2000 \<and> om_actor m = 4000 \<and> om_role m = ''member'' \<and> om_status m = ''left''"
proof -
  let ?w = "\<lparr>w_db = demo_left, w_running = []\<rparr>"
  have w: "interleaved False any_v7 ?w" by (rule interleaved.rest [OF demo_left_reachable])
  have "script_of False (LeaveService 4000) = Some (4000, leave_script 4000)" by (simp add: script_of_def)
  note step = world_step.starts [OF this, of any_v7 ?w "conn_at 14 demo_left"]
  have "organization_members demo_left ! 1
      = \<lparr>om_org = 2000, om_actor = 4000, om_role = ''member'', om_status = ''left'', om_display_name = None\<rparr>"
    and "1 < length (organization_members demo_left)" by code_simp+
  then have "\<lparr>om_org = 2000, om_actor = 4000, om_role = ''member'', om_status = ''left'', om_display_name = None\<rparr>
      \<in> set (organization_members (w_db ?w))" using nth_mem [of 1 "organization_members demo_left"] by simp
  from left_for_good_between_statements [OF w step this] show ?thesis by simp
qed

end
