(* ===== verification/Spec2Isabelle.thy ===== *)
theory Spec2Isabelle
  imports Erasure Sequences Posting Credentials Config Accountability Finality Creation Concurrency
begin

text \<open>
  Fukulow, a multi-organization team chat server: a model of the Rust workspace under \<open>src/crates\<close> together
  with the PostgreSQL schema under \<open>src/migrations\<close> it runs on.

  \<^bold>\<open>The program.\<close> \<open>domain\<close> holds the rules that need no I/O, \<open>auth\<close> the tokens and passwords, \<open>db\<close> one
  function per operation, each a transaction that states who acts (\<open>Context\<close>), locks, decides, writes, records
  the write in \<open>audit_events\<close> and commits. The database enforces the rest: keys and checks, two triggers and
  row level security, which hides from an actor every row outside its active organizations. \<open>app\<close> is the HTTP
  server: a registry of routes behind a guard that compares the Origin header, handlers that read JSON and
  cookies, call one or two operations and translate their errors to status codes.

  \<^bold>\<open>Theories and sources.\<close>
  \<^item> \<open>Prelude\<close>: types, hint collections, list lemmas. \<open>Domain\<close>: \<open>crates/domain/src/lib.rs\<close>.
    \<open>Tokens\<close>: \<open>crates/auth/src/lib.rs\<close> and \<open>TokenHash\<close> of \<open>crates/db/src/context.rs\<close>.
  \<^item> \<open>Errors\<close>: \<open>crates/db/src/operations/errors.rs\<close>; \<open>Schema\<close> (tables, \<open>schema_ok\<close>), \<open>RowSecurity\<close> (policies
    and triggers): \<open>migrations/\<close>; \<open>Statements\<close>: every SQL statement of \<open>crates/db/src/operations\<close> as a function
    on the database, and \<open>dml\<close>, their union as a step relation; \<open>StatementLaws\<close>: each step keeps \<open>schema_ok\<close>
    and \<open>history\<close>.
  \<^item> \<open>Transaction\<close>: the connection, \<open>?\<close>, loops, savepoints, commit, and \<open>begin\<close>/\<open>set_context\<close> of
    \<open>context.rs\<close>; \<open>TransactionLaws\<close>: the locales \<open>step_relation\<close> and \<open>operation\<close>, evaluation and inversion.
  \<^item> \<open>AuditLog\<close>: \<open>audit.rs\<close>; \<open>Locks\<close>: \<open>operations/mod.rs\<close>, \<open>authorization.rs\<close>; \<open>Identity\<close>, \<open>Membership\<close>,
    \<open>Teams\<close>, \<open>Channels\<close>, \<open>Messages\<close>, \<open>Invites\<close>, \<open>Sessions\<close>, \<open>Leaving\<close>: the files of the same names under
    \<open>operations/\<close>. \<open>Departure\<close>: what a whole departure does.
  \<^item> \<open>System\<close>: all operations as requests, \<open>reachable\<close> databases. \<open>Invariants\<close>, \<open>Erasure\<close>, \<open>Sequences\<close>,
    \<open>Tenancy\<close>: the properties that span operations. \<open>Scenario\<close>: a run of twelve requests, evaluated, on
    which the witnesses are taken.
  \<^item> \<open>Lifecycle\<close>, \<open>Joining\<close>, \<open>SessionLife\<close>, \<open>Posting\<close>: memberships, invites, sessions and messages from the
    first operation to the last. \<open>Administration\<close>: what every administrative request is answered;
    \<open>Creation\<close>: the same for founding and channels; \<open>Finality\<close>: revocations, departures and sign-outs against every
    later request; \<open>Accountability\<close>: the audit log against what it records.
  \<^item> \<open>Paths\<close>, \<open>Json\<close>, \<open>InviteRoutes\<close>: \<open>crates/app/src/invites.rs\<close>; \<open>Http\<close>: \<open>http.rs\<close>, \<open>route_registry.rs\<close>;
    \<open>SessionRoutes\<close>: \<open>sessions.rs\<close>; \<open>Server\<close>: the handlers behind the guard; \<open>Endpoints\<close>: the properties of
    the server; \<open>Credentials\<close>: what its cookies and links carry; \<open>Config\<close>: \<open>config.rs\<close> and the properties of the public origin.

  \<^bold>\<open>How code becomes definitions.\<close> A table is a list of rows, a database the record of its tables. An operation
  is \<open>conn \<Rightarrow> ('e + 'a) \<times> conn\<close>; \<open>attempt f m k\<close> is \<open>let x = m.await.map_err(f)?; k\<close>, so every early return of
  the code is a branch. Dropping a transaction without commit leaves \<open>committed\<close> alone, which is all that other
  transactions see. A statement is a function of the settings (\<open>session\<close>) and the transaction's \<open>view\<close>; it
  evaluates, in PostgreSQL's order, row security on the database before the statement, then checks, then unique
  keys, then foreign keys, and reports the first failure. The value lists of the checks are those of the
  migrations; that they are the canonical names of \<open>domain\<close> is a lemma (\<open>checks_are_names\<close>), and that values which are
  such names pass them is used where a statement writes one. A text with U+0000 is refused when it is bound. The
  bigint counter of a channel refuses to pass \<open>2^63 - 1\<close>. A setting that was never made and one set to the empty
  string are both \<open>None\<close> (the policies apply \<open>nullif\<close>). The system column \<open>xmin\<close>, which the invite policy reads,
  is a column of the invite row.

  \<^bold>\<open>Parameters.\<close> Code outside the repository is an argument of the definitions that use it: the clock and the
  supply of ids (fields of \<open>conn\<close>, arbitrary), connection loss (\<open>wire\<close>, arbitrary, including a COMMIT whose
  acknowledgement is lost), the version and variant tests of the \<open>uuid\<close> crate (\<open>uuid_api\<close>), SHA-256, argon2 and
  the PHC parser, the random source (\<open>auth\<close>), the caller's password check and token closure (\<open>sign_in\<close>,
  \<open>create_invite\<close>), and for \<open>app\<close> the record \<open>library\<close>: \<open>serde_json::from_slice\<close>, the cookie jar, password
  verification on a worker that may crash, the two text forms of a UUID, RFC 3339; further axum's matching of a
  path to a registered route (\<open>find_route\<close>) and the \<open>Uri\<close> and socket address parsers of the configuration
  (\<open>reads_uris\<close>: a text that is taken is reported by its scheme, authority and host as they stand in it).

  \<^bold>\<open>What the lemmas show.\<close> Every operation is an interpretation of the locale \<open>operation\<close>: whatever the
  connection does, it commits nothing or exactly what its healthy run commits. Its \<open>_run\<close> lemma says what a
  successful run did. From these follow invariants of every reachable database (an active owner in each
  organization, erased departures, gapless numbering, names that parse), append-only history, isolation of
  organizations and the effects of single operations. The \<open>_outcome\<close> theorems state every answer of an
  operation; \<open>leads_to\<close> (\<open>Finality\<close>) carries what is final (departures, revoked invites, sessions signed out)
  through any later requests; the theorems of
  \<open>Endpoints\<close> and \<open>Credentials\<close> compose the guard, the handlers and the operations.

  \<^bold>\<open>Concurrency.\<close> \<open>Scripts\<close> gives role changes, suspension, reactivation and leaving (\<open>membership.rs\<close>,
  \<open>leaving.rs\<close>) as trees of single statements with the row locks they wait for, and proves that a script run
  alone is the operation (in the interleaving semantics: \<open>operation_is_interleaved\<close>). \<open>Interleaving\<close> lets any number of them advance statement by statement beside each other
  and beside every other request: a statement reads what is committed and its transaction's own writes. What
  a held lock lets the others do is \<open>rely\<close>, what a commit owes them is \<open>commit_ok\<close>, and \<open>safe\<close> says that a script
  keeps to it. \<open>Isolation\<close> proves the other requests and, in the locale \<open>disciplined\<close>, whole worlds of safe scripts;
  \<open>Discipline\<close> and \<open>Parting\<close> prove the scripts safe; \<open>Concurrency\<close> interprets the locale and holds the properties.
  The flag \<open>strict\<close> ends a reactivation whose \<open>lock_actor\<close> did not see its target; the code goes on
  (\<open>strict = False\<close>), which makes no difference for a reactivation alone (\<open>strict_alone\<close>) but lets a race leave an
  organization without an owner (\<open>race\<close> in \<open>Concurrency\<close>). What does not mention owners holds for both.

  \<^bold>\<open>Bounds.\<close> Nothing uses fuel: the loops of the code run over lists read from the database. Identifiers are
  128-bit words, page limits 16-bit words, message numbers integers bounded by the check in \<open>bump_channel\<close>.

  \<^bold>\<open>Not modelled.\<close> Outside \<open>Interleaving\<close> transactions run one after another; there the other requests take
  effect in one step each, deadlocks that PostgreSQL resolves by ending a transaction are an ending at any
  point, and waiting is not bounded. Error texts (\<open>Display\<close>), \<open>created_at\<close> columns other than the messages', indexes without a
  uniqueness rule, pool construction (\<open>connection.rs\<close>), process start, signals and logging (\<open>main.rs\<close>,
  \<open>shutdown.rs\<close>, \<open>telemetry.rs\<close>) are left out; \<open>protocol\<close> and \<open>realtime\<close> are empty crates. A response carries its cookies and its JSON as data: rendering them
  is the crates'. Instants are unbounded integers of microseconds, so the year 9999 is not a limit.
\<close>

section \<open>Invariants of every reachable database\<close>

text \<open>C1: In every database the operations can reach, however connections are lost, every organization
  has an active owner: no sequence of role changes, suspensions and departures leaves one without.\<close>

theorem organizations_keep_an_owner:
  assumes "reachable api d" and "r \<in> set (organizations d)"
  shows "\<exists>m \<in> set (organization_members d). om_org m = o_id r \<and> om_role m = ''owner''
    \<and> om_status m = ''active''"
proof -
  have "owned empty_db" by (simp add: owned_def empty_db_def)
  from reachable_invariant [OF assms(1) this owned_kept] assms(2) show ?thesis
    by (simp add: owned_def active_owner_def)
qed

theorem organizations_keep_an_owner_witness:
  "\<exists>m \<in> set (organization_members demo). om_org m = 2000 \<and> om_role m = ''owner'' \<and> om_status m = ''active''"
  using organizations_keep_an_owner [OF demo_reachable, of "\<lparr>o_id = 2000, o_name = [79, 114, 103], o_slug = [111, 114, 103]\<rparr>"]
  by (simp add: demo_def)

text \<open>C4: In every reachable database a departed actor is erased: no name, no user row (and so no
  credential), no session, no team or channel membership, and every organization membership left and
  nameless.\<close>

theorem departed_actors_stay_erased:
  assumes "reachable api d" and "r \<in> set (actors d)" and "a_deleted_at r \<noteq> None"
  shows "a_display_name r = None
    \<and> (\<forall>u \<in> set (users d). u_actor_id u \<noteq> a_id r) \<and> (\<forall>x \<in> set (sessions d). s_actor x \<noteq> a_id r)
    \<and> (\<forall>m \<in> set (team_members d). tm_actor m \<noteq> a_id r) \<and> (\<forall>m \<in> set (channel_members d). cm_actor m \<noteq> a_id r)
    \<and> (\<forall>m \<in> set (organization_members d). om_actor m = a_id r \<longrightarrow> om_status m = ''left'' \<and> om_display_name m = None)"
proof -
  from reachable_departed_clean [OF assms(1)] assms(2,3)
  have gone: "a_display_name r = None" "erased d (a_id r)"
    unfolding departed_clean_def by blast+
  then show ?thesis unfolding erased_def key_set_def image_iff by metis
qed

theorem departed_actors_stay_erased_witness:
  "4000 \<notin> u_actor_id ` set (users demo_left) \<and> 4000 \<notin> s_actor ` set (sessions demo_left)"
proof -
  have "\<lparr>a_id = 4000, a_type = ''human'', a_display_name = None, a_deleted_at = Some 13\<rparr> \<in> set (actors demo_left)"
    by code_simp
  from departed_actors_stay_erased [OF demo_left_reachable this] show ?thesis by auto
qed

text \<open>C5: In every reachable database the messages of each channel, in posting order, carry the numbers
  1, 2, 3, ... up to the channel's counter: no gap, no duplicate, no reordering.\<close>

theorem channels_number_without_gaps:
  assumes "reachable api d" and "r \<in> set (channels d)"
  shows "map m_seq (filter (\<lambda>m. m_channel m = ch_id r) (messages d)) = [1..ch_next_seq r]"
proof -
  have "gapless empty_db" by (simp add: gapless_def empty_db_def)
  from reachable_invariant [OF assms(1) this gapless_kept] assms(2) show ?thesis
    by (simp add: gapless_def numbers_def)
qed

theorem channels_number_without_gaps_witness:
  "map m_seq (filter (\<lambda>m. m_channel m = 7000) (messages demo)) = [1..2]"
  using channels_number_without_gaps [OF demo_reachable, of "\<lparr>ch_id = 7000, ch_org = 2000, ch_team = None,
      ch_scope = ''organization'', ch_name = [97, 108, 108], ch_next_seq = 2\<rparr>"]
  by (simp add: demo_def)

text \<open>C40: In every reachable database every stored name parses: roles, statuses, team roles, invite kinds
  and actor types. The errors the operations keep for text that does not are never taken.\<close>

theorem stored_names_parse:
  assumes "reachable api d"
  shows "(\<forall>m \<in> set (organization_members d). role_parse (om_role m) \<noteq> None \<and> status_parse (om_status m) \<noteq> None)
    \<and> (\<forall>m \<in> set (team_members d). team_role_parse (tm_role m) \<noteq> None)
    \<and> (\<forall>i \<in> set (invites d). invite_kind_parse (i_kind i) \<noteq> None)
    \<and> (\<forall>a \<in> set (actors d). actor_type_parse (a_type a) \<noteq> None)"
proof -
  have "schema_ok d" using assms by (rule reachable_schema)
  then have "members_ok (organization_members d) (organizations d) (actors d)"
    "team_members_ok (team_members d) (teams d) (organization_members d)"
    "invites_ok (invites d) (teams d) (organizations d) (actors d)" "actors_ok (actors d)"
    by (simp_all add: schema_ok_def)
  then show ?thesis
    unfolding members_ok_def team_members_ok_def invites_ok_def actors_ok_def invite_row_ok_def
    by (auto simp: role.parse_None_iff status.parse_None_iff team_role.parse_None_iff
        invite_kind_parse_def actor_type.parse_None_iff)
qed

theorem stored_names_parse_witness:
  "role_parse (om_role (organization_members demo ! 1)) \<noteq> None"
proof -
  have "organization_members demo ! 1 \<in> set (organization_members demo)"
    by (rule nth_mem) (simp add: demo_def)
  then show ?thesis using stored_names_parse [OF demo_reachable] by blast
qed

section \<open>Atomicity and history\<close>

text \<open>C6: Whatever the connection does, a request commits either nothing or exactly what it commits on a
  healthy connection; one that reports success has committed all of it; one that reports an error on a
  healthy connection has changed nothing.\<close>

theorem requests_are_atomic:
  "(committed (run_request api r c) = committed c
     \<or> committed (run_request api r c) = committed (run_request api r (heal c)))
   \<and> (request_ok api r c \<longrightarrow> request_ok api r (heal c)
        \<and> committed (run_request api r c) = committed (run_request api r (heal c)))
   \<and> (wire c = Healthy \<and> \<not> request_ok api r c \<longrightarrow> committed (run_request api r c) = committed c)"
  by (rule request_contract)

theorem requests_are_atomic_witness:
  "committed (run_request any_v7 (CreateTeam 1000 2000 (lit ''Ops'')) ((conn_at 13 demo)\<lparr>wire := DropsAfter 20 False\<rparr>))
     = committed (run_request any_v7 (CreateTeam 1000 2000 (lit ''Ops'')) (heal ((conn_at 13 demo)\<lparr>wire := DropsAfter 20 False\<rparr>)))
   \<and> committed (run_request any_v7 (CreateTeam 4711 2000 (lit ''Ops'')) (conn_at 13 demo)) = demo"
proof -
  have "request_ok any_v7 (CreateTeam 1000 2000 (lit ''Ops'')) ((conn_at 13 demo)\<lparr>wire := DropsAfter 20 False\<rparr>)"
    and "\<not> request_ok any_v7 (CreateTeam 4711 2000 (lit ''Ops'')) (conn_at 13 demo)"
    by code_simp+
  then show ?thesis
    using requests_are_atomic [of any_v7 "CreateTeam 1000 2000 (lit ''Ops'')" "(conn_at 13 demo)\<lparr>wire := DropsAfter 20 False\<rparr>"]
      requests_are_atomic [of any_v7 "CreateTeam 4711 2000 (lit ''Ops'')" "conn_at 13 demo"]
    by simp
qed

text \<open>C7: No request takes anything back: audit records, messages, organizations and teams are only appended;
  actors, memberships, invites and channels are never removed and keep their identifying columns; a
  departure, a revocation and a used-up place are final; channel counters never fall.\<close>

theorem requests_preserve_history: "history (committed c) (committed (run_request api r c))"
  by (rule path_history) (rule request_path)

end
